theory Spec2Isabelle
  imports Complex_Main "HOL-Library.Multiset"
begin

section \<open>JavaScript values, objects, arrays and the random source\<close>

text \<open>
  The engine (\<^verbatim>\<open>src/engine.js\<close>) is plain JavaScript over loosely typed values.
  A value is \<open>undefined\<close>, \<open>null\<close>, a number or a string. A number is an IEEE 754
  double: \<open>NaN\<close>, \<open>+\<infinity>\<close>, \<open>-\<infinity>\<close> or a finite double \<open>Num x\<close>, \<open>x\<close> being its
  value as a real. The two zeros are one value, \<open>Num 0\<close>: the engine never divides
  and never inspects the sign of a zero.
\<close>

datatype jsval = Undefined | Null | NaN | PosInf | NegInf | Num real | Str string

text \<open>The exceptions the engine can raise, as values.\<close>

datatype error =
    UnknownDistributionType string  \<comment> \<open>\<^verbatim>\<open>sampleFromDistribution: unknown type '...'\<close>\<close>
  | UnknownSequenceType string      \<comment> \<open>\<^verbatim>\<open>Unknown sequenceType: ...\<close>\<close>
  | DirectionRequired               \<comment> \<open>\<^verbatim>\<open>buildTrialParams: dir_1 is required\<close> (draft)\<close>
  | TypeError                       \<comment> \<open>property read on \<open>undefined\<close>\<close>
  | RangeError                      \<comment> \<open>\<^verbatim>\<open>Invalid array length\<close>: \<^verbatim>\<open>push\<close> on a full array\<close>

text \<open>
  An object is its list of own properties in insertion order. Assigning to an
  existing key replaces the value in place, assigning to a new key appends it;
  reading a missing key gives \<open>undefined\<close>.
\<close>

type_synonym jsobj = "(string \<times> jsval) list"

fun obj_set :: "jsobj \<Rightarrow> string \<Rightarrow> jsval \<Rightarrow> jsobj" where
  "obj_set [] k v = [(k, v)]"
| "obj_set (p # ps) k v = (if fst p = k then (k, v) # ps else p # obj_set ps k v)"

definition obj_get :: "jsobj \<Rightarrow> string \<Rightarrow> jsval" where
  "obj_get ob k = (case map_of ob k of None \<Rightarrow> Undefined | Some v \<Rightarrow> v)"

text \<open>A run of assignments \<^verbatim>\<open>o.k = v\<close>, and the spread \<^verbatim>\<open>{...a, ...b}\<close>.\<close>

definition assign_all :: "jsobj \<Rightarrow> (string \<times> jsval) list \<Rightarrow> jsobj" where
  "assign_all ob kvs = fold (\<lambda>kv acc. obj_set acc (fst kv) (snd kv)) kvs ob"

definition spread :: "jsobj \<Rightarrow> jsobj \<Rightarrow> jsobj" where
  "spread a b = assign_all a b"

text \<open>
  Array reads and writes by a (possibly out-of-range) integer index: a read out
  of range gives \<open>undefined\<close>; a write past the end extends the array, the holes
  reading as \<open>undefined\<close>; a write at a negative index adds a property that is
  not an element. Such a property is not kept here, so a later read at the same
  negative index gives \<open>undefined\<close>: the engine only computes indices from
  \<^verbatim>\<open>Math.random\<close>, which never yields a negative one.
\<close>

definition js_nth :: "jsval list \<Rightarrow> int \<Rightarrow> jsval" where
  "js_nth xs i = (if 0 \<le> i \<and> i < int (length xs) then xs ! nat i else Undefined)"

definition js_set :: "jsval list \<Rightarrow> int \<Rightarrow> jsval \<Rightarrow> jsval list" where
  "js_set xs i v =
     (if i < 0 then xs
      else if i < int (length xs) then xs[nat i := v]
      else xs @ replicate (nat i - length xs) Undefined @ [v])"

subsection \<open>Double-precision arithmetic\<close>

text \<open>
  Rounding to the nearest double, ties to even. For a magnitude \<open>a > 0\<close>,
  \<open>expo a\<close> is the binary exponent \<open>e\<close> with \<open>2\<^sup>e \<le> a < 2\<^sup>e\<^sup>+\<^sup>1\<close>, found by halving
  or doubling and kept between the exponent of the subnormal numbers (-1022) and
  1024, from where every magnitude overflows. The doubles of that binade are the
  multiples of \<open>ulp a = 2\<^sup>e\<^sup>-\<^sup>5\<^sup>2\<close>, and \<open>round_mag a\<close> is the nearest multiple.
\<close>

fun halvings :: "nat \<Rightarrow> real \<Rightarrow> nat" where
  "halvings 0 a = 0"
| "halvings (Suc n) a = (if a < 2 then 0 else Suc (halvings n (a / 2)))"

fun doublings :: "nat \<Rightarrow> real \<Rightarrow> nat" where
  "doublings 0 a = 0"
| "doublings (Suc n) a = (if 1 \<le> a then 0 else Suc (doublings n (2 * a)))"

definition expo :: "real \<Rightarrow> int" where
  "expo a = (if 1 \<le> a then int (halvings 1024 a) else - int (doublings 1022 a))"

definition rhe :: "real \<Rightarrow> int" where
  "rhe q = (let f = \<lfloor>q\<rfloor>; d = q - of_int f
            in if d < 1 / 2 then f else if 1 / 2 < d then f + 1
               else if even f then f else f + 1)"

definition ulp :: "real \<Rightarrow> real" where
  "ulp a = 2 powi (expo a - 52)"

definition round_mag :: "real \<Rightarrow> real" where
  "round_mag a = of_int (rhe (a / ulp a)) * ulp a"

text \<open>
  \<open>fl x\<close> is the double that an operation with the exact result \<open>x\<close> returns: the
  nearest double, or an infinity when the rounded magnitude reaches \<open>2\<^sup>1\<^sup>0\<^sup>2\<^sup>4\<close>.
\<close>

definition fl :: "real \<Rightarrow> jsval" where
  "fl x = (if x = 0 then Num 0
           else let y = round_mag \<bar>x\<bar>
                in if 2 powi 1024 \<le> y then (if 0 < x then PosInf else NegInf)
                   else Num (if 0 < x then y else - y))"

text \<open>A real is (the value of) a double when rounding leaves it unchanged.\<close>

definition is_double :: "real \<Rightarrow> bool" where
  "is_double x = (fl x = Num x)"

text \<open>
  The operators the engine applies to properties read back from an object and
  to the fields of a spec: \<^verbatim>\<open>+\<close>, \<^verbatim>\<open>-\<close>, \<^verbatim>\<open>*\<close>, \<^verbatim>\<open>> 0\<close> and \<^verbatim>\<open>Math.round\<close>. An
  operand is first converted to a number: \<open>undefined\<close> to \<open>NaN\<close>, \<open>null\<close> to 0. The
  operands are numbers wherever the engine computes (timing fields, counts,
  distribution parameters); a string operand, which \<^verbatim>\<open>+\<close> would concatenate and
  the other operators would parse, is read as \<open>NaN\<close>.
\<close>

fun to_number :: "jsval \<Rightarrow> jsval" where
  "to_number Undefined = NaN"
| "to_number Null = Num 0"
| "to_number (Str s) = NaN"
| "to_number v = v"

fun js_neg :: "jsval \<Rightarrow> jsval" where
  "js_neg (Num a) = Num (- a)"
| "js_neg PosInf = NegInf"
| "js_neg NegInf = PosInf"
| "js_neg _ = NaN"

fun num_add :: "jsval \<Rightarrow> jsval \<Rightarrow> jsval" where
  "num_add (Num a) (Num b) = fl (a + b)"
| "num_add (Num a) PosInf = PosInf"
| "num_add (Num a) NegInf = NegInf"
| "num_add PosInf (Num b) = PosInf"
| "num_add PosInf PosInf = PosInf"
| "num_add NegInf (Num b) = NegInf"
| "num_add NegInf NegInf = NegInf"
| "num_add _ _ = NaN"

fun num_mul :: "jsval \<Rightarrow> jsval \<Rightarrow> jsval" where
  "num_mul (Num a) (Num b) = fl (a * b)"
| "num_mul (Num a) PosInf = (if a = 0 then NaN else if 0 < a then PosInf else NegInf)"
| "num_mul (Num a) NegInf = (if a = 0 then NaN else if 0 < a then NegInf else PosInf)"
| "num_mul PosInf (Num b) = (if b = 0 then NaN else if 0 < b then PosInf else NegInf)"
| "num_mul NegInf (Num b) = (if b = 0 then NaN else if 0 < b then NegInf else PosInf)"
| "num_mul PosInf PosInf = PosInf"
| "num_mul PosInf NegInf = NegInf"
| "num_mul NegInf PosInf = NegInf"
| "num_mul NegInf NegInf = PosInf"
| "num_mul _ _ = NaN"

definition js_add :: "jsval \<Rightarrow> jsval \<Rightarrow> jsval" where
  "js_add a b = num_add (to_number a) (to_number b)"

definition js_sub :: "jsval \<Rightarrow> jsval \<Rightarrow> jsval" where
  "js_sub a b = num_add (to_number a) (js_neg (to_number b))"

definition js_mul :: "jsval \<Rightarrow> jsval \<Rightarrow> jsval" where
  "js_mul a b = num_mul (to_number a) (to_number b)"

fun js_gt0 :: "jsval \<Rightarrow> bool" where
  "js_gt0 (Num a) = (a > 0)"
| "js_gt0 PosInf = True"
| "js_gt0 _ = False"

text \<open>\<^verbatim>\<open>v ?? d\<close>: \<open>d\<close> for \<open>undefined\<close> and \<open>null\<close>, else \<open>v\<close>.\<close>

definition nullish_or :: "jsval \<Rightarrow> jsval \<Rightarrow> jsval" where
  "nullish_or v d = (if v = Undefined \<or> v = Null then d else v)"

text \<open>\<^verbatim>\<open>a === b\<close>: \<open>NaN\<close> is not equal to itself.\<close>

definition strict_eq :: "jsval \<Rightarrow> jsval \<Rightarrow> bool" where
  "strict_eq a b = (a = b \<and> a \<noteq> NaN)"

text \<open>
  \<^verbatim>\<open>Math.random()\<close>: the \<open>k\<close>-th draw of a random source \<open>rnd\<close>; every function
  that draws takes the index of the next draw and returns the new one. The
  contract of \<^verbatim>\<open>Math.random\<close> is a value in \<open>[0, 1)\<close>.

  Where the engine turns a draw into an index, \<^verbatim>\<open>Math.floor(Math.random() * n)\<close>,
  or compares it with a threshold, the product and the threshold are taken
  exactly: their rounding, which can move the engine's index to a neighbouring
  one of \<open>0, \<dots>, n - 1\<close>, is not modelled. The properties below are stated for
  every draw in \<open>[0, 1)\<close>, hence for every index in that range and for both
  outcomes of a comparison.
\<close>

type_synonym rand = "nat \<Rightarrow> real"

definition unit_range :: "rand \<Rightarrow> bool" where
  "unit_range rnd = (\<forall>k. 0 \<le> rnd k \<and> rnd k < 1)"

text \<open>
  \<^verbatim>\<open>Math.round\<close> rounds a double to the nearest integer, ties towards \<open>+\<infinity>\<close>;
  the result is exact (a double of magnitude \<open>2\<^sup>5\<^sup>2\<close> or more is an integer already).
\<close>

definition math_round :: "real \<Rightarrow> int" where
  "math_round x = \<lfloor>x + 1 / 2\<rfloor>"

fun js_round :: "jsval \<Rightarrow> jsval" where
  "js_round (Num x) = Num (of_int (math_round x))"
| "js_round PosInf = PosInf"
| "js_round NegInf = NegInf"
| "js_round _ = NaN"

section \<open>Utility\<close>

definition switchTask :: "jsval \<Rightarrow> jsval" where
  "switchTask task = (if task = Str ''mov'' then Str ''or'' else Str ''mov'')"

record dist =
  dist_type :: string
  dist_value :: real
  dist_params :: "real list option"  \<comment> \<open>\<open>None\<close>: the property is missing\<close>

definition sampleFromDistribution :: "dist \<Rightarrow> rand \<Rightarrow> nat \<Rightarrow> error + (jsval \<times> nat)" where
  "sampleFromDistribution config rnd k =
     (if dist_type config = ''fixed'' then Inr (Num (dist_value config), k)
      else if dist_type config = ''uniform'' then
        (case dist_params config of
           None \<Rightarrow> Inr (Num (dist_value config), k)
         | Some ps \<Rightarrow>
             if length ps < 2 then Inr (Num (dist_value config), k)
             else
               let mn = min (ps ! 0) (ps ! 1);
                   mx = max (ps ! 0) (ps ! 1)
               in Inr (js_add (Num mn) (js_mul (Num (rnd k)) (js_sub (Num mx) (Num mn))),
                       Suc k))
      else if dist_type config = ''choice'' then
        (case dist_params config of
           None \<Rightarrow> Inr (Num (dist_value config), k)
         | Some ps \<Rightarrow>
             if length ps = 0 then Inr (Num (dist_value config), k)
             else Inr (js_nth (map Num ps) \<lfloor>rnd k * real (length ps)\<rfloor>, Suc k))
      else Inl (UnknownDistributionType (dist_type config)))"


section \<open>Sequence generators\<close>

text \<open>
  The loop \<^verbatim>\<open>for (let i = 1; i < numTrials; i++)\<close> is a fold over \<open>[1..<numTrials]\<close>;
  the body of each branch is one step.
\<close>

definition random_step :: "real \<Rightarrow> rand \<Rightarrow> nat \<Rightarrow> jsval list \<times> nat \<Rightarrow> jsval list \<times> nat" where
  "random_step switchRate rnd i st =
     (let sequence = fst st; k = snd st;
          prev = js_nth sequence (int i - 1)
      in (sequence @ [if rnd k < switchRate / 100 then switchTask prev else prev], Suc k))"

definition aabb_step :: "nat \<Rightarrow> jsval list \<Rightarrow> jsval list" where
  "aabb_step i sequence =
     (if i mod 2 = 0 then sequence @ [switchTask (js_nth sequence (int i - 1))]
      else sequence @ [js_nth sequence (int i - 1)])"

definition generateTaskSequence ::
  "nat \<Rightarrow> string \<Rightarrow> real \<Rightarrow> jsval \<Rightarrow> rand \<Rightarrow> nat \<Rightarrow> error + (jsval list \<times> nat)" where
  "generateTaskSequence numTrials sequenceType switchRate startTask rnd k =
     (let first = (if startTask = Undefined \<or> startTask = Null
                   then (if rnd k < 1 / 2 then Str ''mov'' else Str ''or'', Suc k)
                   else (startTask, k));
          firstTask = fst first; k1 = snd first
      in if sequenceType = ''Random''
         then Inr (fold (random_step switchRate rnd) [1..<numTrials] ([firstTask], k1))
         else if sequenceType = ''AABB''
         then Inr (fold aabb_step [1..<numTrials] [firstTask], k1)
         else Inl (UnknownSequenceType sequenceType))"

definition classifyTransitions :: "jsval list \<Rightarrow> jsval list" where
  "classifyTransitions taskSequence =
     map (\<lambda>i. if i = 0 then Str ''First''
               else if strict_eq (js_nth taskSequence (int i)) (js_nth taskSequence (int i - 1))
               then Str ''Repeat'' else Str ''Switch'')
         [0..<length taskSequence]"

text \<open>
  The inner loop \<^verbatim>\<open>for (let j = 0; j < count; j++) sequence.push(v)\<close>. The count is
  a number: the loop pushes \<open>\<lceil>count\<rceil>\<close> times for a positive finite count and
  nothing for a negative or \<open>NaN\<close> count. An array holds at most \<open>2\<^sup>3\<^sup>2 - 1\<close>
  elements: \<^verbatim>\<open>push\<close> on a full array raises, which is how the loop ends for an
  infinite count. (The other loops of the engine push once per trial; the bound
  is written out here, where the number of pushes is computed.)
\<close>

definition push_times :: "jsval list \<Rightarrow> jsval \<Rightarrow> jsval \<Rightarrow> error + jsval list" where
  "push_times sequence cnt v =
     (case cnt of
        PosInf \<Rightarrow> Inl RangeError
      | Num c \<Rightarrow> if 4294967295 < length sequence + nat \<lceil>c\<rceil> then Inl RangeError
                 else Inr (sequence @ replicate (nat \<lceil>c\<rceil>) v)
      | _ \<Rightarrow> Inr sequence)"

text \<open>
  One pass of the counting loop of \<^verbatim>\<open>generateCongruencySequence\<close>, on the pair of
  \<open>sequence\<close> and \<open>assigned\<close>. A proportion read out of range is \<open>undefined\<close>, and the
  product with it is \<open>NaN\<close>.
\<close>

definition count_step ::
  "nat \<Rightarrow> string list \<Rightarrow> real list \<Rightarrow> nat \<Rightarrow> error + (jsval list \<times> jsval)
     \<Rightarrow> error + (jsval list \<times> jsval)" where
  "count_step numTrials conditions proportions i st =
     (case st of Inl e \<Rightarrow> Inl e
      | Inr sa \<Rightarrow>
          (let sequence = fst sa; assigned = snd sa;
               count = (if int i = int (length conditions) - 1
                        then js_sub (Num (real numTrials)) assigned
                        else js_round (js_mul (Num (real numTrials))
                                              (js_nth (map Num proportions) (int i))))
           in case push_times sequence count (Str (conditions ! i)) of
                Inl e \<Rightarrow> Inl e
              | Inr sequence' \<Rightarrow> Inr (sequence', js_add assigned count)))"

text \<open>One swap of the Fisher-Yates shuffle, \<open>i\<close> running down from the last index to 1.\<close>

definition shuffle_step :: "rand \<Rightarrow> nat \<Rightarrow> jsval list \<times> nat \<Rightarrow> jsval list \<times> nat" where
  "shuffle_step rnd i st =
     (let sequence = fst st; k = snd st;
          j = \<lfloor>rnd k * (real i + 1)\<rfloor>;
          at_j = js_nth sequence j;
          at_i = js_nth sequence (int i)
      in (js_set (js_set sequence (int i) at_j) j at_i, Suc k))"

definition generateCongruencySequence ::
  "nat \<Rightarrow> string list \<Rightarrow> real list \<Rightarrow> rand \<Rightarrow> nat \<Rightarrow> error + (jsval list \<times> nat)" where
  "generateCongruencySequence numTrials conditions proportions rnd k =
     (case fold (count_step numTrials conditions proportions)
                [0..<length conditions] (Inr ([], Num 0)) of
        Inl e \<Rightarrow> Inl e
      | Inr sa \<Rightarrow>
          (let sequence = fst sa
           in Inr (fold (shuffle_step rnd) (rev [1..<length sequence]) (sequence, k))))"

section \<open>Direction assignment\<close>

record quad =
  ch1_task :: jsval
  ch1_distractor :: jsval
  ch2_task :: jsval
  ch2_distractor :: jsval

definition assignDirections ::
  "jsval \<Rightarrow> jsval \<Rightarrow> string \<Rightarrow> string \<Rightarrow> rand \<Rightarrow> nat \<Rightarrow> quad \<times> nat" where
  "assignDirections task congruency paradigm rso rnd k =
     (if paradigm = ''dual-task'' then
        (let ch1Dir = (if rnd k < 1 / 2 then 0 else 180);
             ch2Dir = (if rnd (Suc k) < 1 / 2 then 0 else 180)
         in (\<lparr>ch1_task = Num ch1Dir, ch1_distractor = Num 0,
              ch2_task = Num ch2Dir, ch2_distractor = Num 0\<rparr>, Suc (Suc k)))
      else
        (let primaryDir = (if rnd k < 1 / 2 then 0 else 180 :: real);
             dk = (if congruency = Str ''congruent'' then (primaryDir, Suc k)
                   else if congruency = Str ''incongruent''
                   then (if primaryDir = 0 then 180 else 0, Suc k)
                   else if congruency = Str ''neutral''
                   then (if rnd (Suc k) < 1 / 2 then 90 else 270, Suc (Suc k))
                   else (0, Suc k))
         in (\<lparr>ch1_task = Num primaryDir, ch1_distractor = Num (fst dk),
              ch2_task = Num 0, ch2_distractor = Num 0\<rparr>, snd dk)))"

section \<open>Parameter builders\<close>

text \<open>
  The fields of a trial spec are passed as they come: the timing inputs are
  numbers (milliseconds), and the coherence and direction objects may be missing
  altogether (\<open>None\<close>), in which case reading a field of them raises.
\<close>

record TrialSpec =
  task1 :: jsval
  task2 :: jsval
  csi :: jsval
  dur_ch1 :: jsval
  dur_ch2 :: jsval
  soa :: jsval
  responseWindow :: jsval
  coherence :: "quad option"
  dir :: "quad option"

definition buildCoherenceParams :: "TrialSpec \<Rightarrow> error + jsobj" where
  "buildCoherenceParams spec =
     (case (if task1 spec = Str ''mov'' then
              (case coherence spec of None \<Rightarrow> Inl TypeError
               | Some c \<Rightarrow> Inr (assign_all []
                   [(''coh_mov_1'', ch1_task c), (''coh_or_1'', ch1_distractor c)]))
            else if task1 spec = Str ''or'' then
              (case coherence spec of None \<Rightarrow> Inl TypeError
               | Some c \<Rightarrow> Inr (assign_all []
                   [(''coh_or_1'', ch1_task c), (''coh_mov_1'', ch1_distractor c)]))
            else Inr [])
      of Inl e \<Rightarrow> Inl e
       | Inr coherenceParams \<Rightarrow>
           if task2 spec \<noteq> Null then
             if task2 spec = Str ''mov'' then
               (case coherence spec of None \<Rightarrow> Inl TypeError
                | Some c \<Rightarrow> Inr (assign_all coherenceParams
                    [(''coh_mov_2'', ch2_task c), (''coh_or_2'', ch2_distractor c)]))
             else if task2 spec = Str ''or'' then
               (case coherence spec of None \<Rightarrow> Inl TypeError
                | Some c \<Rightarrow> Inr (assign_all coherenceParams
                    [(''coh_or_2'', ch2_task c), (''coh_mov_2'', ch2_distractor c)]))
             else Inr coherenceParams
           else Inr (assign_all coherenceParams
                  [(''coh_mov_2'', Num 0), (''coh_or_2'', Num 0)]))"

definition buildDirectionParams :: "TrialSpec \<Rightarrow> error + jsobj" where
  "buildDirectionParams spec =
     (case (if task1 spec = Str ''mov'' then
              (case dir spec of None \<Rightarrow> Inl TypeError
               | Some d \<Rightarrow> Inr (assign_all []
                   [(''dir_mov_1'', ch1_task d), (''dir_or_1'', ch1_distractor d)]))
            else if task1 spec = Str ''or'' then
              (case dir spec of None \<Rightarrow> Inl TypeError
               | Some d \<Rightarrow> Inr (assign_all []
                   [(''dir_or_1'', ch1_task d), (''dir_mov_1'', ch1_distractor d)]))
            else Inr [])
      of Inl e \<Rightarrow> Inl e
       | Inr directionParams \<Rightarrow>
           if task2 spec \<noteq> Null then
             if task2 spec = Str ''mov'' then
               (case dir spec of None \<Rightarrow> Inl TypeError
                | Some d \<Rightarrow> Inr (assign_all directionParams
                    [(''dir_mov_2'', ch2_task d), (''dir_or_2'', ch2_distractor d)]))
             else if task2 spec = Str ''or'' then
               (case dir spec of None \<Rightarrow> Inl TypeError
                | Some d \<Rightarrow> Inr (assign_all directionParams
                    [(''dir_or_2'', ch2_task d), (''dir_mov_2'', ch2_distractor d)]))
             else Inr directionParams
           else Inr (assign_all directionParams
                  [(''dir_mov_2'', Num 0), (''dir_or_2'', Num 0)]))"

definition buildTimingParams :: "TrialSpec \<Rightarrow> jsobj" where
  "buildTimingParams spec =
     assign_all []
       ([(''start_1'', Num 0),
         (''dur_1'', js_add (csi spec) (dur_ch1 spec)),
         (''start_go_1'', csi spec),
         (''dur_go_1'', responseWindow spec),
         (''start_mov_1'', csi spec),
         (''dur_mov_1'', dur_ch1 spec),
         (''start_or_1'', csi spec),
         (''dur_or_1'', dur_ch1 spec)] @
        (if task2 spec \<noteq> Null then
           (let ch2RelativeOffset = js_sub (soa spec) (dur_ch1 spec)
            in [(''start_2'', js_add (csi spec) (soa spec)),
                (''dur_2'', dur_ch2 spec),
                (''start_go_2'', js_add (csi spec) (soa spec)),
                (''dur_go_2'', responseWindow spec),
                (''start_mov_2'', ch2RelativeOffset),
                (''dur_mov_2'', dur_ch2 spec),
                (''start_or_2'', ch2RelativeOffset),
                (''dur_or_2'', dur_ch2 spec)])
         else
           [(''start_2'', Num 0),
            (''dur_2'', Num 0),
            (''start_go_2'', Num 0),
            (''dur_go_2'', Num 0),
            (''start_mov_2'', Num 0),
            (''dur_mov_2'', Num 0),
            (''start_or_2'', Num 0),
            (''dur_or_2'', Num 0)]))"

text \<open>
  The three phases of \<^verbatim>\<open>buildTrialParams\<close> after the object literal: one
  \<^verbatim>\<open>if (params.coh_X === 0) { params.start_X = 0; params.dur_X = 0; }\<close> per pathway,
  then the recomputation of the channel-2 offsets.
\<close>

definition silence_pathway :: "jsobj \<Rightarrow> string \<Rightarrow> string \<Rightarrow> string \<Rightarrow> jsobj" where
  "silence_pathway params coh start dur =
     (if strict_eq (obj_get params coh) (Num 0)
      then obj_set (obj_set params start (Num 0)) dur (Num 0)
      else params)"

definition silence :: "jsobj \<Rightarrow> jsobj" where
  "silence params =
     silence_pathway
       (silence_pathway
          (silence_pathway
             (silence_pathway params ''coh_mov_1'' ''start_mov_1'' ''dur_mov_1'')
             ''coh_or_1'' ''start_or_1'' ''dur_or_1'')
          ''coh_mov_2'' ''start_mov_2'' ''dur_mov_2'')
       ''coh_or_2'' ''start_or_2'' ''dur_or_2''"

definition recompute_offsets :: "TrialSpec \<Rightarrow> jsobj \<Rightarrow> jsobj" where
  "recompute_offsets spec params =
     (if task2 spec \<noteq> Null then
        (let mov1End = js_add (obj_get params ''start_mov_1'') (obj_get params ''dur_mov_1'');
             or1End = js_add (obj_get params ''start_or_1'') (obj_get params ''dur_or_1'');
             desiredCh2Start = js_add (csi spec) (soa spec);
             params1 = (if js_gt0 (obj_get params ''dur_mov_2'')
                        then obj_set params ''start_mov_2'' (js_sub desiredCh2Start mov1End)
                        else params)
         in if js_gt0 (obj_get params1 ''dur_or_2'')
            then obj_set params1 ''start_or_2'' (js_sub desiredCh2Start or1End)
            else params1)
      else params)"

definition buildTrialParams :: "TrialSpec \<Rightarrow> error + jsobj" where
  "buildTrialParams spec =
     (case buildCoherenceParams spec of Inl e \<Rightarrow> Inl e
      | Inr coherenceParams \<Rightarrow>
     (case buildDirectionParams spec of Inl e \<Rightarrow> Inl e
      | Inr directionParams \<Rightarrow>
          Inr (recompute_offsets spec (silence
                 (spread (spread (spread
                    [(''task_1'', task1 spec), (''task_2'', task2 spec)]
                    (buildTimingParams spec)) coherenceParams) directionParams)))))"

text \<open>
  The draft of \<^verbatim>\<open>buildTrialParams\<close> kept in \<^verbatim>\<open>src/engine.js\<close>: it takes the
  fields as named arguments, checks \<^verbatim>\<open>dir_1 == undefined\<close> (true of \<open>undefined\<close>
  and \<open>null\<close>) and returns the three fields it had so far.
\<close>

definition buildTrialParams_draft :: "jsval \<Rightarrow> real \<Rightarrow> real \<Rightarrow> jsval \<Rightarrow> error + jsobj" where
  "buildTrialParams_draft task1' stimulusDuration' csi' dir_1 =
     (if dir_1 = Undefined \<or> dir_1 = Null then Inl DirectionRequired
      else Inr [(''task_1'', task1'), (''start_1'', Num 0),
                (''dur_1'', js_add (Num csi') (Num stimulusDuration'))])"

section \<open>Block trial generation\<close>

record BlockConfig =
  blockId :: string
  blockType :: string
  paradigm :: string
  cfg_task1 :: jsval
  sequenceType :: string
  switchRate :: real
  startTask :: jsval
  cfg_csi :: jsval
  stimulusDuration :: jsval
  cfg_responseWindow :: jsval
  cfg_coherence :: "quad option"
  conditions :: "string list"
  proportions :: "real list"
  iti :: dist
  cfg_soa :: dist
  rso :: string

record trial =
  seParams :: jsobj
  meta :: jsobj

text \<open>
  The two object literals of the loop body: the spec handed to
  \<^verbatim>\<open>buildTrialParams\<close> and the metadata for analysis. \<open>sampled_soa\<close> is the sampled
  SOA, or \<open>null\<close> outside dual-task blocks.
\<close>

definition trialSpec :: "BlockConfig \<Rightarrow> jsval \<Rightarrow> jsval \<Rightarrow> jsval \<Rightarrow> quad \<Rightarrow> TrialSpec" where
  "trialSpec blockConfig t1 t2 sampled_soa d =
     \<lparr>task1 = t1, task2 = t2,
      csi = cfg_csi blockConfig,
      dur_ch1 = stimulusDuration blockConfig,
      dur_ch2 = (if paradigm blockConfig = ''dual-task'' then stimulusDuration blockConfig
                 else Num 0),
      soa = nullish_or sampled_soa (Num 0),
      responseWindow = cfg_responseWindow blockConfig,
      coherence = cfg_coherence blockConfig,
      dir = Some d\<rparr>"

definition trialMeta ::
  "BlockConfig \<Rightarrow> nat \<Rightarrow> jsval \<Rightarrow> jsval \<Rightarrow> jsval \<Rightarrow> jsval \<Rightarrow> jsval \<Rightarrow> jsval \<Rightarrow> jsval \<Rightarrow> quad
     \<Rightarrow> jsobj" where
  "trialMeta blockConfig i t1 t2 transition congruency previousCongruency sampled_iti sampled_soa d =
     [(''trialNumber'', Num (real i + 1)),
      (''blockId'', Str (blockId blockConfig)),
      (''blockType'', Str (blockType blockConfig)),
      (''paradigm'', Str (paradigm blockConfig)),
      (''task'', t1),
      (''task2'', t2),
      (''transitionType'', transition),
      (''congruency'', congruency),
      (''previousCongruency'', previousCongruency),
      (''iti'', sampled_iti),
      (''soa'', sampled_soa),
      (''primaryDirection'', ch1_task d),
      (''distractorDirection'',
         if congruency = Str ''univalent'' then Null else ch1_distractor d),
      (''ch2Direction'',
         if paradigm blockConfig = ''dual-task'' then ch2_task d else Null)]"

text \<open>The body of the assembling loop, for trial index \<open>i\<close>.\<close>

definition assembleTrial ::
  "BlockConfig \<Rightarrow> jsval list \<Rightarrow> jsval list \<Rightarrow> jsval list \<Rightarrow> rand \<Rightarrow> nat \<Rightarrow> nat
     \<Rightarrow> error + (trial \<times> nat)" where
  "assembleTrial blockConfig taskSequence transitions congruencySequence rnd i k =
     (let isDualTask = (paradigm blockConfig = ''dual-task'');
          t1 = js_nth taskSequence (int i);
          t2 = (if isDualTask then switchTask (js_nth taskSequence (int i)) else Null);
          congruency = js_nth congruencySequence (int i);
          previousCongruency = (if i > 0 then js_nth congruencySequence (int i - 1) else Null)
      in case sampleFromDistribution (iti blockConfig) rnd k of Inl e \<Rightarrow> Inl e
         | Inr iti_k \<Rightarrow>
        (case (if isDualTask then sampleFromDistribution (cfg_soa blockConfig) rnd (snd iti_k)
               else Inr (Null, snd iti_k)) of Inl e \<Rightarrow> Inl e
         | Inr soa_k \<Rightarrow>
        (let dir_k = assignDirections t1 congruency (paradigm blockConfig) (rso blockConfig)
                       rnd (snd soa_k)
         in case buildTrialParams (trialSpec blockConfig t1 t2 (fst soa_k) (fst dir_k)) of
              Inl e \<Rightarrow> Inl e
            | Inr se \<Rightarrow>
                Inr (\<lparr>seParams = se,
                      meta = trialMeta blockConfig i t1 t2 (js_nth transitions (int i))
                               congruency previousCongruency (fst iti_k) (fst soa_k)
                               (fst dir_k)\<rparr>,
                     snd dir_k))))"

text \<open>The loop \<^verbatim>\<open>for (let i = 0; i < numTrials; i++)\<close>, over the indices left to do.\<close>

fun assembleTrials ::
  "BlockConfig \<Rightarrow> jsval list \<Rightarrow> jsval list \<Rightarrow> jsval list \<Rightarrow> rand \<Rightarrow> nat list \<Rightarrow> trial list \<Rightarrow> nat
     \<Rightarrow> error + (trial list \<times> nat)" where
  "assembleTrials blockConfig taskSequence transitions congruencySequence rnd [] trials k =
     Inr (trials, k)"
| "assembleTrials blockConfig taskSequence transitions congruencySequence rnd (i # is) trials k =
     (case assembleTrial blockConfig taskSequence transitions congruencySequence rnd i k of
        Inl e \<Rightarrow> Inl e
      | Inr tk \<Rightarrow>
          assembleTrials blockConfig taskSequence transitions congruencySequence rnd is
            (trials @ [fst tk]) (snd tk))"

definition generateBlockTrials ::
  "BlockConfig \<Rightarrow> nat \<Rightarrow> rand \<Rightarrow> nat \<Rightarrow> error + (trial list \<times> nat)" where
  "generateBlockTrials blockConfig numTrials rnd k =
     (let isDualTask = (paradigm blockConfig = ''dual-task'')
      in case generateTaskSequence numTrials (sequenceType blockConfig) (switchRate blockConfig)
                (if isDualTask then cfg_task1 blockConfig else startTask blockConfig) rnd k of
           Inl e \<Rightarrow> Inl e
         | Inr seq_k \<Rightarrow>
             (let taskSequence = fst seq_k;
                  transitions = classifyTransitions taskSequence
              in case generateCongruencySequence numTrials (conditions blockConfig)
                        (proportions blockConfig) rnd (snd seq_k) of
                   Inl e \<Rightarrow> Inl e
                 | Inr cong_k \<Rightarrow>
                     assembleTrials blockConfig taskSequence transitions (fst cong_k) rnd
                       [0..<numTrials] [] (snd cong_k)))"

section \<open>The specification's words\<close>

text \<open>
  The run-length-2 pattern as the specification describes it: position \<open>i\<close> holds
  the first task when \<open>\<lfloor>i / 2\<rfloor>\<close> is even and the other task when it is odd.
\<close>

definition aabb_pattern :: "jsval \<Rightarrow> nat \<Rightarrow> jsval" where
  "aabb_pattern first i = (if even (i div 2) then first else switchTask first)"

section \<open>Inputs of the engine's own tests\<close>

text \<open>
  Trial specs and a block configuration of \<^verbatim>\<open>src/test_engine.js\<close>. The literals
  \<^verbatim>\<open>0.8\<close> and \<^verbatim>\<open>0.6\<close> denote the nearest doubles.
\<close>

definition singleSpec :: TrialSpec where
  "singleSpec =
     \<lparr>task1 = Str ''mov'', task2 = Null, csi = Num 200, dur_ch1 = Num 300, dur_ch2 = Num 0,
      soa = Num 0, responseWindow = Num 2000,
      coherence = Some \<lparr>ch1_task = fl (8 / 10), ch1_distractor = Num 0,
                         ch2_task = Num 0, ch2_distractor = Num 0\<rparr>,
      dir = Some \<lparr>ch1_task = Num 0, ch1_distractor = Num 0,
                   ch2_task = Num 0, ch2_distractor = Num 0\<rparr>\<rparr>"

definition dualBivalentSpec :: TrialSpec where
  "dualBivalentSpec =
     \<lparr>task1 = Str ''mov'', task2 = Str ''or'', csi = Num 200, dur_ch1 = Num 300,
      dur_ch2 = Num 300, soa = Num 100, responseWindow = Num 2000,
      coherence = Some \<lparr>ch1_task = fl (8 / 10), ch1_distractor = fl (8 / 10),
                         ch2_task = fl (6 / 10), ch2_distractor = Num 0\<rparr>,
      dir = Some \<lparr>ch1_task = Num 180, ch1_distractor = Num 180,
                   ch2_task = Num 0, ch2_distractor = Num 0\<rparr>\<rparr>"

definition prpConfig :: BlockConfig where
  "prpConfig =
     \<lparr>blockId = ''hirsch_prp'', blockType = ''prp'', paradigm = ''dual-task'',
      cfg_task1 = Str ''mov'', sequenceType = ''Random'', switchRate = 50, startTask = Null,
      cfg_csi = Num 200, stimulusDuration = Num 300, cfg_responseWindow = Num 2000,
      cfg_coherence = Some \<lparr>ch1_task = fl (8 / 10), ch1_distractor = Num 0,
                             ch2_task = fl (6 / 10), ch2_distractor = Num 0\<rparr>,
      conditions = [''univalent''], proportions = [1],
      iti = \<lparr>dist_type = ''uniform'', dist_value = 500, dist_params = Some [400, 600]\<rparr>,
      cfg_soa = \<lparr>dist_type = ''choice'', dist_value = 100,
                 dist_params = Some [50, 100, 200, 400, 600, 1000]\<rparr>,
      rso = ''identical''\<rparr>"

section \<open>Inputs beyond the tests\<close>

text \<open>
  A bivalent dual-task spec with the timing literals \<^verbatim>\<open>16.7\<close> (one frame at 60 Hz)
  and \<^verbatim>\<open>300.1\<close>, and one with timing inputs of \<open>2\<^sup>1\<^sup>0\<^sup>2\<^sup>3\<close>, a double whose sum
  with itself is beyond the largest double.
\<close>

definition offsetSpec :: TrialSpec where
  "offsetSpec =
     \<lparr>task1 = Str ''mov'', task2 = Str ''or'', csi = fl (167 / 10), dur_ch1 = fl (3001 / 10),
      dur_ch2 = Num 300, soa = fl (167 / 10), responseWindow = Num 2000,
      coherence = Some \<lparr>ch1_task = Num 1, ch1_distractor = Num 1,
                         ch2_task = Num 1, ch2_distractor = Num 0\<rparr>,
      dir = Some \<lparr>ch1_task = Num 180, ch1_distractor = Num 180,
                   ch2_task = Num 0, ch2_distractor = Num 0\<rparr>\<rparr>"

definition overflowSpec :: TrialSpec where
  "overflowSpec =
     \<lparr>task1 = Str ''mov'', task2 = Str ''or'', csi = Num (2 ^ 1023), dur_ch1 = Num (2 ^ 1023),
      dur_ch2 = Num 300, soa = Num (2 ^ 1023), responseWindow = Num 2000,
      coherence = Some \<lparr>ch1_task = Num 1, ch1_distractor = Num 1,
                         ch2_task = Num 1, ch2_distractor = Num 0\<rparr>,
      dir = Some \<lparr>ch1_task = Num 180, ch1_distractor = Num 180,
                   ch2_task = Num 0, ch2_distractor = Num 0\<rparr>\<rparr>"

section \<open>A fixed random source for examples\<close>

definition half :: rand where
  "half k = 1 / 2"

section \<open>Properties\<close>

subsection \<open>Double-precision arithmetic\<close>

lemma halvings_bracket:
  "1 \<le> a \<Longrightarrow> 2 ^ halvings n a \<le> a \<and> (halvings n a < n \<longrightarrow> a < 2 ^ Suc (halvings n a))"
proof (induction n arbitrary: a)
  case 0
  then show ?case by simp
next
  case (Suc n)
  show ?case
  proof (cases "a < 2")
    case True
    then show ?thesis using Suc.prems by simp
  next
    case False
    then have "1 \<le> a / 2" by simp
    from Suc.IH [OF this] show ?thesis using False by (simp add: field_simps)
  qed
qed

lemma halvings_le: "halvings n a \<le> n"
  by (induction n arbitrary: a) simp_all

lemma doublings_le: "doublings n a \<le> n"
  by (induction n arbitrary: a) simp_all

lemma doublings_bracket:
  "0 < a \<Longrightarrow> a < 1 \<Longrightarrow>
     a * 2 ^ doublings n a < 2 \<and> (doublings n a < n \<longrightarrow> 1 \<le> a * 2 ^ doublings n a)"
proof (induction n arbitrary: a)
  case 0
  then show ?case by simp
next
  case (Suc n)
  show ?case
  proof (cases "1 \<le> 2 * a")
    case True
    have "doublings (Suc n) a = Suc (doublings n (2 * a))" using Suc.prems by simp
    moreover have "doublings n (2 * a) = 0" using True by (cases n) simp_all
    ultimately show ?thesis using True Suc.prems by simp
  next
    case False
    then have "0 < 2 * a" "2 * a < 1" using Suc.prems by simp_all
    from Suc.IH [OF this] show ?thesis using Suc.prems by (simp add: field_simps)
  qed
qed

lemma expo_range: "- 1022 \<le> expo a \<and> expo a \<le> 1024"
  using halvings_le [of 1024 a] doublings_le [of 1022 a] by (simp add: expo_def)

lemma expo_upper: "0 < a \<Longrightarrow> expo a < 1024 \<Longrightarrow> a < 2 powi (expo a + 1)"
proof (cases "1 \<le> a")
  case True
  assume "expo a < 1024"
  then have h: "halvings 1024 a < 1024" using True by (simp add: expo_def)
  have "a < 2 ^ Suc (halvings 1024 a)" using halvings_bracket [OF True, of 1024] h by blast
  moreover have "expo a + 1 = int (Suc (halvings 1024 a))" using True by (simp add: expo_def)
  ultimately show ?thesis by (simp only: power_int_of_nat)
next
  case False
  assume pos: "0 < a"
  define k where "k = doublings 1022 a"
  have e: "expo a = - int k" using False by (simp add: expo_def k_def)
  have b: "a * 2 ^ k < 2" using doublings_bracket [of a 1022] pos False by (simp add: k_def)
  have "k \<noteq> 0" using False by (simp add: k_def eval_nat_numeral)
  then obtain j where j: "k = Suc j" by (cases k) auto
  have "a * 2 ^ j < 1" using b by (simp add: j)
  then have "a < 1 / 2 ^ j" by (simp add: field_simps)
  moreover have "(2::real) powi (expo a + 1) = 1 / 2 ^ j"
    by (simp add: e j power_int_def inverse_eq_divide power_one_over)
  ultimately show ?thesis by simp
qed

lemma expo_lower: "2 powi (- 1022) \<le> a \<Longrightarrow> 2 powi expo a \<le> a"
proof (cases "1 \<le> a")
  case True
  have "2 ^ halvings 1024 a \<le> a" using halvings_bracket [OF True, of 1024] by blast
  moreover have "expo a = int (halvings 1024 a)" using True by (simp add: expo_def)
  ultimately show ?thesis by (simp only: power_int_of_nat)
next
  case False
  assume low: "2 powi (- 1022) \<le> a"
  have pos: "0 < a" using low by (smt (verit) zero_less_power_int)
  define k where "k = doublings 1022 a"
  have e: "expo a = - int k" using False by (simp add: expo_def k_def)
  have "1 \<le> a * 2 ^ k"
  proof (cases "k < 1022")
    case True
    then show ?thesis using doublings_bracket [of a 1022] pos False by (simp add: k_def)
  next
    case False
    then have "k = 1022" using doublings_le [of 1022 a] by (simp add: k_def)
    moreover have "1 \<le> a * 2 ^ 1022"
      using low by (simp add: power_int_def inverse_eq_divide power_one_over field_simps)
    ultimately show ?thesis by simp
  qed
  then have "1 / 2 ^ k \<le> a" by (simp add: field_simps)
  moreover have "(2::real) powi expo a = 1 / 2 ^ k"
    by (simp add: e power_int_def inverse_eq_divide power_one_over)
  ultimately show ?thesis by simp
qed

lemma expo_subnormal: "0 < a \<Longrightarrow> a < 2 powi (- 1022) \<Longrightarrow> expo a = - 1022"
proof -
  assume pos: "0 < a" and small: "a < 2 powi (- 1022)"
  have lt1: "a < 1"
  proof -
    have "(2::real) powi (- 1022) \<le> 1"
      by (simp add: power_int_def inverse_eq_divide power_one_over field_simps)
    then show ?thesis using small by simp
  qed
  define k where "k = doublings 1022 a"
  have "\<not> k < 1022"
  proof
    assume "k < 1022"
    then have 1: "1 \<le> a * 2 ^ k" using doublings_bracket [of a 1022] pos lt1 by (simp add: k_def)
    have "a * 2 ^ 1022 < 1"
      using small by (simp add: power_int_def inverse_eq_divide power_one_over field_simps)
    moreover have "(2::real) ^ k \<le> 2 ^ 1022"
      using \<open>k < 1022\<close> by (intro power_increasing) simp_all
    then have "a * 2 ^ k \<le> a * 2 ^ 1022"
      using pos by (intro mult_left_mono) simp_all
    ultimately show False using 1 by simp
  qed
  then have "k = 1022" using doublings_le [of 1022 a] by (simp add: k_def)
  then show ?thesis using lt1 by (simp add: expo_def k_def)
qed

lemma expo_overflow: "expo a = 1024 \<Longrightarrow> 2 powi 1024 \<le> a"
proof -
  assume e: "expo a = 1024"
  have "1 \<le> a"
  proof (rule ccontr)
    assume "\<not> 1 \<le> a"
    then have "expo a \<le> 0" by (simp add: expo_def)
    then show False using e by simp
  qed
  then have "2 ^ halvings 1024 a \<le> a" using halvings_bracket [of a 1024] by blast
  moreover have "halvings 1024 a = 1024" using e \<open>1 \<le> a\<close> by (simp add: expo_def)
  ultimately show ?thesis by simp
qed


lemma pw_add: "(2::real) powi (a + b) = 2 powi a * 2 powi b"
  by (simp add: power_int_add)

lemma pw_pos: "0 < (2::real) powi a"
  by simp

lemma pw_mono: "a \<le> b \<Longrightarrow> (2::real) powi a \<le> 2 powi b"
  by (rule power_int_increasing) simp_all

lemma pw_split53: "(2::real) powi (e + 1) = 2 ^ 53 * 2 powi (e - 52)"
proof -
  have eq: "e + 1 = 53 + (e - 52)" by simp
  show ?thesis by (subst eq, subst pw_add) simp
qed

lemma pw_split52: "(2::real) powi e = 2 ^ 52 * 2 powi (e - 52)"
proof -
  have eq: "e = 52 + (e - 52)" by simp
  show ?thesis by (subst eq, subst pw_add) simp
qed

lemma pw_less_cancel: "(2::real) powi a < 2 powi b \<Longrightarrow> a < b"
proof (rule ccontr)
  assume lt: "(2::real) powi a < 2 powi b" and "\<not> a < b"
  then have "(2::real) powi b \<le> 2 powi a" by (intro pw_mono) simp
  then show False using lt by simp
qed


lemma expo_eq:
  assumes "2 powi e \<le> a" "a < 2 powi (e + 1)" "- 1022 \<le> e" "e \<le> 1023"
  shows "expo a = e"
proof -
  have pos: "0 < a" using pw_pos assms(1) by (rule less_le_trans)
  have low: "2 powi (- 1022) \<le> a" using pw_mono [OF assms(3)] assms(1) by (rule order_trans)
  have 1: "2 powi expo a \<le> a" using low by (rule expo_lower)
  then have "(2::real) powi expo a < 2 powi (e + 1)" using assms(2) by simp
  then have a: "expo a < e + 1" by (rule pw_less_cancel)
  then have "expo a < 1024" using assms(4) by simp
  then have "a < 2 powi (expo a + 1)" using pos by (intro expo_upper)
  then have "(2::real) powi e < 2 powi (expo a + 1)" using assms(1) by simp
  then have "e < expo a + 1" by (rule pw_less_cancel)
  then show ?thesis using a by simp
qed

lemma ulp_pos: "0 < ulp a"
  by (simp add: ulp_def)

lemma rhe_of_int: "rhe (of_int n) = n"
  by (simp add: rhe_def)

lemma rhe_ge: "of_int n \<le> q \<Longrightarrow> n \<le> rhe q"
proof -
  assume "of_int n \<le> q"
  then have "n \<le> \<lfloor>q\<rfloor>" by (simp add: le_floor_iff)
  moreover have "\<lfloor>q\<rfloor> \<le> rhe q" by (simp add: rhe_def Let_def)
  ultimately show ?thesis by simp
qed

lemma rhe_le: "q \<le> of_int n \<Longrightarrow> rhe q \<le> n"
proof (cases "q = of_int n")
  case True
  then show ?thesis by (simp add: rhe_of_int)
next
  case False
  assume "q \<le> of_int n"
  then have "q < of_int n" using False by simp
  then have "\<lfloor>q\<rfloor> < n" by (simp add: floor_less_iff)
  moreover have "rhe q \<le> \<lfloor>q\<rfloor> + 1" by (simp add: rhe_def Let_def)
  ultimately show ?thesis by simp
qed

lemma quotient_less:
  assumes "0 < a" "expo a < 1024"
  shows "a / ulp a < 2 ^ 53"
proof -
  have "a < 2 powi (expo a + 1)" using assms by (rule expo_upper)
  also have "(2::real) powi (expo a + 1) = 2 ^ 53 * 2 powi (expo a - 52)"
    by (rule pw_split53)
  finally have "a < 2 ^ 53 * ulp a" by (simp add: ulp_def)
  then show ?thesis using ulp_pos [of a] by (simp add: field_simps)
qed

lemma quotient_ge:
  assumes "2 powi (- 1022) \<le> a"
  shows "2 ^ 52 \<le> a / ulp a"
proof -
  have "(2::real) powi expo a = 2 ^ 52 * 2 powi (expo a - 52)"
    by (rule pw_split52)
  then have "2 ^ 52 * ulp a \<le> a" using expo_lower [OF assms] by (simp add: ulp_def)
  then show ?thesis using ulp_pos [of a] by (simp add: field_simps)
qed

lemma round_mag_nonneg: "0 \<le> a \<Longrightarrow> 0 \<le> round_mag a"
proof -
  assume "0 \<le> a"
  then have "of_int 0 \<le> a / ulp a" using ulp_pos [of a] by simp
  then have "0 \<le> rhe (a / ulp a)" by (rule rhe_ge)
  then show ?thesis using ulp_pos [of a] by (simp add: round_mag_def)
qed

lemma round_mag_le_pow:
  assumes "0 < a" "expo a < 1024"
  shows "round_mag a \<le> 2 powi (expo a + 1)"
proof -
  have "a / ulp a \<le> of_int (2 ^ 53)" using quotient_less [OF assms] by simp
  then have "rhe (a / ulp a) \<le> 2 ^ 53" by (rule rhe_le)
  then have "(of_int (rhe (a / ulp a)) :: real) \<le> of_int (2 ^ 53)" by (simp only: of_int_le_iff)
  then have "round_mag a \<le> 2 ^ 53 * ulp a"
    unfolding round_mag_def using ulp_pos [of a] by (intro mult_right_mono) simp_all
  also have "2 ^ 53 * ulp a = 2 powi (expo a + 1)"
    unfolding ulp_def by (rule pw_split53 [symmetric])
  finally show ?thesis .
qed

lemma round_mag_ge_pow:
  assumes "2 powi (- 1022) \<le> a"
  shows "2 powi expo a \<le> round_mag a"
proof -
  have "of_int (2 ^ 52) \<le> a / ulp a" using quotient_ge [OF assms] by simp
  then have "2 ^ 52 \<le> rhe (a / ulp a)" by (rule rhe_ge)
  then have "(of_int (2 ^ 52) :: real) \<le> of_int (rhe (a / ulp a))" by (simp only: of_int_le_iff)
  then have "2 ^ 52 * ulp a \<le> round_mag a"
    unfolding round_mag_def using ulp_pos [of a] by (intro mult_right_mono) simp_all
  moreover have "2 ^ 52 * ulp a = 2 powi expo a"
    unfolding ulp_def by (rule pw_split52 [symmetric])
  ultimately show ?thesis by simp
qed




lemma round_mag_overflow:
  assumes "2 powi 1024 \<le> a"
  shows "2 powi 1024 \<le> round_mag a"
proof -
  have pos: "0 < a" using assms pw_pos [of 1024] by simp
  have e: "expo a = 1024"
  proof (rule ccontr)
    assume "expo a \<noteq> 1024"
    then have lt: "expo a < 1024" using expo_range [of a] by simp
    then have "a < 2 powi (expo a + 1)" using pos by (intro expo_upper)
    moreover have "(2::real) powi (expo a + 1) \<le> 2 powi 1024" using lt by (intro pw_mono) simp
    ultimately show False using assms by simp
  qed
  have "(2::real) powi (- 1022) \<le> 2 powi 1024" by (intro pw_mono) simp
  then have "2 powi (- 1022) \<le> a" using assms by simp
  then have "2 powi expo a \<le> round_mag a" by (rule round_mag_ge_pow)
  then show ?thesis by (simp only: e)
qed


lemma expo_below_overflow: "a < 2 powi 1024 \<Longrightarrow> expo a < 1024"
proof (rule ccontr)
  assume lt: "a < 2 powi 1024" and "\<not> expo a < 1024"
  then have "expo a = 1024" using expo_range [of a] by simp
  then have "2 powi 1024 \<le> a" by (rule expo_overflow)
  then show False using lt by simp
qed

lemma quotient_unique: "0 < u \<Longrightarrow> x = c * u \<Longrightarrow> x / u = (c::real)"
  by simp

lemma round_mag_repr_lt:
  assumes a: "a = of_int m * 2 powi k" and m: "0 < m" "m < 2 ^ 53"
    and k: "- 1074 \<le> k" and fin: "a < 2 powi 1024"
  shows "round_mag a = a"
proof -
  have pos: "0 < a" using a m(1) by simp
  have ek: "expo a - 52 \<le> k"
  proof (cases "a < 2 powi (- 1022)")
    case True
    then have "expo a = - 1022" using pos by (intro expo_subnormal)
    then show ?thesis using k by simp
  next
    case False
    then have "2 powi expo a \<le> a" by (intro expo_lower) simp
    moreover have "a < 2 ^ 53 * 2 powi k"
    proof -
      have "(of_int m :: real) < of_int (2 ^ 53)" using m(2) by (simp only: of_int_less_iff)
      then have "of_int m * 2 powi k < of_int (2 ^ 53) * (2::real) powi k"
        by (intro mult_strict_right_mono) simp_all
      then show ?thesis using a by simp
    qed
    moreover have "2 ^ 53 * (2::real) powi k = 2 powi (k + 53)"
      using pw_split53 [of "k + 52"] by (simp add: add.commute)
    ultimately have "(2::real) powi expo a < 2 powi (k + 53)" by simp
    then have "expo a < k + 53" by (rule pw_less_cancel)
    then show ?thesis by simp
  qed
  define n where "n = nat (k - (expo a - 52))"
  have kn: "k = int n + (expo a - 52)" using ek by (simp add: n_def)
  have "(2::real) powi k = 2 powi (int n) * 2 powi (expo a - 52)"
    by (subst kn, rule pw_add)
  then have pk: "(2::real) powi k = 2 ^ n * ulp a" by (simp add: ulp_def)
  have "of_int m * (2::real) powi k = of_int m * (2 ^ n * ulp a)" by (simp only: pk)
  also have "\<dots> = of_int (m * 2 ^ n) * ulp a" by simp
  finally have a2: "a = of_int (m * 2 ^ n) * ulp a" unfolding a [symmetric] .
  have q: "a / ulp a = of_int (m * 2 ^ n)"
    using ulp_pos [of a] a2 by (rule quotient_unique)
  have "round_mag a = of_int (m * 2 ^ n) * ulp a"
    unfolding round_mag_def q rhe_of_int ..
  then show ?thesis using a2 by (rule trans [OF _ sym])
qed

lemma round_mag_repr:
  assumes a: "a = of_int m * 2 powi k" and m: "0 < m" "m \<le> 2 ^ 53"
    and k: "- 1074 \<le> k" and fin: "a < 2 powi 1024"
  shows "round_mag a = a"
proof (cases "m < 2 ^ 53")
  case True
  then show ?thesis using a m(1) k fin by (intro round_mag_repr_lt [of a m k])
next
  case False
  then have m53: "m = 2 ^ 53" using m(2) by simp
  have "(2::real) powi (k + 1) = 2 powi k * 2 powi 1" by (rule pw_add)
  then have "of_int (2 ^ 52) * (2::real) powi (k + 1) = of_int (2 ^ 53) * 2 powi k" by simp
  then have "a = of_int (2 ^ 52) * 2 powi (k + 1)" using a m53 by simp
  then show ?thesis using k fin by (intro round_mag_repr_lt [of a "2 ^ 52" "k + 1"]) simp_all
qed

lemma round_mag_zero: "round_mag 0 = 0"
  by (simp add: round_mag_def rhe_def)

lemma round_mag_idem:
  assumes "0 < a" "round_mag a < 2 powi 1024"
  shows "round_mag (round_mag a) = round_mag a"
proof (cases "rhe (a / ulp a) = 0")
  case True
  then have "round_mag a = 0" by (simp add: round_mag_def)
  then show ?thesis by (simp add: round_mag_zero)
next
  case False
  have "of_int 0 \<le> a / ulp a" using assms(1) ulp_pos [of a] by simp
  then have "0 \<le> rhe (a / ulp a)" by (rule rhe_ge)
  then have mpos: "0 < rhe (a / ulp a)" using False by simp
  have e: "expo a < 1024"
  proof (rule ccontr)
    assume "\<not> expo a < 1024"
    then have "expo a = 1024" using expo_range [of a] by simp
    then have "2 powi 1024 \<le> a" by (rule expo_overflow)
    then have "2 powi 1024 \<le> round_mag a" by (rule round_mag_overflow)
    then show False using assms(2) by simp
  qed
  have "a / ulp a \<le> of_int (2 ^ 53)" using quotient_less [OF assms(1) e] by simp
  then have m53: "rhe (a / ulp a) \<le> 2 ^ 53" by (rule rhe_le)
  have k: "- 1074 \<le> expo a - 52" using expo_range [of a] by simp
  have "round_mag a = of_int (rhe (a / ulp a)) * 2 powi (expo a - 52)"
    by (simp add: round_mag_def ulp_def)
  then show ?thesis using mpos m53 k assms(2) by (rule round_mag_repr)
qed

lemma fl_zero: "fl 0 = Num 0"
  by (simp add: fl_def)

lemma fl_cases: "(\<exists>y. fl x = Num y) \<or> fl x = PosInf \<or> fl x = NegInf"
  by (simp add: fl_def Let_def)

lemma fl_minus: "fl (- x) = js_neg (fl x)"
  by (simp add: fl_def Let_def)

lemma fl_pos: "0 < x \<Longrightarrow> fl x = (if 2 powi 1024 \<le> round_mag x then PosInf else Num (round_mag x))"
  by (simp add: fl_def Let_def)

lemma fl_fixed_pos: "0 < x \<Longrightarrow> fl x = Num x \<longleftrightarrow> round_mag x = x \<and> x < 2 powi 1024"
  by (auto simp add: fl_pos)

lemma fl_idem_pos:
  assumes "0 < x" "fl x = Num y"
  shows "fl y = Num y"
proof -
  have y: "y = round_mag x" and fin: "round_mag x < 2 powi 1024"
    using assms by (simp_all add: fl_pos split: if_splits)
  have idem: "round_mag y = y" unfolding y using assms(1) fin by (rule round_mag_idem)
  have "0 \<le> y" unfolding y using assms(1) by (intro round_mag_nonneg) simp
  show ?thesis
  proof (cases "y = 0")
    case True
    then show ?thesis by (simp add: fl_zero)
  next
    case False
    then have "0 < y" using \<open>0 \<le> y\<close> by simp
    then show ?thesis using idem fin y by (simp add: fl_fixed_pos)
  qed
qed

lemma fl_idem: "fl x = Num y \<Longrightarrow> fl y = Num y"
proof -
  assume f: "fl x = Num y"
  consider "x = 0" | "0 < x" | "x < 0" by linarith
  then show ?thesis
  proof cases
    case 1
    then show ?thesis using f by (simp add: fl_zero)
  next
    case 2
    then show ?thesis using f by (rule fl_idem_pos)
  next
    case 3
    have "fl (- x) = Num (- y)" using f by (simp add: fl_minus)
    then have "fl (- y) = Num (- y)" using 3 by (intro fl_idem_pos [of "- x"]) simp_all
    then have "js_neg (fl y) = Num (- y)" by (simp add: fl_minus)
    then show ?thesis by (cases "fl y") simp_all
  qed
qed

lemma fl_repr:
  assumes x: "x = of_int m * 2 powi k" and m: "\<bar>m\<bar> \<le> 2 ^ 53"
    and k: "- 1074 \<le> k" and fin: "\<bar>x\<bar> < 2 powi 1024"
  shows "fl x = Num x"
proof -
  consider "m = 0" | "0 < m" | "m < 0" by linarith
  then show ?thesis
  proof cases
    case 1
    then show ?thesis using x by (simp add: fl_zero)
  next
    case 2
    then have pos: "0 < x" using x by simp
    have "round_mag x = x" using x 2 m k fin pos by (intro round_mag_repr [of x m k]) simp_all
    then show ?thesis using pos fin by (simp add: fl_fixed_pos)
  next
    case 3
    then have neg: "x < 0" using x by (simp add: mult_neg_pos)
    have "- x = of_int (- m) * 2 powi k" using x by simp
    then have "round_mag (- x) = - x" using 3 m k fin neg
      by (intro round_mag_repr [of "- x" "- m" k]) simp_all
    then have "fl (- x) = Num (- x)" using neg fin by (simp add: fl_fixed_pos)
    then have "js_neg (fl x) = Num (- x)" by (simp add: fl_minus)
    then show ?thesis by (cases "fl x") simp_all
  qed
qed

lemma fl_of_int: "\<bar>m\<bar> \<le> 2 ^ 53 \<Longrightarrow> fl (of_int m) = Num (of_int m)"
proof -
  assume m: "\<bar>m\<bar> \<le> 2 ^ 53"
  have "\<bar>of_int m :: real\<bar> \<le> of_int (2 ^ 53)"
    using m by (simp only: of_int_abs [symmetric] of_int_le_iff)
  moreover have "(of_int (2 ^ 53) :: real) < 2 powi 1024" by simp
  ultimately have "\<bar>of_int m :: real\<bar> < 2 powi 1024" by (rule le_less_trans)
  then show ?thesis using m by (intro fl_repr [of _ m 0]) simp_all
qed

lemma fl_overflow: "2 powi 1024 \<le> x \<Longrightarrow> fl x = PosInf"
proof -
  assume x: "2 powi 1024 \<le> x"
  have "0 < x" using pw_pos x by (rule less_le_trans)
  then show ?thesis using round_mag_overflow [OF x] by (simp add: fl_pos)
qed








lemma fl_eval:
  assumes "2 powi e \<le> \<bar>x\<bar>" "\<bar>x\<bar> < 2 powi (e + 1)" "- 1022 \<le> e" "e \<le> 1022"
    and "rhe (\<bar>x\<bar> / 2 powi (e - 52)) = m"
  shows "fl x = Num (sgn x * (of_int m * 2 powi (e - 52)))"
proof -
  have e: "expo \<bar>x\<bar> = e" using assms(1-4) by (intro expo_eq) simp_all
  have pos: "0 < \<bar>x\<bar>" using pw_pos assms(1) by (rule less_le_trans)
  have rm: "round_mag \<bar>x\<bar> = of_int m * 2 powi (e - 52)"
    by (simp add: round_mag_def ulp_def e assms(5))
  have "round_mag \<bar>x\<bar> \<le> 2 powi (expo \<bar>x\<bar> + 1)"
    using pos assms(4) by (intro round_mag_le_pow) (simp_all add: e)
  also have "(2::real) powi (expo \<bar>x\<bar> + 1) \<le> 2 powi 1023"
    unfolding e using assms(4) by (intro pw_mono) simp
  also have "(2::real) powi 1023 < 2 powi 1024" by (intro power_int_strict_increasing) simp_all
  finally have fin: "\<not> 2 powi 1024 \<le> round_mag \<bar>x\<bar>" by simp
  have "x \<noteq> 0" using pos by simp
  then show ?thesis using fin rm by (simp add: fl_def Let_def sgn_if)
qed

lemma fl_numeral: "(numeral w :: int) \<le> 9007199254740992 \<Longrightarrow> fl (numeral w) = Num (numeral w)"
  using fl_of_int [of "numeral w"] by simp

lemma fl_neg_numeral:
  "(numeral w :: int) \<le> 9007199254740992 \<Longrightarrow> fl (- numeral w) = Num (- numeral w)"
  using fl_of_int [of "- numeral w"] by simp

lemma fl_one: "fl 1 = Num 1"
  using fl_of_int [of 1] by simp

lemma fl_neg_one: "fl (- 1) = Num (- 1)"
  using fl_of_int [of "- 1"] by simp

lemma fl_half: "fl (1 / 2) = Num (1 / 2)"
  by (rule fl_repr [of _ 1 "- 1"]) simp_all

lemmas fl_small = fl_zero fl_one fl_neg_one fl_half fl_numeral fl_neg_numeral

lemmas js_arith = js_add_def js_sub_def js_mul_def

lemma js_add_Num: "js_add (Num a) (Num b) = fl (a + b)"
  by (simp add: js_add_def)

lemma js_sub_Num: "js_sub (Num a) (Num b) = fl (a - b)"
  by (simp add: js_sub_def)


lemma js_add_int:
  assumes "\<bar>a + b\<bar> \<le> 2 ^ 53"
  shows "js_add (Num (of_int a)) (Num (of_int b)) = Num (of_int (a + b))"
  using fl_of_int [OF assms] by (simp add: js_add_Num)

lemma js_sub_int:
  assumes "\<bar>a - b\<bar> \<le> 2 ^ 53"
  shows "js_sub (Num (of_int a)) (Num (of_int b)) = Num (of_int (a - b))"
  using fl_of_int [OF assms] by (simp add: js_sub_Num)

lemma unit_rangeD: "unit_range rnd \<Longrightarrow> 0 \<le> rnd k \<and> rnd k < 1"
  by (simp add: unit_range_def)

lemma floor_index_in_range:
  assumes "0 \<le> r" "r < 1" "0 < n"
  shows "0 \<le> \<lfloor>r * real n\<rfloor> \<and> \<lfloor>r * real n\<rfloor> < int n"
proof -
  have "0 \<le> r * real n" using assms by simp
  moreover have "r * real n < real n" using assms by simp
  ultimately show ?thesis by (simp add: floor_less_iff)
qed

lemma js_nth_in_range:
  "0 \<le> i \<Longrightarrow> i < int (length xs) \<Longrightarrow> js_nth xs i = xs ! nat i"
  by (simp add: js_nth_def)

subsection \<open>Distribution sampler\<close>





lemma choice_member:
  assumes "0 \<le> r" "r < 1" "ps \<noteq> []"
  shows "\<exists>x \<in> set ps. js_nth (map Num ps) \<lfloor>r * real (length ps)\<rfloor> = Num x"
proof -
  let ?i = "\<lfloor>r * real (length ps)\<rfloor>"
  have rng: "0 \<le> ?i \<and> ?i < int (length ps)"
    using floor_index_in_range [of r "length ps"] assms by simp
  then have "nat ?i < length ps" by linarith
  then have "ps ! nat ?i \<in> set ps" by simp
  moreover have "js_nth (map Num ps) ?i = Num (ps ! nat ?i)"
    using rng \<open>nat ?i < length ps\<close> by (simp add: js_nth_def)
  ultimately show ?thesis by blast
qed




subsection \<open>Direction assigner\<close>

text \<open>
  Claim C10. In a single-task call, a congruency label that is none of
  \<open>congruent\<close>, \<open>incongruent\<close>, \<open>neutral\<close>, \<open>univalent\<close> is accepted silently: the
  function (which has no failing branch) returns the distractor direction 0, a
  primary direction of 0 or 180 and a zeroed channel 2, exactly the result for
  \<open>univalent\<close>.
\<close>

theorem assignDirections_unrecognized_congruency:
  assumes "congruency \<notin> {''congruent'', ''incongruent'', ''neutral'', ''univalent''}"
  shows "ch1_distractor (fst (assignDirections task (Str congruency) ''single-task'' rs rnd k)) = Num 0
       \<and> ch1_task (fst (assignDirections task (Str congruency) ''single-task'' rs rnd k)) \<in> {Num 0, Num 180}
       \<and> ch2_task (fst (assignDirections task (Str congruency) ''single-task'' rs rnd k)) = Num 0
       \<and> ch2_distractor (fst (assignDirections task (Str congruency) ''single-task'' rs rnd k)) = Num 0
       \<and> assignDirections task (Str congruency) ''single-task'' rs rnd k
           = assignDirections task (Str ''univalent'') ''single-task'' rs rnd k"
  using assms by (simp add: assignDirections_def Let_def)

theorem assignDirections_unrecognized_congruency_witness:
  "''bivalent'' \<notin> {''congruent'', ''incongruent'', ''neutral'', ''univalent''}
   \<and> assignDirections (Str ''mov'') (Str ''bivalent'') ''single-task'' ''identical'' (\<lambda>_. 1 / 2) 0
       = (\<lparr>ch1_task = Num 180, ch1_distractor = Num 0, ch2_task = Num 0, ch2_distractor = Num 0\<rparr>, 1)"
proof -
  have h: "''bivalent'' \<notin> {''congruent'', ''incongruent'', ''neutral'', ''univalent''}" by simp
  show ?thesis
    using h assignDirections_unrecognized_congruency [OF h, of "Str ''mov''" "''identical''" "\<lambda>_. 1 / 2" 0]
    by (simp add: assignDirections_def Let_def)
qed

subsection \<open>Task sequence generator\<close>

lemma fold_aabb_step_length:
  "length (fold aabb_step xs s) = length s + length xs"
  by (induction xs arbitrary: s) (simp_all add: aabb_step_def)

lemma fold_random_step_length:
  "length (fst (fold (random_step sr rnd) xs st)) = length (fst st) + length xs"
  by (induction xs arbitrary: st) (simp_all add: random_step_def Let_def)

text \<open>
  Claim C6. The documented length of the task sequence is \<open>numTrials\<close>. The code
  starts the sequence with the first task before looking at \<open>numTrials\<close>, so the
  length is \<open>max 1 numTrials\<close>, for both sequence types and every random outcome:
  \<open>numTrials\<close> from one trial on, but one element for \<open>numTrials = 0\<close>.
\<close>

theorem generateTaskSequence_zero_trials:
  "(\<exists>sequence k'. generateTaskSequence n ''AABB'' sr st rnd k = Inr (sequence, k')
       \<and> length sequence = max 1 n)
   \<and> (\<exists>sequence k'. generateTaskSequence n ''Random'' sr st rnd k = Inr (sequence, k')
       \<and> length sequence = max 1 n)
   \<and> generateTaskSequence 0 ''AABB'' 0 (Str ''mov'') rnd k = Inr ([Str ''mov''], k)
   \<and> generateTaskSequence 0 ''Random'' 0 (Str ''mov'') rnd k = Inr ([Str ''mov''], k)"
proof -
  define first where "first = (if st = Undefined \<or> st = Null
                   then (if rnd k < 1 / 2 then Str ''mov'' else Str ''or'', Suc k)
                   else (st, k))"
  define r where "r = fold (random_step sr rnd) [1..<n] ([fst first], snd first)"
  have len: "Suc (n - Suc 0) = max 1 n" by (cases n) simp_all
  have a: "generateTaskSequence n ''AABB'' sr st rnd k
             = Inr (fold aabb_step [1..<n] [fst first], snd first)"
    by (simp add: generateTaskSequence_def Let_def first_def)
  have "length (fold aabb_step [1..<n] [fst first]) = max 1 n"
    using len by (simp add: fold_aabb_step_length)
  with a have 1: "\<exists>sequence k'. generateTaskSequence n ''AABB'' sr st rnd k = Inr (sequence, k')
       \<and> length sequence = max 1 n"
    by blast
  have b: "generateTaskSequence n ''Random'' sr st rnd k = Inr (fst r, snd r)"
    by (simp add: generateTaskSequence_def Let_def first_def r_def)
  have "length (fst r) = max 1 n"
    unfolding r_def using len by (simp add: fold_random_step_length)
  with b have 2: "\<exists>sequence k'. generateTaskSequence n ''Random'' sr st rnd k
         = Inr (sequence, k') \<and> length sequence = max 1 n"
    by blast
  have 3: "generateTaskSequence 0 ''AABB'' 0 (Str ''mov'') rnd k = Inr ([Str ''mov''], k)"
    and 4: "generateTaskSequence 0 ''Random'' 0 (Str ''mov'') rnd k = Inr ([Str ''mov''], k)"
    by (simp_all add: generateTaskSequence_def Let_def)
  from 1 2 3 4 show ?thesis by blast
qed

lemma switchTask_involution:
  "t \<in> {Str ''mov'', Str ''or''} \<Longrightarrow> switchTask (switchTask t) = t"
  by (auto simp: switchTask_def)

lemma aabb_pattern_Suc:
  assumes "t \<in> {Str ''mov'', Str ''or''}"
  shows "(if Suc m mod 2 = 0 then switchTask (aabb_pattern t m) else aabb_pattern t m) = aabb_pattern t (Suc m)"
proof (cases "even m")
  case True
  then have "Suc m div 2 = m div 2" by presburger
  moreover have "Suc m mod 2 \<noteq> 0" using True by presburger
  ultimately show ?thesis by (simp add: aabb_pattern_def)
next
  case False
  then have d: "Suc m div 2 = Suc (m div 2)" by presburger
  have z: "Suc m mod 2 = 0" using False by presburger
  show ?thesis
    using assms unfolding aabb_pattern_def d z
    by (auto simp: switchTask_def)
qed

lemma aabb_fold:
  assumes "t \<in> {Str ''mov'', Str ''or''}"
  shows "fold aabb_step [1..<Suc m] [t] = map (aabb_pattern t) [0..<Suc m]"
proof (induction m)
  case 0
  show ?case by (simp add: aabb_pattern_def)
next
  case (Suc m)
  have nth: "js_nth (map (aabb_pattern t) [0..<Suc m]) (int (Suc m) - 1) = aabb_pattern t m"
  proof -
    have "map (aabb_pattern t) [0..<Suc m] ! m = aabb_pattern t ([0..<Suc m] ! m)"
      by (rule nth_map) simp
    also have "[0..<Suc m] ! m = m" using nth_upt [of 0 m "Suc m"] by simp
    finally show ?thesis by (simp add: js_nth_def)
  qed
  have "fold aabb_step [1..<Suc (Suc m)] [t] = aabb_step (Suc m) (fold aabb_step [1..<Suc m] [t])"
    by simp
  also have "\<dots> = aabb_step (Suc m) (map (aabb_pattern t) [0..<Suc m])"
    by (simp only: Suc.IH)
  also have "\<dots> = map (aabb_pattern t) [0..<Suc m]
                    @ [if Suc m mod 2 = 0 then switchTask (aabb_pattern t m) else aabb_pattern t m]"
    unfolding aabb_step_def nth by simp
  also have "\<dots> = map (aabb_pattern t) [0..<Suc m] @ [aabb_pattern t (Suc m)]"
    by (simp only: aabb_pattern_Suc [OF assms])
  also have "\<dots> = map (aabb_pattern t) [0..<Suc (Suc m)]" by simp
  finally show ?case .
qed

text \<open>
  Claim C9. For at least one trial and a start task that is \<open>mov\<close>, \<open>or\<close> or absent,
  the \<open>AABB\<close> sequence is the run-length-2 pattern anchored at its first element:
  position \<open>i\<close> holds the first task when \<open>\<lfloor>i / 2\<rfloor>\<close> is even and the other task
  when it is odd. The first element is the start task when one is given (and
  then nothing is drawn); otherwise one coin flip chooses it, and nothing is
  drawn after it. With start task \<open>mov\<close> over 8 trials the output is
  \<open>mov, mov, or, or, mov, mov, or, or\<close>.
\<close>

theorem generateTaskSequence_AABB_pattern:
  assumes "1 \<le> n" and "st \<in> {Str ''mov'', Str ''or'', Null, Undefined}"
  shows "(\<exists>first.
           first \<in> {Str ''mov'', Str ''or''}
         \<and> (st \<in> {Str ''mov'', Str ''or''} \<longrightarrow> first = st)
         \<and> generateTaskSequence n ''AABB'' sr st rnd k
             = Inr (map (\<lambda>i. if even (i div 2) then first else switchTask first) [0..<n],
                    if st \<in> {Str ''mov'', Str ''or''} then k else Suc k))
       \<and> generateTaskSequence 8 ''AABB'' sr (Str ''mov'') rnd k
           = Inr ([Str ''mov'', Str ''mov'', Str ''or'', Str ''or'',
                   Str ''mov'', Str ''mov'', Str ''or'', Str ''or''], k)"
proof (rule conjI)
  obtain m where n: "n = Suc m" using assms(1) by (cases n) auto
  define first where "first = (if st \<in> {Str ''mov'', Str ''or''} then st
                               else if rnd k < 1 / 2 then Str ''mov'' else Str ''or'')"
  have f: "first \<in> {Str ''mov'', Str ''or''}" by (auto simp: first_def)
  have g: "generateTaskSequence n ''AABB'' sr st rnd k
             = Inr (fold aabb_step [1..<n] [first],
                    if st \<in> {Str ''mov'', Str ''or''} then k else Suc k)"
    using assms(2) by (auto simp: generateTaskSequence_def Let_def first_def)
  have "fold aabb_step [1..<n] [first] = map (aabb_pattern first) [0..<n]"
    unfolding n by (rule aabb_fold [OF f])
  also have "\<dots> = map (\<lambda>i. if even (i div 2) then first else switchTask first) [0..<n]"
    by (simp add: aabb_pattern_def)
  finally have "generateTaskSequence n ''AABB'' sr st rnd k
             = Inr (map (\<lambda>i. if even (i div 2) then first else switchTask first) [0..<n],
                    if st \<in> {Str ''mov'', Str ''or''} then k else Suc k)"
    using g by simp
  moreover have "st \<in> {Str ''mov'', Str ''or''} \<longrightarrow> first = st" by (simp add: first_def)
  ultimately show "\<exists>first.
           first \<in> {Str ''mov'', Str ''or''}
         \<and> (st \<in> {Str ''mov'', Str ''or''} \<longrightarrow> first = st)
         \<and> generateTaskSequence n ''AABB'' sr st rnd k
             = Inr (map (\<lambda>i. if even (i div 2) then first else switchTask first) [0..<n],
                    if st \<in> {Str ''mov'', Str ''or''} then k else Suc k)"
    using f by blast
next
  have "fold aabb_step [1..<Suc 7] [Str ''mov''] = map (aabb_pattern (Str ''mov'')) [0..<Suc 7]"
    by (rule aabb_fold) simp
  also have "[0..<Suc 7] = [0,1,2,3,4,5,6,7]" by (simp add: upt_rec)
  finally have "fold aabb_step [1..<8] [Str ''mov'']
      = [Str ''mov'', Str ''mov'', Str ''or'', Str ''or'',
         Str ''mov'', Str ''mov'', Str ''or'', Str ''or'']"
    by (simp add: aabb_pattern_def switchTask_def)
  then show "generateTaskSequence 8 ''AABB'' sr (Str ''mov'') rnd k
           = Inr ([Str ''mov'', Str ''mov'', Str ''or'', Str ''or'',
                   Str ''mov'', Str ''mov'', Str ''or'', Str ''or''], k)"
    by (simp add: generateTaskSequence_def Let_def)
qed

theorem generateTaskSequence_AABB_pattern_witness:
  "(1::nat) \<le> 6 \<and> Null \<in> {Str ''mov'', Str ''or'', Null, Undefined}
   \<and> generateTaskSequence 6 ''AABB'' 0 Null (\<lambda>_. 1 / 2) 0
       = Inr ([Str ''or'', Str ''or'', Str ''mov'', Str ''mov'', Str ''or'', Str ''or''], 1)"
proof -
  have h1: "(1::nat) \<le> 6" by simp
  have h2: "Null \<in> {Str ''mov'', Str ''or'', Null, Undefined}" by simp
  have u: "[0..<6] = [0, 1, 2, 3, 4, 5]" by (simp add: upt_rec)
  have "\<exists>first. first \<in> {Str ''mov'', Str ''or''}
          \<and> generateTaskSequence 6 ''AABB'' 0 Null (\<lambda>_. 1 / 2) 0
             = Inr (map (\<lambda>i. if even (i div 2) then first else switchTask first) [0..<6], 1)"
    using generateTaskSequence_AABB_pattern [OF h1 h2, of 0 "\<lambda>_. 1 / 2" 0] by simp
  then obtain first where f: "first \<in> {Str ''mov'', Str ''or''}"
    and g: "generateTaskSequence 6 ''AABB'' 0 Null (\<lambda>_. 1 / 2) 0
             = Inr (map (\<lambda>i. if even (i div 2) then first else switchTask first) [0..<6], 1)"
    by blast
  have "generateTaskSequence 6 ''AABB'' 0 Null (\<lambda>_. 1 / 2) 0
          = Inr (fold aabb_step [1..<6] [Str ''or''], 1)"
    by (simp add: generateTaskSequence_def Let_def)
  with g have "hd (map (\<lambda>i. if even (i div 2) then first else switchTask first) [0..<6])
                 = hd (fold aabb_step [1..<6] [Str ''or''])"
    by simp
  also have "[1..<6] = [1, 2, 3, 4, 5::nat]" by (simp add: upt_rec)
  finally have "first = Str ''or''"
    unfolding u by (simp add: aabb_step_def js_nth_def)
  with g show ?thesis
    unfolding u by (simp add: switchTask_def)
qed


subsection \<open>Parameter builder: reading fields through the phases\<close>

lemma fl_08: "fl (4 / 5) = Num (3602879701896397 / 4503599627370496)"
  by (rule trans [OF fl_eval [of "- 1" _ 7205759403792794]]) (simp_all add: rhe_def Let_def)

lemma fl_06: "fl (3 / 5) = Num (5404319552844595 / 9007199254740992)"
  by (rule trans [OF fl_eval [of "- 1" _ 5404319552844595]]) (simp_all add: rhe_def Let_def)

lemmas js_eval = js_arith fl_small fl_08 fl_06

lemma obj_get_obj_set:
  "obj_get (obj_set ob k v) k' = (if k' = k then v else obj_get ob k')"
  by (induction ob) (auto simp: obj_get_def)

lemma obj_get_silence_pathway:
  "obj_get (silence_pathway p c s d) k =
     (if obj_get p c = Num 0 \<and> (k = s \<or> k = d) then Num 0 else obj_get p k)"
  by (simp add: silence_pathway_def obj_get_obj_set strict_eq_def)

lemma obj_get_silence_other:
  assumes "k \<notin> {''start_mov_1'', ''dur_mov_1'', ''start_or_1'', ''dur_or_1'',
                 ''start_mov_2'', ''dur_mov_2'', ''start_or_2'', ''dur_or_2''}"
  shows "obj_get (silence p) k = obj_get p k"
  using assms by (simp add: silence_def obj_get_silence_pathway)

lemma obj_get_silence_coh:
  "obj_get (silence p) ''coh_mov_1'' = obj_get p ''coh_mov_1''"
  "obj_get (silence p) ''coh_or_1'' = obj_get p ''coh_or_1''"
  "obj_get (silence p) ''coh_mov_2'' = obj_get p ''coh_mov_2''"
  "obj_get (silence p) ''coh_or_2'' = obj_get p ''coh_or_2''"
  by (simp_all add: obj_get_silence_other)

lemma obj_get_silence_mov_1:
  "obj_get (silence p) ''start_mov_1''
     = (if obj_get p ''coh_mov_1'' = Num 0 then Num 0 else obj_get p ''start_mov_1'')"
  "obj_get (silence p) ''dur_mov_1''
     = (if obj_get p ''coh_mov_1'' = Num 0 then Num 0 else obj_get p ''dur_mov_1'')"
  by (simp_all add: silence_def obj_get_silence_pathway)

lemma obj_get_silence_or_1:
  "obj_get (silence p) ''start_or_1''
     = (if obj_get p ''coh_or_1'' = Num 0 then Num 0 else obj_get p ''start_or_1'')"
  "obj_get (silence p) ''dur_or_1''
     = (if obj_get p ''coh_or_1'' = Num 0 then Num 0 else obj_get p ''dur_or_1'')"
  by (simp_all add: silence_def obj_get_silence_pathway)

lemma obj_get_silence_mov_2:
  "obj_get (silence p) ''start_mov_2''
     = (if obj_get p ''coh_mov_2'' = Num 0 then Num 0 else obj_get p ''start_mov_2'')"
  "obj_get (silence p) ''dur_mov_2''
     = (if obj_get p ''coh_mov_2'' = Num 0 then Num 0 else obj_get p ''dur_mov_2'')"
  by (simp_all add: silence_def obj_get_silence_pathway)

lemma obj_get_silence_or_2:
  "obj_get (silence p) ''start_or_2''
     = (if obj_get p ''coh_or_2'' = Num 0 then Num 0 else obj_get p ''start_or_2'')"
  "obj_get (silence p) ''dur_or_2''
     = (if obj_get p ''coh_or_2'' = Num 0 then Num 0 else obj_get p ''dur_or_2'')"
  by (simp_all add: silence_def obj_get_silence_pathway)

lemma obj_get_recompute_other:
  assumes "k \<noteq> ''start_mov_2''" "k \<noteq> ''start_or_2''"
  shows "obj_get (recompute_offsets spec p) k = obj_get p k"
  using assms by (simp add: recompute_offsets_def Let_def obj_get_obj_set)

lemma obj_get_recompute_mov_2:
  "obj_get (recompute_offsets spec p) ''start_mov_2''
     = (if task2 spec \<noteq> Null \<and> js_gt0 (obj_get p ''dur_mov_2'')
        then js_sub (js_add (csi spec) (soa spec))
               (js_add (obj_get p ''start_mov_1'') (obj_get p ''dur_mov_1''))
        else obj_get p ''start_mov_2'')"
  by (simp add: recompute_offsets_def Let_def obj_get_obj_set)

lemma obj_get_recompute_or_2:
  "obj_get (recompute_offsets spec p) ''start_or_2''
     = (if task2 spec \<noteq> Null \<and> js_gt0 (obj_get p ''dur_or_2'')
        then js_sub (js_add (csi spec) (soa spec))
               (js_add (obj_get p ''start_or_1'') (obj_get p ''dur_or_1''))
        else obj_get p ''start_or_2'')"
  by (simp add: recompute_offsets_def Let_def obj_get_obj_set)

lemma buildTrialParams_phases:
  assumes "buildTrialParams spec = Inr params"
  obtains coh dr where
    "buildCoherenceParams spec = Inr coh" "buildDirectionParams spec = Inr dr"
    "params = recompute_offsets spec (silence
                 (spread (spread (spread
                    [(''task_1'', task1 spec), (''task_2'', task2 spec)]
                    (buildTimingParams spec)) coh) dr))"
  using assms by (auto simp: buildTrialParams_def split: sum.splits)

lemma obj_get_assign_all_other:
  "k \<notin> fst ` set kvs \<Longrightarrow> obj_get (assign_all ob kvs) k = obj_get ob k"
proof (induction kvs arbitrary: ob)
  case Nil
  show ?case by (simp add: assign_all_def)
next
  case (Cons kv kvs)
  have "assign_all ob (kv # kvs) = assign_all (obj_set ob (fst kv) (snd kv)) kvs"
    by (simp add: assign_all_def)
  then show ?case using Cons by (simp add: obj_get_obj_set)
qed

lemma buildCoherenceParams_keys:
  assumes "buildCoherenceParams spec = Inr coh"
  shows "fst ` set coh \<subseteq> {''coh_mov_1'', ''coh_or_1'', ''coh_mov_2'', ''coh_or_2''}"
  using assms
  by (auto simp: buildCoherenceParams_def assign_all_def split: if_splits option.splits)

lemma buildDirectionParams_keys:
  assumes "buildDirectionParams spec = Inr dr"
  shows "fst ` set dr \<subseteq> {''dir_mov_1'', ''dir_or_1'', ''dir_mov_2'', ''dir_or_2''}"
  using assms
  by (auto simp: buildDirectionParams_def assign_all_def split: if_splits option.splits)

lemma buildCoherenceParams_single:
  assumes "buildCoherenceParams spec = Inr coh" "task2 spec = Null"
  shows "obj_get (spread ob coh) ''coh_mov_2'' = Num 0"
    and "obj_get (spread ob coh) ''coh_or_2'' = Num 0"
  using assms
  by (auto simp: buildCoherenceParams_def assign_all_def spread_def obj_get_obj_set
           split: if_splits option.splits)

lemma timing_channel_1:
  "obj_get (spread [(''task_1'', t1), (''task_2'', t2)] (buildTimingParams spec)) ''start_mov_1''
     = csi spec"
  "obj_get (spread [(''task_1'', t1), (''task_2'', t2)] (buildTimingParams spec)) ''dur_mov_1''
     = dur_ch1 spec"
  "obj_get (spread [(''task_1'', t1), (''task_2'', t2)] (buildTimingParams spec)) ''start_or_1''
     = csi spec"
  "obj_get (spread [(''task_1'', t1), (''task_2'', t2)] (buildTimingParams spec)) ''dur_or_1''
     = dur_ch1 spec"
  by (simp_all add: spread_def buildTimingParams_def assign_all_def obj_get_def Let_def)

lemma timing_channel_2:
  "obj_get (spread [(''task_1'', t1), (''task_2'', t2)] (buildTimingParams spec)) ''start_mov_2''
     = (if task2 spec \<noteq> Null then js_sub (soa spec) (dur_ch1 spec) else Num 0)"
  "obj_get (spread [(''task_1'', t1), (''task_2'', t2)] (buildTimingParams spec)) ''dur_mov_2''
     = (if task2 spec \<noteq> Null then dur_ch2 spec else Num 0)"
  "obj_get (spread [(''task_1'', t1), (''task_2'', t2)] (buildTimingParams spec)) ''start_or_2''
     = (if task2 spec \<noteq> Null then js_sub (soa spec) (dur_ch1 spec) else Num 0)"
  "obj_get (spread [(''task_1'', t1), (''task_2'', t2)] (buildTimingParams spec)) ''dur_or_2''
     = (if task2 spec \<noteq> Null then dur_ch2 spec else Num 0)"
  by (simp_all add: spread_def buildTimingParams_def assign_all_def obj_get_def Let_def)

lemma literal_timing:
  assumes "buildCoherenceParams spec = Inr coh" "buildDirectionParams spec = Inr dr"
    and "k \<notin> {''coh_mov_1'', ''coh_or_1'', ''coh_mov_2'', ''coh_or_2''}"
    and "k \<notin> {''dir_mov_1'', ''dir_or_1'', ''dir_mov_2'', ''dir_or_2''}"
  shows "obj_get (spread (spread (spread [(''task_1'', task1 spec), (''task_2'', task2 spec)]
                    (buildTimingParams spec)) coh) dr) k
         = obj_get (spread [(''task_1'', task1 spec), (''task_2'', task2 spec)]
                      (buildTimingParams spec)) k"
proof -
  have "k \<notin> fst ` set coh" using assms(3) buildCoherenceParams_keys [OF assms(1)] by blast
  moreover have "k \<notin> fst ` set dr" using assms(4) buildDirectionParams_keys [OF assms(2)] by blast
  ultimately show ?thesis
    unfolding spread_def [of _ dr] spread_def [of _ coh]
    by (simp add: obj_get_assign_all_other)
qed

lemma literal_coherence_single:
  assumes "buildCoherenceParams spec = Inr coh" "buildDirectionParams spec = Inr dr"
    and "task2 spec = Null"
  shows "obj_get (spread (spread ob coh) dr) ''coh_mov_2'' = Num 0"
    and "obj_get (spread (spread ob coh) dr) ''coh_or_2'' = Num 0"
proof -
  have "''coh_mov_2'' \<notin> fst ` set dr" "''coh_or_2'' \<notin> fst ` set dr"
    using buildDirectionParams_keys [OF assms(2)] by auto
  then show "obj_get (spread (spread ob coh) dr) ''coh_mov_2'' = Num 0"
    and "obj_get (spread (spread ob coh) dr) ''coh_or_2'' = Num 0"
    unfolding spread_def [of _ dr]
    by (simp_all add: obj_get_assign_all_other buildCoherenceParams_single [OF assms(1,3)])
qed

text \<open>
  The eight pathway fields of the returned record, from the routed coherence
  fields and the spec.
\<close>

lemma pathway_fields:
  assumes "buildTrialParams spec = Inr params"
  shows "obj_get params ''start_mov_1''
           = (if obj_get params ''coh_mov_1'' = Num 0 then Num 0 else csi spec)"
    and "obj_get params ''dur_mov_1''
           = (if obj_get params ''coh_mov_1'' = Num 0 then Num 0 else dur_ch1 spec)"
    and "obj_get params ''start_or_1''
           = (if obj_get params ''coh_or_1'' = Num 0 then Num 0 else csi spec)"
    and "obj_get params ''dur_or_1''
           = (if obj_get params ''coh_or_1'' = Num 0 then Num 0 else dur_ch1 spec)"
    and "obj_get params ''dur_mov_2''
           = (if obj_get params ''coh_mov_2'' = Num 0 \<or> task2 spec = Null then Num 0
              else dur_ch2 spec)"
    and "obj_get params ''start_mov_2''
           = (if obj_get params ''coh_mov_2'' = Num 0 \<or> task2 spec = Null then Num 0
              else if js_gt0 (dur_ch2 spec)
              then js_sub (js_add (csi spec) (soa spec))
                     (js_add (obj_get params ''start_mov_1'') (obj_get params ''dur_mov_1''))
              else js_sub (soa spec) (dur_ch1 spec))"
    and "obj_get params ''dur_or_2''
           = (if obj_get params ''coh_or_2'' = Num 0 \<or> task2 spec = Null then Num 0
              else dur_ch2 spec)"
    and "obj_get params ''start_or_2''
           = (if obj_get params ''coh_or_2'' = Num 0 \<or> task2 spec = Null then Num 0
              else if js_gt0 (dur_ch2 spec)
              then js_sub (js_add (csi spec) (soa spec))
                     (js_add (obj_get params ''start_or_1'') (obj_get params ''dur_or_1''))
              else js_sub (soa spec) (dur_ch1 spec))"
    and "task2 spec = Null \<longrightarrow> obj_get params ''coh_mov_2'' = Num 0
                                 \<and> obj_get params ''coh_or_2'' = Num 0"
proof -
  obtain coh dr where c: "buildCoherenceParams spec = Inr coh"
    and d: "buildDirectionParams spec = Inr dr"
    and p: "params = recompute_offsets spec (silence
                 (spread (spread (spread
                    [(''task_1'', task1 spec), (''task_2'', task2 spec)]
                    (buildTimingParams spec)) coh) dr))"
    using assms by (rule buildTrialParams_phases)
  define p0 where "p0 = spread (spread (spread
                    [(''task_1'', task1 spec), (''task_2'', task2 spec)]
                    (buildTimingParams spec)) coh) dr"
  have params: "params = recompute_offsets spec (silence p0)" by (simp add: p p0_def)
  have lit1: "obj_get p0 ''start_mov_1'' = csi spec" "obj_get p0 ''dur_mov_1'' = dur_ch1 spec"
    "obj_get p0 ''start_or_1'' = csi spec" "obj_get p0 ''dur_or_1'' = dur_ch1 spec"
    unfolding p0_def by (simp_all add: literal_timing [OF c d] timing_channel_1)
  have lit2:
    "obj_get p0 ''start_mov_2'' = (if task2 spec \<noteq> Null then js_sub (soa spec) (dur_ch1 spec) else Num 0)"
    "obj_get p0 ''dur_mov_2'' = (if task2 spec \<noteq> Null then dur_ch2 spec else Num 0)"
    "obj_get p0 ''start_or_2'' = (if task2 spec \<noteq> Null then js_sub (soa spec) (dur_ch1 spec) else Num 0)"
    "obj_get p0 ''dur_or_2'' = (if task2 spec \<noteq> Null then dur_ch2 spec else Num 0)"
    unfolding p0_def by (simp_all add: literal_timing [OF c d] timing_channel_2)
  have coh: "obj_get params ''coh_mov_1'' = obj_get p0 ''coh_mov_1''"
    "obj_get params ''coh_or_1'' = obj_get p0 ''coh_or_1''"
    "obj_get params ''coh_mov_2'' = obj_get p0 ''coh_mov_2''"
    "obj_get params ''coh_or_2'' = obj_get p0 ''coh_or_2''"
    unfolding params by (simp_all add: obj_get_recompute_other obj_get_silence_coh)
  show "obj_get params ''start_mov_1''
           = (if obj_get params ''coh_mov_1'' = Num 0 then Num 0 else csi spec)"
    unfolding coh unfolding params
    by (simp add: obj_get_recompute_other obj_get_silence_mov_1 lit1)
  show "obj_get params ''dur_mov_1''
           = (if obj_get params ''coh_mov_1'' = Num 0 then Num 0 else dur_ch1 spec)"
    unfolding coh unfolding params
    by (simp add: obj_get_recompute_other obj_get_silence_mov_1 lit1)
  show "obj_get params ''start_or_1''
           = (if obj_get params ''coh_or_1'' = Num 0 then Num 0 else csi spec)"
    unfolding coh unfolding params
    by (simp add: obj_get_recompute_other obj_get_silence_or_1 lit1)
  show "obj_get params ''dur_or_1''
           = (if obj_get params ''coh_or_1'' = Num 0 then Num 0 else dur_ch1 spec)"
    unfolding coh unfolding params
    by (simp add: obj_get_recompute_other obj_get_silence_or_1 lit1)
  show "obj_get params ''dur_mov_2''
           = (if obj_get params ''coh_mov_2'' = Num 0 \<or> task2 spec = Null then Num 0
              else dur_ch2 spec)"
    unfolding coh unfolding params
    by (simp add: obj_get_recompute_other obj_get_silence_mov_2 lit2)
  show "obj_get params ''dur_or_2''
           = (if obj_get params ''coh_or_2'' = Num 0 \<or> task2 spec = Null then Num 0
              else dur_ch2 spec)"
    unfolding coh unfolding params
    by (simp add: obj_get_recompute_other obj_get_silence_or_2 lit2)
  show "obj_get params ''start_mov_2''
           = (if obj_get params ''coh_mov_2'' = Num 0 \<or> task2 spec = Null then Num 0
              else if js_gt0 (dur_ch2 spec)
              then js_sub (js_add (csi spec) (soa spec))
                     (js_add (obj_get params ''start_mov_1'') (obj_get params ''dur_mov_1''))
              else js_sub (soa spec) (dur_ch1 spec))"
    unfolding coh unfolding params
    by (simp add: obj_get_recompute_other obj_get_recompute_mov_2 obj_get_silence_mov_2 lit2)
  show "obj_get params ''start_or_2''
           = (if obj_get params ''coh_or_2'' = Num 0 \<or> task2 spec = Null then Num 0
              else if js_gt0 (dur_ch2 spec)
              then js_sub (js_add (csi spec) (soa spec))
                     (js_add (obj_get params ''start_or_1'') (obj_get params ''dur_or_1''))
              else js_sub (soa spec) (dur_ch1 spec))"
    unfolding coh unfolding params
    by (simp add: obj_get_recompute_other obj_get_recompute_or_2 obj_get_silence_or_2 lit2)
  show "task2 spec = Null \<longrightarrow> obj_get params ''coh_mov_2'' = Num 0
                                 \<and> obj_get params ''coh_or_2'' = Num 0"
    unfolding coh p0_def by (simp add: literal_coherence_single [OF c d])
qed

lemmas builder_eval = buildTrialParams_def buildCoherenceParams_def
  buildDirectionParams_def buildTimingParams_def spread_def assign_all_def silence_def
  silence_pathway_def recompute_offsets_def strict_eq_def obj_get_def Let_def

lemma dualBivalentSpec_params:
  "buildTrialParams dualBivalentSpec =
     Inr [(''task_1'', Str ''mov''), (''task_2'', Str ''or''),
          (''start_1'', Num 0), (''dur_1'', Num 500), (''start_go_1'', Num 200),
          (''dur_go_1'', Num 2000), (''start_mov_1'', Num 200), (''dur_mov_1'', Num 300),
          (''start_or_1'', Num 200), (''dur_or_1'', Num 300), (''start_2'', Num 300),
          (''dur_2'', Num 300), (''start_go_2'', Num 300), (''dur_go_2'', Num 2000),
          (''start_mov_2'', Num 0), (''dur_mov_2'', Num 0), (''start_or_2'', Num (- 200)),
          (''dur_or_2'', Num 300),
          (''coh_mov_1'', Num (3602879701896397 / 4503599627370496)),
          (''coh_or_1'', Num (3602879701896397 / 4503599627370496)),
          (''coh_or_2'', Num (5404319552844595 / 9007199254740992)),
          (''coh_mov_2'', Num 0), (''dir_mov_1'', Num 180),
          (''dir_or_1'', Num 180), (''dir_or_2'', Num 0), (''dir_mov_2'', Num 0)]"
  by (simp add: dualBivalentSpec_def builder_eval js_eval)

lemma singleSpec_params:
  "buildTrialParams singleSpec =
     Inr [(''task_1'', Str ''mov''), (''task_2'', Null),
          (''start_1'', Num 0), (''dur_1'', Num 500), (''start_go_1'', Num 200),
          (''dur_go_1'', Num 2000), (''start_mov_1'', Num 200), (''dur_mov_1'', Num 300),
          (''start_or_1'', Num 0), (''dur_or_1'', Num 0), (''start_2'', Num 0),
          (''dur_2'', Num 0), (''start_go_2'', Num 0), (''dur_go_2'', Num 0),
          (''start_mov_2'', Num 0), (''dur_mov_2'', Num 0), (''start_or_2'', Num 0),
          (''dur_or_2'', Num 0),
          (''coh_mov_1'', Num (3602879701896397 / 4503599627370496)),
          (''coh_or_1'', Num 0), (''coh_mov_2'', Num 0), (''coh_or_2'', Num 0),
          (''dir_mov_1'', Num 0), (''dir_or_1'', Num 0),
          (''dir_mov_2'', Num 0), (''dir_or_2'', Num 0)]"
  by (simp add: singleSpec_def builder_eval js_eval)

text \<open>
  Claim C2. In the record that \<^verbatim>\<open>buildTrialParams\<close> returns, each of the four
  stimulus pathways (channel 1 movement and orientation, channel 2 movement and
  orientation) whose routed coherence field is 0 has its start field and its
  duration field equal to 0. Each pathway is decided by its own coherence field
  alone: a channel-1 pathway whose coherence field is not 0 keeps the start and
  the duration of the spec, whatever the other fields are, and a channel-2
  pathway whose coherence field is not 0 (which needs a second task) keeps the
  duration of the spec and gets its offset, recomputed from the channel-1
  pathway of its dimension when that duration is positive.
\<close>

theorem buildTrialParams_silenced:
  assumes "buildTrialParams spec = Inr params"
  shows "(obj_get params ''coh_mov_1'' = Num 0
            \<longrightarrow> obj_get params ''start_mov_1'' = Num 0 \<and> obj_get params ''dur_mov_1'' = Num 0)
       \<and> (obj_get params ''coh_or_1'' = Num 0
            \<longrightarrow> obj_get params ''start_or_1'' = Num 0 \<and> obj_get params ''dur_or_1'' = Num 0)
       \<and> (obj_get params ''coh_mov_2'' = Num 0
            \<longrightarrow> obj_get params ''start_mov_2'' = Num 0 \<and> obj_get params ''dur_mov_2'' = Num 0)
       \<and> (obj_get params ''coh_or_2'' = Num 0
            \<longrightarrow> obj_get params ''start_or_2'' = Num 0 \<and> obj_get params ''dur_or_2'' = Num 0)
       \<and> (obj_get params ''coh_mov_1'' \<noteq> Num 0
            \<longrightarrow> obj_get params ''start_mov_1'' = csi spec
              \<and> obj_get params ''dur_mov_1'' = dur_ch1 spec)
       \<and> (obj_get params ''coh_or_1'' \<noteq> Num 0
            \<longrightarrow> obj_get params ''start_or_1'' = csi spec
              \<and> obj_get params ''dur_or_1'' = dur_ch1 spec)
       \<and> (obj_get params ''coh_mov_2'' \<noteq> Num 0
            \<longrightarrow> task2 spec \<noteq> Null
              \<and> obj_get params ''dur_mov_2'' = dur_ch2 spec
              \<and> obj_get params ''start_mov_2''
                  = (if js_gt0 (dur_ch2 spec)
                     then js_sub (js_add (csi spec) (soa spec))
                            (js_add (obj_get params ''start_mov_1'') (obj_get params ''dur_mov_1''))
                     else js_sub (soa spec) (dur_ch1 spec)))
       \<and> (obj_get params ''coh_or_2'' \<noteq> Num 0
            \<longrightarrow> task2 spec \<noteq> Null
              \<and> obj_get params ''dur_or_2'' = dur_ch2 spec
              \<and> obj_get params ''start_or_2''
                  = (if js_gt0 (dur_ch2 spec)
                     then js_sub (js_add (csi spec) (soa spec))
                            (js_add (obj_get params ''start_or_1'') (obj_get params ''dur_or_1''))
                     else js_sub (soa spec) (dur_ch1 spec)))"
proof -
  note pf = pathway_fields [OF assms]
  have m1: "obj_get params ''coh_mov_1'' = Num 0
            \<longrightarrow> obj_get params ''start_mov_1'' = Num 0 \<and> obj_get params ''dur_mov_1'' = Num 0"
    using pf(1,2) by simp
  have o1: "obj_get params ''coh_or_1'' = Num 0
            \<longrightarrow> obj_get params ''start_or_1'' = Num 0 \<and> obj_get params ''dur_or_1'' = Num 0"
    using pf(3,4) by simp
  have m2: "obj_get params ''coh_mov_2'' = Num 0
            \<longrightarrow> obj_get params ''start_mov_2'' = Num 0 \<and> obj_get params ''dur_mov_2'' = Num 0"
    using pf(5,6) by simp
  have o2: "obj_get params ''coh_or_2'' = Num 0
            \<longrightarrow> obj_get params ''start_or_2'' = Num 0 \<and> obj_get params ''dur_or_2'' = Num 0"
    using pf(7,8) by simp
  have m1': "obj_get params ''coh_mov_1'' \<noteq> Num 0
            \<longrightarrow> obj_get params ''start_mov_1'' = csi spec
              \<and> obj_get params ''dur_mov_1'' = dur_ch1 spec"
    using pf(1,2) by simp
  have o1': "obj_get params ''coh_or_1'' \<noteq> Num 0
            \<longrightarrow> obj_get params ''start_or_1'' = csi spec
              \<and> obj_get params ''dur_or_1'' = dur_ch1 spec"
    using pf(3,4) by simp
  have m2': "obj_get params ''coh_mov_2'' \<noteq> Num 0
            \<longrightarrow> task2 spec \<noteq> Null
              \<and> obj_get params ''dur_mov_2'' = dur_ch2 spec
              \<and> obj_get params ''start_mov_2''
                  = (if js_gt0 (dur_ch2 spec)
                     then js_sub (js_add (csi spec) (soa spec))
                            (js_add (obj_get params ''start_mov_1'') (obj_get params ''dur_mov_1''))
                     else js_sub (soa spec) (dur_ch1 spec))"
  proof
    assume nz: "obj_get params ''coh_mov_2'' \<noteq> Num 0"
    then have t: "task2 spec \<noteq> Null" using pf(9) by blast
    show "task2 spec \<noteq> Null
              \<and> obj_get params ''dur_mov_2'' = dur_ch2 spec
              \<and> obj_get params ''start_mov_2''
                  = (if js_gt0 (dur_ch2 spec)
                     then js_sub (js_add (csi spec) (soa spec))
                            (js_add (obj_get params ''start_mov_1'') (obj_get params ''dur_mov_1''))
                     else js_sub (soa spec) (dur_ch1 spec))"
      using pf(5,6) nz t by simp
  qed
  have o2': "obj_get params ''coh_or_2'' \<noteq> Num 0
            \<longrightarrow> task2 spec \<noteq> Null
              \<and> obj_get params ''dur_or_2'' = dur_ch2 spec
              \<and> obj_get params ''start_or_2''
                  = (if js_gt0 (dur_ch2 spec)
                     then js_sub (js_add (csi spec) (soa spec))
                            (js_add (obj_get params ''start_or_1'') (obj_get params ''dur_or_1''))
                     else js_sub (soa spec) (dur_ch1 spec))"
  proof
    assume nz: "obj_get params ''coh_or_2'' \<noteq> Num 0"
    then have t: "task2 spec \<noteq> Null" using pf(9) by blast
    show "task2 spec \<noteq> Null
              \<and> obj_get params ''dur_or_2'' = dur_ch2 spec
              \<and> obj_get params ''start_or_2''
                  = (if js_gt0 (dur_ch2 spec)
                     then js_sub (js_add (csi spec) (soa spec))
                            (js_add (obj_get params ''start_or_1'') (obj_get params ''dur_or_1''))
                     else js_sub (soa spec) (dur_ch1 spec))"
      using pf(7,8) nz t by simp
  qed
  from m1 o1 m2 o2 m1' o1' m2' o2' show ?thesis by (intro conjI)
qed

theorem buildTrialParams_silenced_witness:
  "(\<exists>params. buildTrialParams dualBivalentSpec = Inr params
     \<and> obj_get params ''coh_mov_2'' = Num 0
     \<and> obj_get params ''start_mov_2'' = Num 0 \<and> obj_get params ''dur_mov_2'' = Num 0
     \<and> obj_get params ''coh_or_2'' \<noteq> Num 0
     \<and> obj_get params ''dur_or_2'' = Num 300 \<and> obj_get params ''start_or_2'' = Num (- 200)
     \<and> obj_get params ''coh_mov_1'' \<noteq> Num 0
     \<and> obj_get params ''start_mov_1'' = Num 200 \<and> obj_get params ''dur_mov_1'' = Num 300
     \<and> obj_get params ''coh_or_1'' \<noteq> Num 0
     \<and> obj_get params ''start_or_1'' = Num 200 \<and> obj_get params ''dur_or_1'' = Num 300)
   \<and> (\<exists>params. buildTrialParams singleSpec = Inr params
     \<and> obj_get params ''coh_or_1'' = Num 0
     \<and> obj_get params ''start_or_1'' = Num 0 \<and> obj_get params ''dur_or_1'' = Num 0
     \<and> obj_get params ''coh_mov_1'' \<noteq> Num 0
     \<and> obj_get params ''start_mov_1'' = Num 200 \<and> obj_get params ''dur_mov_1'' = Num 300
     \<and> obj_get params ''coh_or_2'' = Num 0
     \<and> obj_get params ''start_or_2'' = Num 0 \<and> obj_get params ''dur_or_2'' = Num 0)"
proof -
  have a: "\<exists>params. buildTrialParams dualBivalentSpec = Inr params
     \<and> obj_get params ''coh_mov_2'' = Num 0
     \<and> obj_get params ''start_mov_2'' = Num 0 \<and> obj_get params ''dur_mov_2'' = Num 0
     \<and> obj_get params ''coh_or_2'' \<noteq> Num 0
     \<and> obj_get params ''dur_or_2'' = Num 300 \<and> obj_get params ''start_or_2'' = Num (- 200)
     \<and> obj_get params ''coh_mov_1'' \<noteq> Num 0
     \<and> obj_get params ''start_mov_1'' = Num 200 \<and> obj_get params ''dur_mov_1'' = Num 300
     \<and> obj_get params ''coh_or_1'' \<noteq> Num 0
     \<and> obj_get params ''start_or_1'' = Num 200 \<and> obj_get params ''dur_or_1'' = Num 300"
    using buildTrialParams_silenced [OF dualBivalentSpec_params] dualBivalentSpec_params
    by (simp add: obj_get_def)
  have b: "\<exists>params. buildTrialParams singleSpec = Inr params
     \<and> obj_get params ''coh_or_1'' = Num 0
     \<and> obj_get params ''start_or_1'' = Num 0 \<and> obj_get params ''dur_or_1'' = Num 0
     \<and> obj_get params ''coh_mov_1'' \<noteq> Num 0
     \<and> obj_get params ''start_mov_1'' = Num 200 \<and> obj_get params ''dur_mov_1'' = Num 300
     \<and> obj_get params ''coh_or_2'' = Num 0
     \<and> obj_get params ''start_or_2'' = Num 0 \<and> obj_get params ''dur_or_2'' = Num 0"
    using buildTrialParams_silenced [OF singleSpec_params] singleSpec_params
    by (simp add: obj_get_def)
  from a b show ?thesis by (rule conjI)
qed

lemma offset_exact:
  assumes "\<bar>c\<bar> \<le> 2 ^ 51" "\<bar>s\<bar> \<le> 2 ^ 51" "\<bar>d\<bar> \<le> 2 ^ 51"
    and "s1 = Num 0 \<and> d1 = Num 0 \<or> s1 = Num (of_int c) \<and> d1 = Num (of_int d)"
  shows "\<exists>x2 x1 y1. js_sub (js_add (Num (of_int c)) (Num (of_int s))) (js_add s1 d1) = Num x2
           \<and> s1 = Num x1 \<and> d1 = Num y1 \<and> x2 + (x1 + y1) = of_int c + of_int s"
proof -
  have cs: "js_add (Num (of_int c)) (Num (of_int s)) = Num (of_int (c + s))"
    using assms(1,2) by (intro js_add_int) simp
  from assms(4) show ?thesis
  proof
    assume z: "s1 = Num 0 \<and> d1 = Num 0"
    have "js_add (Num 0) (Num 0) = Num (of_int 0)" by (simp add: js_add_Num fl_zero)
    moreover have "js_sub (Num (of_int (c + s))) (Num (of_int 0)) = Num (of_int (c + s - 0))"
      using assms(1,2) by (intro js_sub_int) simp
    ultimately have "js_sub (js_add (Num (of_int c)) (Num (of_int s))) (js_add s1 d1)
        = Num (of_int c + of_int s)"
      by (simp add: cs z)
    then show ?thesis using z by simp
  next
    assume a: "s1 = Num (of_int c) \<and> d1 = Num (of_int d)"
    have "js_add (Num (of_int c)) (Num (of_int d)) = Num (of_int (c + d))"
      using assms(1,3) by (intro js_add_int) simp
    moreover have "js_sub (Num (of_int (c + s))) (Num (of_int (c + d)))
        = Num (of_int (c + s - (c + d)))"
      using assms(2,3) by (intro js_sub_int) simp
    ultimately have "js_sub (js_add (Num (of_int c)) (Num (of_int s))) (js_add s1 d1)
        = Num (of_int c + of_int s - (of_int c + of_int d))"
      by (simp add: cs a)
    then show ?thesis using a by simp
  qed
qed

text \<open>
  Claim C1, as the code has it. For a trial spec with a second task (\<open>task2\<close> not
  \<open>null\<close>), each channel-2 pathway that remains active after silencing (its
  duration is positive) gets the offset \<open>(csi + soa) - (start + dur)\<close> of the
  channel-1 pathway of the same dimension after silencing, every operation being
  one of double arithmetic. The offset is kept as computed, also when negative.
  When \<open>csi\<close>, \<open>soa\<close> and \<open>dur_ch1\<close> are integers of magnitude at most \<open>2\<^sup>5\<^sup>1\<close>, no
  operation rounds, and the offset added to the end of the channel-1 pathway
  gives exactly \<open>csi + soa\<close>: with \<open>csi = 200\<close>, \<open>soa = 100\<close> and the channel-1
  orientation pathway active from 200 for 300, the orientation offset is \<open>-200\<close>.
\<close>

theorem buildTrialParams_offsets:
  assumes "buildTrialParams spec = Inr params" and "task2 spec \<noteq> Null"
  shows "(js_gt0 (obj_get params ''dur_mov_2'') \<longrightarrow>
            obj_get params ''start_mov_2''
              = js_sub (js_add (csi spec) (soa spec))
                  (js_add (obj_get params ''start_mov_1'') (obj_get params ''dur_mov_1'')))
       \<and> (js_gt0 (obj_get params ''dur_or_2'') \<longrightarrow>
            obj_get params ''start_or_2''
              = js_sub (js_add (csi spec) (soa spec))
                  (js_add (obj_get params ''start_or_1'') (obj_get params ''dur_or_1'')))
       \<and> (\<forall>c s d. csi spec = Num (of_int c) \<and> soa spec = Num (of_int s)
               \<and> dur_ch1 spec = Num (of_int d)
               \<and> \<bar>c\<bar> \<le> 2 ^ 51 \<and> \<bar>s\<bar> \<le> 2 ^ 51 \<and> \<bar>d\<bar> \<le> 2 ^ 51 \<longrightarrow>
            (js_gt0 (obj_get params ''dur_mov_2'') \<longrightarrow>
               (\<exists>s2 s1 d1. obj_get params ''start_mov_2'' = Num s2
                  \<and> obj_get params ''start_mov_1'' = Num s1 \<and> obj_get params ''dur_mov_1'' = Num d1
                  \<and> s2 + (s1 + d1) = of_int c + of_int s))
          \<and> (js_gt0 (obj_get params ''dur_or_2'') \<longrightarrow>
               (\<exists>s2 s1 d1. obj_get params ''start_or_2'' = Num s2
                  \<and> obj_get params ''start_or_1'' = Num s1 \<and> obj_get params ''dur_or_1'' = Num d1
                  \<and> s2 + (s1 + d1) = of_int c + of_int s)))
       \<and> (csi spec = Num 200 \<and> soa spec = Num 100 \<and> js_gt0 (obj_get params ''dur_or_2'')
            \<and> obj_get params ''start_or_1'' = Num 200 \<and> obj_get params ''dur_or_1'' = Num 300
          \<longrightarrow> obj_get params ''start_or_2'' = Num (- 200))"
proof -
  note pf = pathway_fields [OF assms(1)]
  have m: "js_gt0 (obj_get params ''dur_mov_2'') \<longrightarrow>
            obj_get params ''start_mov_2''
              = js_sub (js_add (csi spec) (soa spec))
                  (js_add (obj_get params ''start_mov_1'') (obj_get params ''dur_mov_1''))"
  proof
    assume g: "js_gt0 (obj_get params ''dur_mov_2'')"
    then have "\<not> (obj_get params ''coh_mov_2'' = Num 0 \<or> task2 spec = Null)"
      using pf(5) by (auto split: if_splits)
    moreover from this have "js_gt0 (dur_ch2 spec)" using g pf(5) by simp
    ultimately show "obj_get params ''start_mov_2''
              = js_sub (js_add (csi spec) (soa spec))
                  (js_add (obj_get params ''start_mov_1'') (obj_get params ''dur_mov_1''))"
      using pf(6) by simp
  qed
  have o: "js_gt0 (obj_get params ''dur_or_2'') \<longrightarrow>
            obj_get params ''start_or_2''
              = js_sub (js_add (csi spec) (soa spec))
                  (js_add (obj_get params ''start_or_1'') (obj_get params ''dur_or_1''))"
  proof
    assume g: "js_gt0 (obj_get params ''dur_or_2'')"
    then have "\<not> (obj_get params ''coh_or_2'' = Num 0 \<or> task2 spec = Null)"
      using pf(7) by (auto split: if_splits)
    moreover from this have "js_gt0 (dur_ch2 spec)" using g pf(7) by simp
    ultimately show "obj_get params ''start_or_2''
              = js_sub (js_add (csi spec) (soa spec))
                  (js_add (obj_get params ''start_or_1'') (obj_get params ''dur_or_1''))"
      using pf(8) by simp
  qed
  have i: "\<forall>c s d. csi spec = Num (of_int c) \<and> soa spec = Num (of_int s)
               \<and> dur_ch1 spec = Num (of_int d)
               \<and> \<bar>c\<bar> \<le> 2 ^ 51 \<and> \<bar>s\<bar> \<le> 2 ^ 51 \<and> \<bar>d\<bar> \<le> 2 ^ 51 \<longrightarrow>
            (js_gt0 (obj_get params ''dur_mov_2'') \<longrightarrow>
               (\<exists>s2 s1 d1. obj_get params ''start_mov_2'' = Num s2
                  \<and> obj_get params ''start_mov_1'' = Num s1 \<and> obj_get params ''dur_mov_1'' = Num d1
                  \<and> s2 + (s1 + d1) = of_int c + of_int s))
          \<and> (js_gt0 (obj_get params ''dur_or_2'') \<longrightarrow>
               (\<exists>s2 s1 d1. obj_get params ''start_or_2'' = Num s2
                  \<and> obj_get params ''start_or_1'' = Num s1 \<and> obj_get params ''dur_or_1'' = Num d1
                  \<and> s2 + (s1 + d1) = of_int c + of_int s))"
  proof (intro allI impI conjI)
    fix c s d :: int
    assume h: "csi spec = Num (of_int c) \<and> soa spec = Num (of_int s)
               \<and> dur_ch1 spec = Num (of_int d)
               \<and> \<bar>c\<bar> \<le> 2 ^ 51 \<and> \<bar>s\<bar> \<le> 2 ^ 51 \<and> \<bar>d\<bar> \<le> 2 ^ 51"
    then have b: "\<bar>c\<bar> \<le> 2 ^ 51" "\<bar>s\<bar> \<le> 2 ^ 51" "\<bar>d\<bar> \<le> 2 ^ 51" by simp_all
    {
      assume g: "js_gt0 (obj_get params ''dur_mov_2'')"
      have "obj_get params ''start_mov_1'' = Num 0 \<and> obj_get params ''dur_mov_1'' = Num 0
          \<or> obj_get params ''start_mov_1'' = Num (of_int c)
            \<and> obj_get params ''dur_mov_1'' = Num (of_int d)"
        using pf(1,2) h by simp
      from offset_exact [OF b this] m g h
      show "\<exists>s2 s1 d1. obj_get params ''start_mov_2'' = Num s2
                  \<and> obj_get params ''start_mov_1'' = Num s1 \<and> obj_get params ''dur_mov_1'' = Num d1
                  \<and> s2 + (s1 + d1) = of_int c + of_int s"
        by simp
    }
    {
      assume g: "js_gt0 (obj_get params ''dur_or_2'')"
      have "obj_get params ''start_or_1'' = Num 0 \<and> obj_get params ''dur_or_1'' = Num 0
          \<or> obj_get params ''start_or_1'' = Num (of_int c)
            \<and> obj_get params ''dur_or_1'' = Num (of_int d)"
        using pf(3,4) h by simp
      from offset_exact [OF b this] o g h
      show "\<exists>s2 s1 d1. obj_get params ''start_or_2'' = Num s2
                  \<and> obj_get params ''start_or_1'' = Num s1 \<and> obj_get params ''dur_or_1'' = Num d1
                  \<and> s2 + (s1 + d1) = of_int c + of_int s"
        by simp
    }
  qed
  have e: "csi spec = Num 200 \<and> soa spec = Num 100 \<and> js_gt0 (obj_get params ''dur_or_2'')
            \<and> obj_get params ''start_or_1'' = Num 200 \<and> obj_get params ''dur_or_1'' = Num 300
          \<longrightarrow> obj_get params ''start_or_2'' = Num (- 200)"
    using o by (simp add: js_eval)
  from m o i e show ?thesis by (intro conjI)
qed

theorem buildTrialParams_offsets_witness:
  "\<exists>params. buildTrialParams dualBivalentSpec = Inr params
     \<and> task2 dualBivalentSpec \<noteq> Null
     \<and> csi dualBivalentSpec = Num (of_int 200) \<and> soa dualBivalentSpec = Num (of_int 100)
     \<and> dur_ch1 dualBivalentSpec = Num (of_int 300)
     \<and> js_gt0 (obj_get params ''dur_or_2'')
     \<and> obj_get params ''start_or_1'' = Num 200 \<and> obj_get params ''dur_or_1'' = Num 300
     \<and> obj_get params ''start_or_2'' = Num (- 200)
     \<and> obj_get params ''start_or_2''
         = js_sub (js_add (csi dualBivalentSpec) (soa dualBivalentSpec))
             (js_add (obj_get params ''start_or_1'') (obj_get params ''dur_or_1''))
     \<and> (\<exists>s2 s1 d1. obj_get params ''start_or_2'' = Num s2
            \<and> obj_get params ''start_or_1'' = Num s1 \<and> obj_get params ''dur_or_1'' = Num d1
            \<and> s2 + (s1 + d1) = of_int 200 + of_int 100)"
proof -
  have h2: "task2 dualBivalentSpec \<noteq> Null" by (simp add: dualBivalentSpec_def)
  have v: "csi dualBivalentSpec = Num (of_int 200)" "soa dualBivalentSpec = Num (of_int 100)"
    "dur_ch1 dualBivalentSpec = Num (of_int 300)"
    by (simp_all add: dualBivalentSpec_def)
  have b: "\<bar>200 :: int\<bar> \<le> 2 ^ 51" "\<bar>100 :: int\<bar> \<le> 2 ^ 51" "\<bar>300 :: int\<bar> \<le> 2 ^ 51"
    by simp_all
  define ps where "ps = [(''task_1'', Str ''mov''), (''task_2'', Str ''or''),
          (''start_1'', Num 0), (''dur_1'', Num 500), (''start_go_1'', Num 200),
          (''dur_go_1'', Num 2000), (''start_mov_1'', Num 200), (''dur_mov_1'', Num 300),
          (''start_or_1'', Num 200), (''dur_or_1'', Num 300), (''start_2'', Num 300),
          (''dur_2'', Num 300), (''start_go_2'', Num 300), (''dur_go_2'', Num 2000),
          (''start_mov_2'', Num 0), (''dur_mov_2'', Num 0), (''start_or_2'', Num (- 200)),
          (''dur_or_2'', Num 300),
          (''coh_mov_1'', Num (3602879701896397 / 4503599627370496)),
          (''coh_or_1'', Num (3602879701896397 / 4503599627370496)),
          (''coh_or_2'', Num (5404319552844595 / 9007199254740992)),
          (''coh_mov_2'', Num 0), (''dir_mov_1'', Num 180),
          (''dir_or_1'', Num 180), (''dir_or_2'', Num 0), (''dir_mov_2'', Num 0)]"
  have ret: "buildTrialParams dualBivalentSpec = Inr ps"
    unfolding ps_def by (rule dualBivalentSpec_params)
  have g: "js_gt0 (obj_get ps ''dur_or_2'')" by (simp add: ps_def obj_get_def)
  have f: "obj_get ps ''start_or_1'' = Num 200" "obj_get ps ''dur_or_1'' = Num 300"
    "obj_get ps ''start_or_2'' = Num (- 200)"
    by (simp_all add: ps_def obj_get_def)
  note t = buildTrialParams_offsets [OF ret h2]
  have t2: "obj_get ps ''start_or_2''
         = js_sub (js_add (csi dualBivalentSpec) (soa dualBivalentSpec))
             (js_add (obj_get ps ''start_or_1'') (obj_get ps ''dur_or_1''))"
    using t [THEN conjunct2, THEN conjunct1] g by blast
  have t3: "\<exists>s2 s1 d1. obj_get ps ''start_or_2'' = Num s2
            \<and> obj_get ps ''start_or_1'' = Num s1 \<and> obj_get ps ''dur_or_1'' = Num d1
            \<and> s2 + (s1 + d1) = of_int 200 + of_int 100"
    using t [THEN conjunct2, THEN conjunct2, THEN conjunct1, rule_format, of 200 100 300] v b g
    by blast
  show ?thesis
    using ret h2 v g f t2 t3 by blast
qed

lemma fl_167: "fl (167 / 10) = Num (4700632111067955 / 281474976710656)"
  by (rule trans [OF fl_eval [of 4 _ 4700632111067955]]) (simp_all add: rhe_def Let_def)

lemma fl_3001: "fl (3001 / 10) = Num (2639707515964621 / 8796093022208)"
  by (rule trans [OF fl_eval [of 8 _ 5279415031929242]]) (simp_all add: rhe_def Let_def)

lemma fl_desired:
  "fl (4700632111067955 / 140737488355328) = Num (4700632111067955 / 140737488355328)"
  by (rule trans [OF fl_eval [of 5 _ 4700632111067955]]) (simp_all add: rhe_def Let_def)

lemma fl_end:
  "fl (89171272621935827 / 281474976710656) = Num (5573204538870989 / 17592186044416)"
  by (rule trans [OF fl_eval [of 8 _ 5573204538870989]]) (simp_all add: rhe_def Let_def)

lemma fl_offset:
  "fl (- (39885004199899957 / 140737488355328)) = Num (- (4985625524987495 / 17592186044416))"
  by (rule trans [OF fl_eval [of 8 _ 4985625524987495]]) (simp_all add: rhe_def Let_def)

lemma fl_placement:
  "fl (293789506941747 / 8796093022208) = Num (293789506941747 / 8796093022208)"
  by (rule trans [OF fl_eval [of 5 _ 4700632111067952]]) (simp_all add: rhe_def Let_def)

lemmas offset_eval = fl_167 fl_3001 fl_desired fl_end fl_offset fl_placement

lemma offsetSpec_params:
  "buildTrialParams offsetSpec =
     Inr [(''task_1'', Str ''mov''), (''task_2'', Str ''or''),
          (''start_1'', Num 0), (''dur_1'', Num (5573204538870989 / 17592186044416)),
          (''start_go_1'', Num (4700632111067955 / 281474976710656)),
          (''dur_go_1'', Num 2000),
          (''start_mov_1'', Num (4700632111067955 / 281474976710656)),
          (''dur_mov_1'', Num (2639707515964621 / 8796093022208)),
          (''start_or_1'', Num (4700632111067955 / 281474976710656)),
          (''dur_or_1'', Num (2639707515964621 / 8796093022208)),
          (''start_2'', Num (4700632111067955 / 140737488355328)),
          (''dur_2'', Num 300),
          (''start_go_2'', Num (4700632111067955 / 140737488355328)),
          (''dur_go_2'', Num 2000),
          (''start_mov_2'', Num 0), (''dur_mov_2'', Num 0),
          (''start_or_2'', Num (- (4985625524987495 / 17592186044416))),
          (''dur_or_2'', Num 300),
          (''coh_mov_1'', Num 1), (''coh_or_1'', Num 1), (''coh_or_2'', Num 1),
          (''coh_mov_2'', Num 0), (''dir_mov_1'', Num 180),
          (''dir_or_1'', Num 180), (''dir_or_2'', Num 0), (''dir_mov_2'', Num 0)]"
  by (simp add: offsetSpec_def builder_eval js_arith fl_small offset_eval)

text \<open>
  Against claim C1 as stated: with \<^verbatim>\<open>csi = soa = 16.7\<close>, \<^verbatim>\<open>dur_ch1 = 300.1\<close> and both
  orientation pathways active, the orientation offset is \<^verbatim>\<open>-283.40000000000003\<close>;
  added to the end of the channel-1 orientation pathway, in double arithmetic as
  in exact arithmetic, it does not give \<open>csi + soa\<close> (\<^verbatim>\<open>33.39999999999998\<close> against
  \<^verbatim>\<open>33.4\<close> in doubles).
\<close>

theorem buildTrialParams_rounding_counterexample:
  "\<exists>params. buildTrialParams offsetSpec = Inr params
     \<and> task2 offsetSpec \<noteq> Null
     \<and> csi offsetSpec = Num (4700632111067955 / 281474976710656)
     \<and> soa offsetSpec = Num (4700632111067955 / 281474976710656)
     \<and> js_gt0 (obj_get params ''dur_or_2'')
     \<and> obj_get params ''start_or_1'' = Num (4700632111067955 / 281474976710656)
     \<and> obj_get params ''dur_or_1'' = Num (2639707515964621 / 8796093022208)
     \<and> obj_get params ''start_or_2'' = Num (- (4985625524987495 / 17592186044416))
     \<and> js_add (obj_get params ''start_or_2'')
         (js_add (obj_get params ''start_or_1'') (obj_get params ''dur_or_1''))
         = Num (293789506941747 / 8796093022208)
     \<and> js_add (csi offsetSpec) (soa offsetSpec) = Num (4700632111067955 / 140737488355328)
     \<and> (293789506941747 / 8796093022208 :: real) \<noteq> 4700632111067955 / 140737488355328
     \<and> - (4985625524987495 / 17592186044416)
         + (4700632111067955 / 281474976710656 + 2639707515964621 / 8796093022208)
         \<noteq> (4700632111067955 / 281474976710656 + 4700632111067955 / 281474976710656 :: real)"
  using offsetSpec_params
  by (simp add: obj_get_def offsetSpec_def js_arith fl_small offset_eval)

subsection \<open>Parameter builder: the shape of the record\<close>

lemma obj_set_fresh: "k \<notin> fst ` set ob \<Longrightarrow> obj_set ob k v = ob @ [(k, v)]"
  by (induction ob) auto

lemma assign_all_fresh:
  "distinct (map fst kvs) \<Longrightarrow> fst ` set kvs \<inter> fst ` set ob = {}
     \<Longrightarrow> assign_all ob kvs = ob @ kvs"
proof (induction kvs arbitrary: ob)
  case Nil
  show ?case by (simp add: assign_all_def)
next
  case (Cons kv kvs)
  have fresh: "fst kv \<notin> fst ` set ob" using Cons.prems(2) by auto
  have step: "assign_all ob (kv # kvs) = assign_all (ob @ [kv]) kvs"
    using obj_set_fresh [OF fresh, of "snd kv"] by (simp add: assign_all_def)
  have "assign_all (ob @ [kv]) kvs = (ob @ [kv]) @ kvs"
  proof (rule Cons.IH)
    show "distinct (map fst kvs)" using Cons.prems(1) by simp
    show "fst ` set kvs \<inter> fst ` set (ob @ [kv]) = {}"
      using Cons.prems by auto
  qed
  with step show ?case by simp
qed

lemma buildTimingParams_literal:
  "buildTimingParams spec =
       [(''start_1'', Num 0),
         (''dur_1'', js_add (csi spec) (dur_ch1 spec)),
         (''start_go_1'', csi spec),
         (''dur_go_1'', responseWindow spec),
         (''start_mov_1'', csi spec),
         (''dur_mov_1'', dur_ch1 spec),
         (''start_or_1'', csi spec),
         (''dur_or_1'', dur_ch1 spec)] @
        (if task2 spec \<noteq> Null then
           [(''start_2'', js_add (csi spec) (soa spec)),
            (''dur_2'', dur_ch2 spec),
            (''start_go_2'', js_add (csi spec) (soa spec)),
            (''dur_go_2'', responseWindow spec),
            (''start_mov_2'', js_sub (soa spec) (dur_ch1 spec)),
            (''dur_mov_2'', dur_ch2 spec),
            (''start_or_2'', js_sub (soa spec) (dur_ch1 spec)),
            (''dur_or_2'', dur_ch2 spec)]
         else
           [(''start_2'', Num 0),
            (''dur_2'', Num 0),
            (''start_go_2'', Num 0),
            (''dur_go_2'', Num 0),
            (''start_mov_2'', Num 0),
            (''dur_mov_2'', Num 0),
            (''start_or_2'', Num 0),
            (''dur_or_2'', Num 0)])"
  unfolding buildTimingParams_def Let_def
  by (subst assign_all_fresh) auto

lemma map_fst_obj_set:
  "k \<in> fst ` set ob \<Longrightarrow> map fst (obj_set ob k v) = map fst ob"
  by (induction ob) auto

lemma vals_obj_set: "snd ` set (obj_set ob k v) \<subseteq> insert v (snd ` set ob)"
  by (induction ob) auto

lemma keys_set_obj_set:
  "k \<in> fst ` set ob \<Longrightarrow> fst ` set (obj_set ob k v) = fst ` set ob"
  using map_fst_obj_set [of k ob v] by (metis list.set_map)

lemma silence_pathway_keys:
  assumes "s \<in> fst ` set p" "d \<in> fst ` set p"
  shows "map fst (silence_pathway p c s d) = map fst p"
  using assms by (simp add: silence_pathway_def map_fst_obj_set keys_set_obj_set)

lemma silence_pathway_vals:
  "snd ` set (silence_pathway p c s d) \<subseteq> insert (Num 0) (snd ` set p)"
proof (cases "strict_eq (obj_get p c) (Num 0)")
  case True
  have "snd ` set (obj_set (obj_set p s (Num 0)) d (Num 0))
          \<subseteq> insert (Num 0) (snd ` set (obj_set p s (Num 0)))"
    by (rule vals_obj_set)
  also have "\<dots> \<subseteq> insert (Num 0) (snd ` set p)"
    using vals_obj_set [of p s "Num 0"] by blast
  finally show ?thesis using True by (simp add: silence_pathway_def)
next
  case False
  then show ?thesis by (auto simp: silence_pathway_def)
qed

lemma silence_keys:
  assumes "{''start_mov_1'', ''dur_mov_1'', ''start_or_1'', ''dur_or_1'',
            ''start_mov_2'', ''dur_mov_2'', ''start_or_2'', ''dur_or_2''} \<subseteq> fst ` set p"
  shows "map fst (silence p) = map fst p"
proof -
  let ?a = "silence_pathway p ''coh_mov_1'' ''start_mov_1'' ''dur_mov_1''"
  let ?b = "silence_pathway ?a ''coh_or_1'' ''start_or_1'' ''dur_or_1''"
  let ?c = "silence_pathway ?b ''coh_mov_2'' ''start_mov_2'' ''dur_mov_2''"
  let ?d = "silence_pathway ?c ''coh_or_2'' ''start_or_2'' ''dur_or_2''"
  have a: "map fst ?a = map fst p"
    using assms by (intro silence_pathway_keys) auto
  then have sa: "fst ` set ?a = fst ` set p" by (metis list.set_map)
  have b: "map fst ?b = map fst ?a"
    using assms unfolding sa [symmetric] by (intro silence_pathway_keys) auto
  then have sb: "fst ` set ?b = fst ` set p" using sa by (metis list.set_map)
  have c: "map fst ?c = map fst ?b"
    using assms unfolding sb [symmetric] by (intro silence_pathway_keys) auto
  then have sc: "fst ` set ?c = fst ` set p" using sb by (metis list.set_map)
  have d: "map fst ?d = map fst ?c"
    using assms unfolding sc [symmetric] by (intro silence_pathway_keys) auto
  show ?thesis unfolding silence_def using a b c d by simp
qed

lemma insert_subset_chain:
  "A \<subseteq> insert z B \<Longrightarrow> C \<subseteq> insert z A \<Longrightarrow> C \<subseteq> insert z B"
  by blast

lemma silence_vals: "snd ` set (silence p) \<subseteq> insert (Num 0) (snd ` set p)"
  unfolding silence_def
  by (intro insert_subset_chain [OF _ silence_pathway_vals] silence_pathway_vals)

lemma recompute_offsets_keys:
  assumes "''start_mov_2'' \<in> fst ` set p" "''start_or_2'' \<in> fst ` set p"
  shows "map fst (recompute_offsets spec p) = map fst p"
proof -
  define mv where "mv = js_sub (js_add (csi spec) (soa spec))
        (js_add (obj_get p ''start_mov_1'') (obj_get p ''dur_mov_1''))"
  define ov where "ov = js_sub (js_add (csi spec) (soa spec))
        (js_add (obj_get p ''start_or_1'') (obj_get p ''dur_or_1''))"
  define p1 where "p1 = (if js_gt0 (obj_get p ''dur_mov_2'') then obj_set p ''start_mov_2'' mv else p)"
  define p2 where "p2 = (if js_gt0 (obj_get p1 ''dur_or_2'') then obj_set p1 ''start_or_2'' ov else p1)"
  have 1: "map fst p1 = map fst p"
    unfolding p1_def using assms(1) by (simp add: map_fst_obj_set)
  then have "fst ` set p1 = fst ` set p" by (metis list.set_map)
  then have "''start_or_2'' \<in> fst ` set p1" using assms(2) by simp
  then have 2: "map fst p2 = map fst p1"
    unfolding p2_def by (simp add: map_fst_obj_set)
  have "recompute_offsets spec p = (if task2 spec \<noteq> Null then p2 else p)"
    unfolding recompute_offsets_def Let_def p2_def p1_def mv_def ov_def by (rule refl)
  then show ?thesis using 1 2 by simp
qed

lemma recompute_offsets_vals:
  "snd ` set (recompute_offsets spec p) \<subseteq> snd ` set p \<union>
     {js_sub (js_add (csi spec) (soa spec))
        (js_add (obj_get p ''start_mov_1'') (obj_get p ''dur_mov_1'')),
      js_sub (js_add (csi spec) (soa spec))
        (js_add (obj_get p ''start_or_1'') (obj_get p ''dur_or_1''))}"
proof -
  define mv where "mv = js_sub (js_add (csi spec) (soa spec))
        (js_add (obj_get p ''start_mov_1'') (obj_get p ''dur_mov_1''))"
  define ov where "ov = js_sub (js_add (csi spec) (soa spec))
        (js_add (obj_get p ''start_or_1'') (obj_get p ''dur_or_1''))"
  define p1 where "p1 = (if js_gt0 (obj_get p ''dur_mov_2'') then obj_set p ''start_mov_2'' mv else p)"
  define p2 where "p2 = (if js_gt0 (obj_get p1 ''dur_or_2'') then obj_set p1 ''start_or_2'' ov else p1)"
  have 1: "snd ` set p1 \<subseteq> insert mv (snd ` set p)"
    unfolding p1_def using vals_obj_set [of p "''start_mov_2''" mv] by auto
  have 2: "snd ` set p2 \<subseteq> insert ov (snd ` set p1)"
    unfolding p2_def using vals_obj_set [of p1 "''start_or_2''" ov] by auto
  have 3: "snd ` set p2 \<subseteq> snd ` set p \<union> {mv, ov}" using 1 2 by blast
  have "recompute_offsets spec p = (if task2 spec \<noteq> Null then p2 else p)"
    unfolding recompute_offsets_def Let_def p2_def p1_def mv_def ov_def by (rule refl)
  then show ?thesis using 3 unfolding mv_def ov_def by auto
qed

lemma buildTimingParams_keys:
  "map fst (buildTimingParams spec) =
     [''start_1'', ''dur_1'', ''start_go_1'', ''dur_go_1'',
      ''start_mov_1'', ''dur_mov_1'', ''start_or_1'', ''dur_or_1'',
      ''start_2'', ''dur_2'', ''start_go_2'', ''dur_go_2'',
      ''start_mov_2'', ''dur_mov_2'', ''start_or_2'', ''dur_or_2'']"
  by (simp add: buildTimingParams_literal)

lemma buildTimingParams_vals:
  "snd ` set (buildTimingParams spec) \<subseteq>
     {Num 0, csi spec, dur_ch1 spec, dur_ch2 spec, responseWindow spec,
      js_add (csi spec) (dur_ch1 spec), js_add (csi spec) (soa spec),
      js_sub (soa spec) (dur_ch1 spec)}"
  by (auto simp add: buildTimingParams_literal)

lemma buildCoherenceParams_shape:
  assumes "task1 spec \<in> {Str ''mov'', Str ''or''}"
    and "task2 spec \<in> {Str ''mov'', Str ''or'', Null}"
    and "coherence spec = Some \<lparr>ch1_task = Num c1, ch1_distractor = Num c2,
                                 ch2_task = Num c3, ch2_distractor = Num c4\<rparr>"
  shows "\<exists>coh. buildCoherenceParams spec = Inr coh \<and> length coh = 4 \<and> distinct (map fst coh)
           \<and> fst ` set coh = {''coh_mov_1'', ''coh_or_1'', ''coh_mov_2'', ''coh_or_2''}
           \<and> (\<forall>v \<in> snd ` set coh. \<exists>r. v = Num r)"
  using assms by (auto simp: buildCoherenceParams_def assign_all_def)

lemma buildDirectionParams_shape:
  assumes "task1 spec \<in> {Str ''mov'', Str ''or''}"
    and "task2 spec \<in> {Str ''mov'', Str ''or'', Null}"
    and "dir spec = Some \<lparr>ch1_task = Num d1, ch1_distractor = Num d2,
                           ch2_task = Num d3, ch2_distractor = Num d4\<rparr>"
  shows "\<exists>dr. buildDirectionParams spec = Inr dr \<and> length dr = 4 \<and> distinct (map fst dr)
           \<and> fst ` set dr = {''dir_mov_1'', ''dir_or_1'', ''dir_mov_2'', ''dir_or_2''}
           \<and> (\<forall>v \<in> snd ` set dr. \<exists>r. v = Num r)"
  using assms by (auto simp: buildDirectionParams_def assign_all_def)

lemma literal_append:
  assumes "distinct (map fst coh)"
    and "fst ` set coh = {''coh_mov_1'', ''coh_or_1'', ''coh_mov_2'', ''coh_or_2''}"
    and "distinct (map fst dr)"
    and "fst ` set dr = {''dir_mov_1'', ''dir_or_1'', ''dir_mov_2'', ''dir_or_2''}"
  shows "spread (spread (spread [(''task_1'', t1), (''task_2'', t2)]
            (buildTimingParams spec)) coh) dr
         = [(''task_1'', t1), (''task_2'', t2)] @ buildTimingParams spec @ coh @ dr"
proof -
  have kt: "fst ` set (buildTimingParams spec) = set (map fst (buildTimingParams spec))"
    by simp
  have 1: "spread [(''task_1'', t1), (''task_2'', t2)] (buildTimingParams spec)
             = [(''task_1'', t1), (''task_2'', t2)] @ buildTimingParams spec"
    unfolding spread_def
  proof (rule assign_all_fresh)
    show "distinct (map fst (buildTimingParams spec))"
      unfolding buildTimingParams_keys by simp
    show "fst ` set (buildTimingParams spec) \<inter> fst ` set [(''task_1'', t1), (''task_2'', t2)] = {}"
      unfolding kt buildTimingParams_keys by simp
  qed
  have 2: "spread ([(''task_1'', t1), (''task_2'', t2)] @ buildTimingParams spec) coh
             = ([(''task_1'', t1), (''task_2'', t2)] @ buildTimingParams spec) @ coh"
    unfolding spread_def
  proof (rule assign_all_fresh [OF assms(1)])
    show "fst ` set coh \<inter> fst ` set ([(''task_1'', t1), (''task_2'', t2)] @ buildTimingParams spec) = {}"
      unfolding assms(2) set_append image_Un kt buildTimingParams_keys by simp
  qed
  have 3: "spread (([(''task_1'', t1), (''task_2'', t2)] @ buildTimingParams spec) @ coh) dr
             = (([(''task_1'', t1), (''task_2'', t2)] @ buildTimingParams spec) @ coh) @ dr"
    unfolding spread_def
  proof (rule assign_all_fresh [OF assms(3)])
    show "fst ` set dr \<inter> fst ` set (([(''task_1'', t1), (''task_2'', t2)]
             @ buildTimingParams spec) @ coh) = {}"
      unfolding assms(2) assms(4) set_append image_Un kt buildTimingParams_keys by simp
  qed
  have "spread (spread (spread [(''task_1'', t1), (''task_2'', t2)]
            (buildTimingParams spec)) coh) dr
        = spread (spread ([(''task_1'', t1), (''task_2'', t2)] @ buildTimingParams spec) coh) dr"
    by (simp only: 1)
  also have "\<dots> = spread (([(''task_1'', t1), (''task_2'', t2)] @ buildTimingParams spec) @ coh) dr"
    by (simp only: 2)
  also have "\<dots> = (([(''task_1'', t1), (''task_2'', t2)] @ buildTimingParams spec) @ coh) @ dr"
    by (rule 3)
  also have "\<dots> = [(''task_1'', t1), (''task_2'', t2)] @ buildTimingParams spec @ coh @ dr"
    by (simp only: append_assoc)
  finally show ?thesis .
qed


lemma fl_good: "fl x \<noteq> Undefined" "fl x \<noteq> NaN"
  by (simp_all add: fl_def Let_def)

lemma js_sub_fl_defined: "js_sub (fl x) (fl y) \<noteq> Undefined"
  using fl_cases [of x] fl_cases [of y] by (auto simp add: js_sub_def fl_good)

lemma js_sub_fl_number:
  assumes "(\<exists>e. fl x = Num e) \<or> (\<exists>e. fl y = Num e)"
  shows "js_sub (fl x) (fl y) \<noteq> NaN"
  using assms fl_cases [of x] fl_cases [of y] by (auto simp add: js_sub_def fl_good)

lemma params_vals:
  assumes "v \<in> snd ` set (recompute_offsets spec (silence p0))"
  shows "v \<in> snd ` set p0 \<or> v = Num 0
       \<or> v = js_sub (js_add (csi spec) (soa spec))
               (js_add (obj_get (silence p0) ''start_mov_1'') (obj_get (silence p0) ''dur_mov_1''))
       \<or> v = js_sub (js_add (csi spec) (soa spec))
               (js_add (obj_get (silence p0) ''start_or_1'') (obj_get (silence p0) ''dur_or_1''))"
  using assms recompute_offsets_vals [of spec "silence p0"] silence_vals [of p0] by blast

lemma shape_26:
  assumes "task1 spec \<in> {Str ''mov'', Str ''or''}"
    and "task2 spec \<in> {Str ''mov'', Str ''or'', Null}"
    and "coherence spec = Some \<lparr>ch1_task = Num c1, ch1_distractor = Num c2,
                                 ch2_task = Num c3, ch2_distractor = Num c4\<rparr>"
    and "dir spec = Some \<lparr>ch1_task = Num d1, ch1_distractor = Num d2,
                           ch2_task = Num d3, ch2_distractor = Num d4\<rparr>"
  shows "\<exists>params. buildTrialParams spec = Inr params \<and> length params = 26
           \<and> distinct (map fst params)"
proof -
  obtain coh where coh: "buildCoherenceParams spec = Inr coh \<and> length coh = 4
           \<and> distinct (map fst coh)
           \<and> fst ` set coh = {''coh_mov_1'', ''coh_or_1'', ''coh_mov_2'', ''coh_or_2''}
           \<and> (\<forall>v \<in> snd ` set coh. \<exists>r. v = Num r)"
    using buildCoherenceParams_shape [OF assms(1,2,3)] ..
  obtain dr where dr: "buildDirectionParams spec = Inr dr \<and> length dr = 4
           \<and> distinct (map fst dr)
           \<and> fst ` set dr = {''dir_mov_1'', ''dir_or_1'', ''dir_mov_2'', ''dir_or_2''}
           \<and> (\<forall>v \<in> snd ` set dr. \<exists>r. v = Num r)"
    using buildDirectionParams_shape [OF assms(1,2,4)] ..
  note c = coh [THEN conjunct1]
    and lc = coh [THEN conjunct2, THEN conjunct1]
    and dc = coh [THEN conjunct2, THEN conjunct2, THEN conjunct1]
    and kc = coh [THEN conjunct2, THEN conjunct2, THEN conjunct2, THEN conjunct1]
  note d = dr [THEN conjunct1]
    and ld = dr [THEN conjunct2, THEN conjunct1]
    and dd = dr [THEN conjunct2, THEN conjunct2, THEN conjunct1]
    and kd = dr [THEN conjunct2, THEN conjunct2, THEN conjunct2, THEN conjunct1]
  define p0 where "p0 = spread (spread (spread
                    [(''task_1'', task1 spec), (''task_2'', task2 spec)]
                    (buildTimingParams spec)) coh) dr"
  define p1 where "p1 = silence p0"
  define params where "params = recompute_offsets spec p1"
  have ret: "buildTrialParams spec = Inr params"
    by (simp add: buildTrialParams_def c d params_def p1_def p0_def)
  have lit: "p0 = [(''task_1'', task1 spec), (''task_2'', task2 spec)]
                    @ buildTimingParams spec @ coh @ dr"
    unfolding p0_def by (rule literal_append [OF dc kc dd kd])
  have keys0: "map fst p0 = [''task_1'', ''task_2''] @ map fst (buildTimingParams spec)
                  @ map fst coh @ map fst dr"
    by (simp add: lit)
  have len0: "length (map fst p0) = 26"
    unfolding keys0 buildTimingParams_keys by (simp add: lc ld)
  have dist0: "distinct (map fst p0)"
    unfolding keys0 buildTimingParams_keys distinct_append
    using dc dd by (simp add: kc kd)
  have sub0: "{''start_mov_1'', ''dur_mov_1'', ''start_or_1'', ''dur_or_1'',
               ''start_mov_2'', ''dur_mov_2'', ''start_or_2'', ''dur_or_2''} \<subseteq> fst ` set p0"
  proof -
    have "fst ` set p0 = set (map fst p0)" by simp
    then show ?thesis unfolding keys0 buildTimingParams_keys by simp
  qed
  have keys1: "map fst p1 = map fst p0"
    unfolding p1_def by (rule silence_keys [OF sub0])
  have sub1: "''start_mov_2'' \<in> fst ` set p1" "''start_or_2'' \<in> fst ` set p1"
  proof -
    have "fst ` set p1 = fst ` set p0" using keys1 by (metis list.set_map)
    then show "''start_mov_2'' \<in> fst ` set p1" "''start_or_2'' \<in> fst ` set p1"
      using sub0 by auto
  qed
  have keys: "map fst params = map fst p0"
    unfolding params_def using recompute_offsets_keys [OF sub1] keys1 by simp
  have "length params = length (map fst params)" by simp
  then have "length params = 26" using keys len0 by simp
  moreover have "distinct (map fst params)" using keys dist0 by simp
  ultimately show ?thesis using ret by blast
qed


text \<open>
  Claim C4, as the code has it. For \<open>task1\<close> one of \<open>mov\<close>, \<open>or\<close>, \<open>task2\<close> one of
  \<open>mov\<close>, \<open>or\<close>, \<open>null\<close>, and all timing, coherence and direction inputs present
  as (finite) numbers, \<^verbatim>\<open>buildTrialParams\<close> returns a record with exactly 26 fields
  (26 entries under 26 different keys), none of them \<open>undefined\<close>; and none of
  them is \<open>NaN\<close> provided that at least one of the sums \<open>csi + dur_ch1\<close> and
  \<open>csi + soa\<close> is finite in double arithmetic.
\<close>

theorem buildTrialParams_fields:
  assumes "task1 spec \<in> {Str ''mov'', Str ''or''}"
    and "task2 spec \<in> {Str ''mov'', Str ''or'', Null}"
    and "coherence spec = Some \<lparr>ch1_task = Num c1, ch1_distractor = Num c2,
                                 ch2_task = Num c3, ch2_distractor = Num c4\<rparr>"
    and "dir spec = Some \<lparr>ch1_task = Num d1, ch1_distractor = Num d2,
                           ch2_task = Num d3, ch2_distractor = Num d4\<rparr>"
    and "csi spec = Num c" and "dur_ch1 spec = Num d" and "dur_ch2 spec = Num d'"
    and "soa spec = Num s" and "responseWindow spec = Num w"
  shows "\<exists>params. buildTrialParams spec = Inr params \<and> length params = 26
           \<and> distinct (map fst params)
           \<and> (\<forall>kv \<in> set params. snd kv \<noteq> Undefined)
           \<and> ((\<exists>e. js_add (csi spec) (dur_ch1 spec) = Num e)
                \<or> (\<exists>e. js_add (csi spec) (soa spec) = Num e)
              \<longrightarrow> (\<forall>kv \<in> set params. snd kv \<noteq> NaN))"
proof -
  obtain coh where coh: "buildCoherenceParams spec = Inr coh \<and> length coh = 4
           \<and> distinct (map fst coh)
           \<and> fst ` set coh = {''coh_mov_1'', ''coh_or_1'', ''coh_mov_2'', ''coh_or_2''}
           \<and> (\<forall>v \<in> snd ` set coh. \<exists>r. v = Num r)"
    using buildCoherenceParams_shape [OF assms(1,2,3)] ..
  obtain dr where dr: "buildDirectionParams spec = Inr dr \<and> length dr = 4
           \<and> distinct (map fst dr)
           \<and> fst ` set dr = {''dir_mov_1'', ''dir_or_1'', ''dir_mov_2'', ''dir_or_2''}
           \<and> (\<forall>v \<in> snd ` set dr. \<exists>r. v = Num r)"
    using buildDirectionParams_shape [OF assms(1,2,4)] ..
  note c = coh [THEN conjunct1]
    and lc = coh [THEN conjunct2, THEN conjunct1]
    and dc = coh [THEN conjunct2, THEN conjunct2, THEN conjunct1]
    and kc = coh [THEN conjunct2, THEN conjunct2, THEN conjunct2, THEN conjunct1]
    and vc = coh [THEN conjunct2, THEN conjunct2, THEN conjunct2, THEN conjunct2]
  note d = dr [THEN conjunct1]
    and ld = dr [THEN conjunct2, THEN conjunct1]
    and dd = dr [THEN conjunct2, THEN conjunct2, THEN conjunct1]
    and kd = dr [THEN conjunct2, THEN conjunct2, THEN conjunct2, THEN conjunct1]
    and vd = dr [THEN conjunct2, THEN conjunct2, THEN conjunct2, THEN conjunct2]
  define p0 where "p0 = spread (spread (spread
                    [(''task_1'', task1 spec), (''task_2'', task2 spec)]
                    (buildTimingParams spec)) coh) dr"
  define p1 where "p1 = silence p0"
  define params where "params = recompute_offsets spec p1"
  have ret: "buildTrialParams spec = Inr params"
    by (simp add: buildTrialParams_def c d params_def p1_def p0_def)
  have lit: "p0 = [(''task_1'', task1 spec), (''task_2'', task2 spec)]
                    @ buildTimingParams spec @ coh @ dr"
    unfolding p0_def by (rule literal_append [OF dc kc dd kd])
  have keys0: "map fst p0 = [''task_1'', ''task_2''] @ map fst (buildTimingParams spec)
                  @ map fst coh @ map fst dr"
    by (simp add: lit)
  have len0: "length (map fst p0) = 26"
    unfolding keys0 buildTimingParams_keys by (simp add: lc ld)
  have dist0: "distinct (map fst p0)"
    unfolding keys0 buildTimingParams_keys distinct_append
    using dc dd by (simp add: kc kd)
  have sub0: "{''start_mov_1'', ''dur_mov_1'', ''start_or_1'', ''dur_or_1'',
               ''start_mov_2'', ''dur_mov_2'', ''start_or_2'', ''dur_or_2''} \<subseteq> fst ` set p0"
  proof -
    have "fst ` set p0 = set (map fst p0)" by simp
    then show ?thesis unfolding keys0 buildTimingParams_keys by simp
  qed
  have tv: "\<forall>v \<in> snd ` set (buildTimingParams spec). v \<noteq> Undefined \<and> v \<noteq> NaN"
  proof
    fix v assume "v \<in> snd ` set (buildTimingParams spec)"
    then have "v \<in> {Num 0, Num c, Num d, Num d', Num w, fl (c + d), fl (c + s), fl (s - d)}"
      using buildTimingParams_vals [of spec]
      by (auto simp add: assms(5-9) js_add_Num js_sub_Num)
    then show "v \<noteq> Undefined \<and> v \<noteq> NaN" by (auto simp add: fl_good)
  qed
  have vals0: "\<forall>v \<in> snd ` set p0. v \<noteq> Undefined \<and> v \<noteq> NaN"
  proof -
    have "task1 spec \<noteq> Undefined \<and> task1 spec \<noteq> NaN \<and> task2 spec \<noteq> Undefined \<and> task2 spec \<noteq> NaN"
      using assms(1,2) by auto
    moreover have "\<forall>v \<in> snd ` set coh. v \<noteq> Undefined \<and> v \<noteq> NaN" using vc by auto
    moreover have "\<forall>v \<in> snd ` set dr. v \<noteq> Undefined \<and> v \<noteq> NaN" using vd by auto
    ultimately show ?thesis using tv unfolding lit set_append image_Un by auto
  qed
  have keys1: "map fst p1 = map fst p0"
    unfolding p1_def by (rule silence_keys [OF sub0])
  have sub1: "''start_mov_2'' \<in> fst ` set p1" "''start_or_2'' \<in> fst ` set p1"
  proof -
    have "fst ` set p1 = fst ` set p0" using keys1 by (metis list.set_map)
    then show "''start_mov_2'' \<in> fst ` set p1" "''start_or_2'' \<in> fst ` set p1"
      using sub0 by auto
  qed
  have keys: "map fst params = map fst p0"
    unfolding params_def using recompute_offsets_keys [OF sub1] keys1 by simp
  have lit1: "obj_get p0 ''start_mov_1'' = Num c" "obj_get p0 ''dur_mov_1'' = Num d"
    "obj_get p0 ''start_or_1'' = Num c" "obj_get p0 ''dur_or_1'' = Num d"
    unfolding p0_def by (simp_all add: literal_timing [OF c d] timing_channel_1 assms(5,6))
  have zero: "js_add (Num 0) (Num 0) = fl 0" by (simp add: js_add_Num)
  have mov: "js_add (obj_get p1 ''start_mov_1'') (obj_get p1 ''dur_mov_1'') = fl 0
           \<or> js_add (obj_get p1 ''start_mov_1'') (obj_get p1 ''dur_mov_1'') = fl (c + d)"
    unfolding p1_def by (simp add: obj_get_silence_mov_1 lit1 zero js_add_Num)
  have orr: "js_add (obj_get p1 ''start_or_1'') (obj_get p1 ''dur_or_1'') = fl 0
           \<or> js_add (obj_get p1 ''start_or_1'') (obj_get p1 ''dur_or_1'') = fl (c + d)"
    unfolding p1_def by (simp add: obj_get_silence_or_1 lit1 zero js_add_Num)
  have desired: "js_add (csi spec) (soa spec) = fl (c + s)"
    by (simp add: assms(5,8) js_add_Num)
  have ends: "js_add (csi spec) (dur_ch1 spec) = fl (c + d)"
    by (simp add: assms(5,6) js_add_Num)
  have cases_v: "v \<in> snd ` set p0 \<or> v = Num 0
       \<or> v = js_sub (fl (c + s)) (fl 0) \<or> v = js_sub (fl (c + s)) (fl (c + d))"
    if "v \<in> snd ` set params" for v
    using params_vals [of v spec p0] that mov orr
    unfolding params_def p1_def [symmetric] desired by auto
  have defined: "\<forall>v \<in> snd ` set params. v \<noteq> Undefined"
  proof
    fix v assume "v \<in> snd ` set params"
    from cases_v [OF this] consider "v \<in> snd ` set p0" | "v = Num 0"
      | "v = js_sub (fl (c + s)) (fl 0)" | "v = js_sub (fl (c + s)) (fl (c + d))"
      by blast
    then show "v \<noteq> Undefined"
    proof cases
      case 1
      then show ?thesis using vals0 by blast
    next
      case 2
      then show ?thesis by simp
    next
      case 3
      then show ?thesis using js_sub_fl_defined [of "c + s" 0] by simp
    next
      case 4
      then show ?thesis using js_sub_fl_defined [of "c + s" "c + d"] by simp
    qed
  qed
  have number: "\<forall>v \<in> snd ` set params. v \<noteq> NaN"
    if fin: "(\<exists>e. fl (c + d) = Num e) \<or> (\<exists>e. fl (c + s) = Num e)"
  proof
    fix v assume "v \<in> snd ` set params"
    from cases_v [OF this] consider "v \<in> snd ` set p0" | "v = Num 0"
      | "v = js_sub (fl (c + s)) (fl 0)" | "v = js_sub (fl (c + s)) (fl (c + d))"
      by blast
    then show "v \<noteq> NaN"
    proof cases
      case 1
      then show ?thesis using vals0 by blast
    next
      case 2
      then show ?thesis by simp
    next
      case 3
      have "js_sub (fl (c + s)) (fl 0) \<noteq> NaN"
        by (rule js_sub_fl_number) (simp add: fl_zero)
      with 3 show ?thesis by simp
    next
      case 4
      have "js_sub (fl (c + s)) (fl (c + d)) \<noteq> NaN"
        by (rule js_sub_fl_number) (use fin in blast)
      with 4 show ?thesis by simp
    qed
  qed
  have "length params = length (map fst params)" by simp
  then have "length params = 26" using keys len0 by simp
  moreover have "distinct (map fst params)" using keys dist0 by simp
  moreover have "\<forall>kv \<in> set params. snd kv \<noteq> Undefined"
  proof
    fix kv assume "kv \<in> set params"
    then have "snd kv \<in> snd ` set params" by (rule imageI)
    then show "snd kv \<noteq> Undefined" using defined by blast
  qed
  moreover have "(\<exists>e. js_add (csi spec) (dur_ch1 spec) = Num e)
                \<or> (\<exists>e. js_add (csi spec) (soa spec) = Num e)
              \<longrightarrow> (\<forall>kv \<in> set params. snd kv \<noteq> NaN)"
  proof (intro impI ballI)
    fix kv
    assume "(\<exists>e. js_add (csi spec) (dur_ch1 spec) = Num e)
              \<or> (\<exists>e. js_add (csi spec) (soa spec) = Num e)"
    then have fin: "(\<exists>e. fl (c + d) = Num e) \<or> (\<exists>e. fl (c + s) = Num e)"
      unfolding desired ends .
    assume "kv \<in> set params"
    then have "snd kv \<in> snd ` set params" by (rule imageI)
    then show "snd kv \<noteq> NaN" using number [OF fin] by blast
  qed
  ultimately show ?thesis using ret by blast
qed

theorem buildTrialParams_fields_witness:
  "task1 dualBivalentSpec \<in> {Str ''mov'', Str ''or''}
   \<and> task2 dualBivalentSpec \<in> {Str ''mov'', Str ''or'', Null}
   \<and> coherence dualBivalentSpec
       = Some \<lparr>ch1_task = Num (3602879701896397 / 4503599627370496),
                ch1_distractor = Num (3602879701896397 / 4503599627370496),
                ch2_task = Num (5404319552844595 / 9007199254740992), ch2_distractor = Num 0\<rparr>
   \<and> dir dualBivalentSpec = Some \<lparr>ch1_task = Num 180, ch1_distractor = Num 180,
                                      ch2_task = Num 0, ch2_distractor = Num 0\<rparr>
   \<and> csi dualBivalentSpec = Num 200 \<and> dur_ch1 dualBivalentSpec = Num 300
   \<and> dur_ch2 dualBivalentSpec = Num 300 \<and> soa dualBivalentSpec = Num 100
   \<and> responseWindow dualBivalentSpec = Num 2000
   \<and> js_add (csi dualBivalentSpec) (dur_ch1 dualBivalentSpec) = Num 500
   \<and> (\<exists>params. buildTrialParams dualBivalentSpec = Inr params \<and> length params = 26
           \<and> distinct (map fst params)
           \<and> (\<forall>kv \<in> set params. snd kv \<noteq> Undefined)
           \<and> (\<forall>kv \<in> set params. snd kv \<noteq> NaN))"
proof -
  have h1: "task1 dualBivalentSpec \<in> {Str ''mov'', Str ''or''}"
    and h2: "task2 dualBivalentSpec \<in> {Str ''mov'', Str ''or'', Null}"
    and h3: "coherence dualBivalentSpec
       = Some \<lparr>ch1_task = Num (3602879701896397 / 4503599627370496),
                ch1_distractor = Num (3602879701896397 / 4503599627370496),
                ch2_task = Num (5404319552844595 / 9007199254740992), ch2_distractor = Num 0\<rparr>"
    and h4: "dir dualBivalentSpec = Some \<lparr>ch1_task = Num 180, ch1_distractor = Num 180,
                                            ch2_task = Num 0, ch2_distractor = Num 0\<rparr>"
    and h5: "csi dualBivalentSpec = Num 200" and h6: "dur_ch1 dualBivalentSpec = Num 300"
    and h7: "dur_ch2 dualBivalentSpec = Num 300" and h8: "soa dualBivalentSpec = Num 100"
    and h9: "responseWindow dualBivalentSpec = Num 2000"
    by (simp_all add: dualBivalentSpec_def fl_08 fl_06)
  have f: "js_add (csi dualBivalentSpec) (dur_ch1 dualBivalentSpec) = Num 500"
    by (simp add: h5 h6 js_eval)
  then have g: "(\<exists>e. js_add (csi dualBivalentSpec) (dur_ch1 dualBivalentSpec) = Num e)
                \<or> (\<exists>e. js_add (csi dualBivalentSpec) (soa dualBivalentSpec) = Num e)"
    by blast
  show ?thesis
    using h1 h2 h3 h4 h5 h6 h7 h8 h9 f g
      buildTrialParams_fields [OF h1 h2 h3 h4 h5 h6 h7 h8 h9] by blast
qed


lemma fl_overflow_sum: "fl (2 ^ 1023 + 2 ^ 1023) = PosInf"
proof (rule fl_overflow)
  have "(2::real) powi 1024 = 2 powi 1023 * 2 powi 1" using pw_add [of 1023 1] by simp
  then show "(2::real) powi 1024 \<le> 2 ^ 1023 + 2 ^ 1023" by simp
qed

lemma overflowSpec_fields:
  "\<exists>params. buildTrialParams overflowSpec = Inr params \<and> length params = 26
     \<and> obj_get params ''start_or_1'' = Num (2 ^ 1023)
     \<and> obj_get params ''dur_or_1'' = Num (2 ^ 1023)
     \<and> js_gt0 (obj_get params ''dur_or_2'')
     \<and> obj_get params ''start_or_2'' = NaN"
proof -
  define h :: real where "h = 2 ^ 1023"
  define spec where "spec =
     \<lparr>task1 = Str ''mov'', task2 = Str ''or'', csi = Num h, dur_ch1 = Num h,
      dur_ch2 = Num 300, soa = Num h, responseWindow = Num 2000,
      coherence = Some \<lparr>ch1_task = Num 1, ch1_distractor = Num 1,
                         ch2_task = Num 1, ch2_distractor = Num 0\<rparr>,
      dir = Some \<lparr>ch1_task = Num 180, ch1_distractor = Num 180,
                   ch2_task = Num 0, ch2_distractor = Num 0\<rparr>\<rparr>"
  have spec: "overflowSpec = spec" unfolding overflowSpec_def spec_def h_def ..
  have hs: "task1 spec \<in> {Str ''mov'', Str ''or''}"
    "task2 spec \<in> {Str ''mov'', Str ''or'', Null}"
    "coherence spec = Some \<lparr>ch1_task = Num 1, ch1_distractor = Num 1,
                         ch2_task = Num 1, ch2_distractor = Num 0\<rparr>"
    "dir spec = Some \<lparr>ch1_task = Num 180, ch1_distractor = Num 180,
                   ch2_task = Num 0, ch2_distractor = Num 0\<rparr>"
    by (simp_all add: spec_def)
  obtain params where ret: "buildTrialParams spec = Inr params" and len: "length params = 26"
    using shape_26 [OF hs] by blast
  obtain coh dr where c: "buildCoherenceParams spec = Inr coh"
    and d: "buildDirectionParams spec = Inr dr"
    and p: "params = recompute_offsets spec (silence
                 (spread (spread (spread
                    [(''task_1'', task1 spec), (''task_2'', task2 spec)]
                    (buildTimingParams spec)) coh) dr))"
    using ret by (rule buildTrialParams_phases)
  have cv: "coh = [(''coh_mov_1'', Num 1), (''coh_or_1'', Num 1),
                   (''coh_or_2'', Num 1), (''coh_mov_2'', Num 0)]"
    using c by (simp add: spec_def buildCoherenceParams_def assign_all_def)
  have dv: "dr = [(''dir_mov_1'', Num 180), (''dir_or_1'', Num 180),
                  (''dir_or_2'', Num 0), (''dir_mov_2'', Num 0)]"
    using d by (simp add: spec_def buildDirectionParams_def assign_all_def)
  have c1: "obj_get params ''coh_or_1'' = Num 1" and c2: "obj_get params ''coh_or_2'' = Num 1"
    unfolding p cv dv
    by (simp_all add: obj_get_recompute_other obj_get_silence_coh spread_def assign_all_def
          obj_get_obj_set)
  have t: "task2 spec \<noteq> Null" "csi spec = Num h" "dur_ch1 spec = Num h" "soa spec = Num h"
    "dur_ch2 spec = Num 300"
    by (simp_all add: spec_def)
  note pf = pathway_fields [OF ret]
  have s1: "obj_get params ''start_or_1'' = Num h"
    using pf(3) by (simp add: c1 t)
  have d1: "obj_get params ''dur_or_1'' = Num h"
    using pf(4) by (simp add: c1 t)
  have d2: "obj_get params ''dur_or_2'' = Num 300"
    using pf(7) by (simp add: c2 t)
  have "obj_get params ''start_or_2''
      = js_sub (js_add (Num h) (Num h)) (js_add (Num h) (Num h))"
    using pf(8) by (simp add: c2 t s1 d1)
  also have "js_add (Num h) (Num h) = PosInf"
    unfolding js_add_Num h_def by (rule fl_overflow_sum)
  also have "js_sub PosInf PosInf = NaN" by (simp add: js_sub_def)
  finally have s2: "obj_get params ''start_or_2'' = NaN" .
  have "js_gt0 (obj_get params ''dur_or_2'')" by (simp add: d2)
  then show ?thesis using ret len s1 d1 s2 unfolding spec h_def [symmetric] by blast
qed

text \<open>
  Against claim C4 as stated: with \<open>csi\<close>, \<open>dur_ch1\<close> and \<open>soa\<close> all \<open>2\<^sup>1\<^sup>0\<^sup>2\<^sup>3\<close>, a
  double, and both orientation pathways active, the end of the channel-1
  pathway and the desired start both overflow to \<open>+\<infinity>\<close>, and the recomputed
  offset \<^verbatim>\<open>start_or_2\<close>, their difference, is \<open>NaN\<close>.
\<close>

theorem buildTrialParams_nan_counterexample:
  "task1 overflowSpec = Str ''mov'' \<and> task2 overflowSpec = Str ''or''
   \<and> csi overflowSpec = Num (2 ^ 1023) \<and> dur_ch1 overflowSpec = Num (2 ^ 1023)
   \<and> soa overflowSpec = Num (2 ^ 1023) \<and> is_double (2 ^ 1023)
   \<and> (\<exists>params. buildTrialParams overflowSpec = Inr params \<and> length params = 26
         \<and> obj_get params ''start_or_2'' = NaN)"
proof -
  have "is_double (2 ^ 1023)"
    unfolding is_double_def by (rule fl_repr [of _ 1 1023]) simp_all
  moreover have "task1 overflowSpec = Str ''mov''" "task2 overflowSpec = Str ''or''"
    "csi overflowSpec = Num (2 ^ 1023)" "dur_ch1 overflowSpec = Num (2 ^ 1023)"
    "soa overflowSpec = Num (2 ^ 1023)"
    unfolding overflowSpec_def by (simp_all only: TrialSpec.simps)
  ultimately show ?thesis using overflowSpec_fields by blast
qed

text \<open>
  Claim C3. The specification asks \<^verbatim>\<open>buildTrialParams\<close> to fail when a direction
  it needs is absent. The engine does not: for the single-task spec of the tests
  with the channel-1 task direction missing it returns the full record of 26
  fields, with \<open>dir_mov_1\<close> \<open>undefined\<close>. The draft of the function kept in the
  same file does raise on a missing first direction.
\<close>

theorem buildTrialParams_missing_direction:
  "(\<exists>params.
      buildTrialParams (singleSpec\<lparr>dir := Some \<lparr>ch1_task = Undefined, ch1_distractor = Num 0,
                                                  ch2_task = Num 0, ch2_distractor = Num 0\<rparr>\<rparr>)
        = Inr params
      \<and> length params = 26 \<and> obj_get params ''dir_mov_1'' = Undefined)
   \<and> buildTrialParams_draft (Str ''mov'') 300 200 Undefined = Inl DirectionRequired"
  by (simp add: singleSpec_def builder_eval js_eval buildTrialParams_draft_def)

subsection \<open>Congruency sequence generator\<close>

lemma shuffle_step_length:
  assumes "0 \<le> rnd k" "rnd k < 1" "i < length s"
  shows "length (fst (shuffle_step rnd i (s, k))) = length s
       \<and> snd (shuffle_step rnd i (s, k)) = Suc k"
proof -
  let ?j = "\<lfloor>rnd k * (real i + 1)\<rfloor>"
  have "0 \<le> \<lfloor>rnd k * real (Suc i)\<rfloor> \<and> \<lfloor>rnd k * real (Suc i)\<rfloor> < int (Suc i)"
    by (rule floor_index_in_range [OF assms(1,2)]) simp
  then have j: "0 \<le> ?j" "?j < int (length s)"
    using assms(3) by (simp_all add: add.commute)
  have "length (js_set (js_set s (int i) (js_nth s ?j)) ?j (js_nth s (int i))) = length s"
    using j assms(3) by (simp add: js_set_def)
  then show ?thesis by (simp add: shuffle_step_def Let_def)
qed

lemma shuffle_length:
  assumes "unit_range rnd"
  shows "m \<le> length s
     \<Longrightarrow> length (fst (fold (shuffle_step rnd) (rev [1..<m]) (s, k))) = length s"
proof (induction m arbitrary: s k)
  case 0
  show ?case by simp
next
  case (Suc m)
  show ?case
  proof (cases "m = 0")
    case True
    then show ?thesis by simp
  next
    case False
    then have r: "rev [1..<Suc m] = m # rev [1..<m]" by simp
    obtain s' where st: "shuffle_step rnd m (s, k) = (s', Suc k)" and l: "length s' = length s"
    proof -
      have "m < length s" using Suc.prems by simp
      then have "length (fst (shuffle_step rnd m (s, k))) = length s
             \<and> snd (shuffle_step rnd m (s, k)) = Suc k"
        using unit_rangeD [OF assms, of k] by (intro shuffle_step_length) simp_all
      then show ?thesis using that [of "fst (shuffle_step rnd m (s, k))"]
        by (metis prod.collapse)
    qed
    have "m \<le> length s'" using Suc.prems l by simp
    then have "length (fst (fold (shuffle_step rnd) (rev [1..<m]) (s', Suc k))) = length s'"
      by (rule Suc.IH)
    then show ?thesis unfolding r by (simp add: st l)
  qed
qed

lemma shuffle_length_all:
  assumes "unit_range rnd"
  shows "length (fst (fold (shuffle_step rnd) (rev [1..<length s]) (s, k))) = length s"
  by (rule shuffle_length [OF assms]) simp

lemma generateCongruencySequence_Inr:
  assumes "fold (count_step n cs ps) [0..<length cs] (Inr ([], Num 0)) = Inr (s, a)"
  shows "generateCongruencySequence n cs ps rnd k
           = Inr (fold (shuffle_step rnd) (rev [1..<length s]) (s, k))"
  by (simp add: generateCongruencySequence_def assms Let_def)

lemmas count_eval = count_step_def push_times_def math_round_def js_nth_def Let_def
  js_arith fl_small

lemma overshoot_counts:
  "fold (count_step 2 [''congruent'', ''incongruent'', ''neutral'', ''univalent'']
               [1 / 4, 1 / 4, 1 / 4, 1 / 4])
          [0..<length [''congruent'', ''incongruent'', ''neutral'', ''univalent'']]
          (Inr ([], Num 0))
     = Inr ([Str ''congruent'', Str ''incongruent'', Str ''neutral''], Num 2)"
proof -
  have u: "[0..<length [''congruent'', ''incongruent'', ''neutral'', ''univalent'']] = [0, 1, 2, 3]"
    by (simp add: upt_rec)
  show ?thesis unfolding u by (simp add: count_eval)
qed

lemma shuffle_step_mset:
  assumes "0 \<le> rnd k" "rnd k < 1" "i < length s"
  shows "mset (fst (shuffle_step rnd i (s, k))) = mset s"
proof -
  let ?j = "\<lfloor>rnd k * (real i + 1)\<rfloor>"
  have "0 \<le> \<lfloor>rnd k * real (Suc i)\<rfloor> \<and> \<lfloor>rnd k * real (Suc i)\<rfloor> < int (Suc i)"
    by (rule floor_index_in_range [OF assms(1,2)]) simp
  then have j: "0 \<le> ?j" "?j < int (length s)"
    using assms(3) by (simp_all add: add.commute)
  then have nj: "nat ?j < length s" by linarith
  have "js_set (js_set s (int i) (js_nth s ?j)) ?j (js_nth s (int i))
          = s[i := s ! nat ?j, nat ?j := s ! i]"
    using j assms(3) by (simp add: js_set_def js_nth_def)
  moreover have "mset (s[i := s ! nat ?j, nat ?j := s ! i]) = mset s"
    using nj assms(3) by (rule mset_swap)
  ultimately show ?thesis by (simp add: shuffle_step_def Let_def)
qed

lemma shuffle_mset:
  assumes "unit_range rnd"
  shows "m \<le> length s
     \<Longrightarrow> mset (fst (fold (shuffle_step rnd) (rev [1..<m]) (s, k))) = mset s"
proof (induction m arbitrary: s k)
  case 0
  show ?case by simp
next
  case (Suc m)
  show ?case
  proof (cases "m = 0")
    case True
    then show ?thesis by simp
  next
    case False
    then have r: "rev [1..<Suc m] = m # rev [1..<m]" by simp
    have m: "m < length s" using Suc.prems by simp
    define s' where "s' = fst (shuffle_step rnd m (s, k))"
    have st: "shuffle_step rnd m (s, k) = (s', Suc k)"
      using shuffle_step_length [of rnd k m s] unit_rangeD [OF assms, of k] m
      unfolding s'_def by (metis prod.collapse)
    have l: "length s' = length s"
      using shuffle_step_length [of rnd k m s] unit_rangeD [OF assms, of k] m
      unfolding s'_def by simp
    have ms: "mset s' = mset s"
      unfolding s'_def using unit_rangeD [OF assms, of k] m by (intro shuffle_step_mset) simp_all
    have "m \<le> length s'" using Suc.prems l by simp
    then have "mset (fst (fold (shuffle_step rnd) (rev [1..<m]) (s', Suc k))) = mset s'"
      by (rule Suc.IH)
    then show ?thesis unfolding r by (simp add: st ms)
  qed
qed

lemma even_split_counts:
  "fold (count_step 120 [''congruent'', ''incongruent''] [1 / 2, 1 / 2])
          [0..<length [''congruent'', ''incongruent'']] (Inr ([], Num 0))
     = Inr (replicate 60 (Str ''congruent'') @ replicate 60 (Str ''incongruent''), Num 120)"
proof -
  have u: "[0..<length [''congruent'', ''incongruent'']] = [0, 1]"
    by (simp add: upt_rec)
  have r: "\<lfloor>60 + 1 / 2 :: real\<rfloor> = 60" by simp
  show ?thesis unfolding u by (simp add: count_eval r)
qed

text \<open>
  Claim C5. The documented length of the congruency sequence is \<open>numTrials\<close>, the
  last condition taking the remainder. When the rounded counts of the earlier
  conditions already exceed \<open>numTrials\<close> the remainder is negative, nothing is
  pushed for the last condition and the sequence is too long: with four
  conditions of proportion 0.25 each and \<open>numTrials = 2\<close>, each of the first three
  gets \<open>round(0.5) = 1\<close> and the function returns 3 labels, for every outcome of
  the shuffle. The example of the claim does hold: two conditions of proportion
  0.5 over 120 trials give 120 labels, 60 of each.
\<close>

theorem generateCongruencySequence_overshoot:
  assumes "unit_range rnd"
  shows "(\<exists>sequence k'. generateCongruencySequence 2
                        [''congruent'', ''incongruent'', ''neutral'', ''univalent'']
                        [1 / 4, 1 / 4, 1 / 4, 1 / 4] rnd k = Inr (sequence, k')
            \<and> length sequence = 3)
       \<and> (\<exists>sequence k'. generateCongruencySequence 120 [''congruent'', ''incongruent'']
                        [1 / 2, 1 / 2] rnd k = Inr (sequence, k')
            \<and> length sequence = 120
            \<and> count_list sequence (Str ''congruent'') = 60
            \<and> count_list sequence (Str ''incongruent'') = 60)"
proof (rule conjI)
  define s3 where "s3 = [Str ''congruent'', Str ''incongruent'', Str ''neutral'']"
  define r3 where "r3 = fold (shuffle_step rnd) (rev [1..<length s3]) (s3, k)"
  have "generateCongruencySequence 2
                        [''congruent'', ''incongruent'', ''neutral'', ''univalent'']
                        [1 / 4, 1 / 4, 1 / 4, 1 / 4] rnd k = Inr r3"
    unfolding r3_def s3_def by (rule generateCongruencySequence_Inr [OF overshoot_counts])
  then have "generateCongruencySequence 2
                        [''congruent'', ''incongruent'', ''neutral'', ''univalent'']
                        [1 / 4, 1 / 4, 1 / 4, 1 / 4] rnd k = Inr (fst r3, snd r3)"
    by simp
  moreover have "length (fst r3) = 3"
    unfolding r3_def shuffle_length_all [OF assms] by (simp add: s3_def)
  ultimately show "\<exists>sequence k'. generateCongruencySequence 2
                        [''congruent'', ''incongruent'', ''neutral'', ''univalent'']
                        [1 / 4, 1 / 4, 1 / 4, 1 / 4] rnd k = Inr (sequence, k')
            \<and> length sequence = 3"
    by blast
next
  define s where "s = replicate 60 (Str ''congruent'') @ replicate 60 (Str ''incongruent'')"
  define r where "r = fold (shuffle_step rnd) (rev [1..<length s]) (s, k)"
  have "generateCongruencySequence 120 [''congruent'', ''incongruent''] [1 / 2, 1 / 2] rnd k
          = Inr r"
    unfolding r_def s_def by (rule generateCongruencySequence_Inr [OF even_split_counts])
  then have g: "generateCongruencySequence 120 [''congruent'', ''incongruent'']
                  [1 / 2, 1 / 2] rnd k = Inr (fst r, snd r)"
    by simp
  have l: "length (fst r) = 120"
    unfolding r_def shuffle_length_all [OF assms] by (simp add: s_def)
  have m: "mset (fst r) = mset s"
    unfolding r_def by (rule shuffle_mset [OF assms]) simp
  have c: "count_list (fst r) x = count (mset s) x" for x
    unfolding m [symmetric] by (simp add: count_mset)
  have "count_list (fst r) (Str ''congruent'') = 60"
    and "count_list (fst r) (Str ''incongruent'') = 60"
    unfolding c by (simp_all add: s_def)
  with g l show "\<exists>sequence k'. generateCongruencySequence 120 [''congruent'', ''incongruent'']
                        [1 / 2, 1 / 2] rnd k = Inr (sequence, k')
            \<and> length sequence = 120
            \<and> count_list sequence (Str ''congruent'') = 60
            \<and> count_list sequence (Str ''incongruent'') = 60"
    by blast
qed

theorem generateCongruencySequence_overshoot_witness:
  "unit_range half
   \<and> (\<exists>sequence k'. generateCongruencySequence 2
                    [''congruent'', ''incongruent'', ''neutral'', ''univalent'']
                    [1 / 4, 1 / 4, 1 / 4, 1 / 4] half 0 = Inr (sequence, k')
         \<and> length sequence = 3)"
proof -
  have h: "unit_range half" by (simp add: unit_range_def half_def)
  show ?thesis using h generateCongruencySequence_overshoot [OF h, of 0] by blast
qed

subsection \<open>Block trial orchestrator\<close>

lemma buildTrialParams_tasks:
  assumes "buildTrialParams spec = Inr params"
  shows "obj_get params ''task_1'' = task1 spec \<and> obj_get params ''task_2'' = task2 spec"
proof -
  obtain coh dr where c: "buildCoherenceParams spec = Inr coh"
    and d: "buildDirectionParams spec = Inr dr"
    and p: "params = recompute_offsets spec (silence
                 (spread (spread (spread
                    [(''task_1'', task1 spec), (''task_2'', task2 spec)]
                    (buildTimingParams spec)) coh) dr))"
    using assms by (rule buildTrialParams_phases)
  have kt: "fst ` set (buildTimingParams spec) = set (map fst (buildTimingParams spec))"
    by simp
  have other: "obj_get (spread (spread (spread
                    [(''task_1'', task1 spec), (''task_2'', task2 spec)]
                    (buildTimingParams spec)) coh) dr) k
        = obj_get [(''task_1'', task1 spec), (''task_2'', task2 spec)] k"
    if "k \<in> {''task_1'', ''task_2''}" for k
  proof -
    have "k \<notin> fst ` set coh" using that buildCoherenceParams_keys [OF c] by auto
    moreover have "k \<notin> fst ` set dr" using that buildDirectionParams_keys [OF d] by auto
    moreover have "k \<notin> fst ` set (buildTimingParams spec)"
      unfolding kt buildTimingParams_keys using that by auto
    ultimately show ?thesis
      unfolding spread_def by (simp add: obj_get_assign_all_other)
  qed
  have "obj_get params ''task_1'' = obj_get [(''task_1'', task1 spec), (''task_2'', task2 spec)] ''task_1''"
    unfolding p by (simp add: obj_get_recompute_other obj_get_silence_other other)
  moreover have "obj_get params ''task_2'' = obj_get [(''task_1'', task1 spec), (''task_2'', task2 spec)] ''task_2''"
    unfolding p by (simp add: obj_get_recompute_other obj_get_silence_other other)
  ultimately show ?thesis by (simp add: obj_get_def)
qed

lemma trialMeta_fields:
  "obj_get (trialMeta cfg i t1 t2 tr cg pc si ss d) ''task'' = t1"
  "obj_get (trialMeta cfg i t1 t2 tr cg pc si ss d) ''task2'' = t2"
  "obj_get (trialMeta cfg i t1 t2 tr cg pc si ss d) ''soa'' = ss"
  by (simp_all add: trialMeta_def obj_get_def)

lemma assembleTrial_Inr:
  assumes "assembleTrial cfg ts tr cs rnd i k = Inr (t, k')"
  obtains si k1 ss k2 d where
    "sampleFromDistribution (iti cfg) rnd k = Inr (si, k1)"
    "(if paradigm cfg = ''dual-task'' then sampleFromDistribution (cfg_soa cfg) rnd k1
      else Inr (Null, k1)) = Inr (ss, k2)"
    "buildTrialParams (trialSpec cfg (js_nth ts (int i))
        (if paradigm cfg = ''dual-task'' then switchTask (js_nth ts (int i)) else Null) ss d)
       = Inr (seParams t)"
    "meta t = trialMeta cfg i (js_nth ts (int i))
        (if paradigm cfg = ''dual-task'' then switchTask (js_nth ts (int i)) else Null)
        (js_nth tr (int i)) (js_nth cs (int i))
        (if i > 0 then js_nth cs (int i - 1) else Null) si ss d"
proof -
  from assms obtain iti_k where 1: "sampleFromDistribution (iti cfg) rnd k = Inr iti_k"
    by (cases "sampleFromDistribution (iti cfg) rnd k") (simp_all add: assembleTrial_def Let_def)
  from assms 1 obtain soa_k where 2: "(if paradigm cfg = ''dual-task''
        then sampleFromDistribution (cfg_soa cfg) rnd (snd iti_k)
        else Inr (Null, snd iti_k)) = Inr soa_k"
    by (cases "if paradigm cfg = ''dual-task''
        then sampleFromDistribution (cfg_soa cfg) rnd (snd iti_k)
        else Inr (Null, snd iti_k)") (simp_all add: assembleTrial_def Let_def)
  define d where "d = fst (assignDirections (js_nth ts (int i)) (js_nth cs (int i))
                       (paradigm cfg) (rso cfg) rnd (snd soa_k))"
  define t2 where "t2 = (if paradigm cfg = ''dual-task'' then switchTask (js_nth ts (int i)) else Null)"
  from assms 1 2 obtain se where 3: "buildTrialParams (trialSpec cfg (js_nth ts (int i)) t2
        (fst soa_k) d) = Inr se"
    by (cases "buildTrialParams (trialSpec cfg (js_nth ts (int i)) t2 (fst soa_k) d)")
       (simp_all add: assembleTrial_def Let_def d_def t2_def)
  from assms 1 2 3 have t: "t = \<lparr>seParams = se,
      meta = trialMeta cfg i (js_nth ts (int i)) t2 (js_nth tr (int i)) (js_nth cs (int i))
               (if i > 0 then js_nth cs (int i - 1) else Null) (fst iti_k) (fst soa_k) d\<rparr>"
    by (simp add: assembleTrial_def Let_def d_def t2_def)
  show ?thesis
  proof (rule that [of "fst iti_k" "snd iti_k" "fst soa_k" "snd soa_k" d])
    show "sampleFromDistribution (iti cfg) rnd k = Inr (fst iti_k, snd iti_k)" using 1 by simp
    show "(if paradigm cfg = ''dual-task''
           then sampleFromDistribution (cfg_soa cfg) rnd (snd iti_k)
           else Inr (Null, snd iti_k)) = Inr (fst soa_k, snd soa_k)" using 2 by simp
    show "buildTrialParams (trialSpec cfg (js_nth ts (int i))
        (if paradigm cfg = ''dual-task'' then switchTask (js_nth ts (int i)) else Null)
        (fst soa_k) d) = Inr (seParams t)"
      using 3 by (simp add: t t2_def)
    show "meta t = trialMeta cfg i (js_nth ts (int i))
        (if paradigm cfg = ''dual-task'' then switchTask (js_nth ts (int i)) else Null)
        (js_nth tr (int i)) (js_nth cs (int i))
        (if i > 0 then js_nth cs (int i - 1) else Null) (fst iti_k) (fst soa_k) d"
      by (simp add: t t2_def)
  qed
qed

lemma assembleTrials_invariant:
  assumes step: "\<And>i k t k1. assembleTrial cfg ts tr cs rnd i k = Inr (t, k1) \<Longrightarrow> P t"
  shows "assembleTrials cfg ts tr cs rnd idxs acc k = Inr (trials, k')
     \<Longrightarrow> \<forall>t \<in> set acc. P t
     \<Longrightarrow> (\<forall>t \<in> set trials. P t) \<and> length trials = length acc + length idxs"
proof (induction idxs arbitrary: acc k)
  case Nil
  then show ?case by simp
next
  case (Cons i idxs)
  from Cons.prems(1) obtain tk where
    1: "assembleTrial cfg ts tr cs rnd i k = Inr tk"
    by (cases "assembleTrial cfg ts tr cs rnd i k") simp_all
  then have 2: "assembleTrials cfg ts tr cs rnd idxs (acc @ [fst tk]) (snd tk) = Inr (trials, k')"
    using Cons.prems(1) by simp
  have "P (fst tk)" using step [of i k "fst tk" "snd tk"] 1 by simp
  then have "\<forall>t \<in> set (acc @ [fst tk]). P t" using Cons.prems(2) by simp
  then have "(\<forall>t \<in> set trials. P t) \<and> length trials = length (acc @ [fst tk]) + length idxs"
    by (rule Cons.IH [OF 2])
  then show ?case by simp
qed

lemma assembleTrial_props:
  assumes "assembleTrial cfg ts tr cs rnd i k = Inr (t, k')" and "unit_range rnd"
  shows "obj_get (seParams t) ''task_1'' = obj_get (meta t) ''task''
       \<and> (paradigm cfg = ''dual-task'' \<longrightarrow>
            obj_get (meta t) ''task2'' = switchTask (obj_get (meta t) ''task'')
          \<and> obj_get (seParams t) ''task_2'' = switchTask (obj_get (seParams t) ''task_1'')
          \<and> (\<forall>ps. dist_type (cfg_soa cfg) = ''choice'' \<and> dist_params (cfg_soa cfg) = Some ps
                    \<and> ps \<noteq> []
                \<longrightarrow> (\<exists>x \<in> set ps. obj_get (meta t) ''soa'' = Num x))
          \<and> (dist_type (cfg_soa cfg) = ''choice''
                \<and> (dist_params (cfg_soa cfg) = None \<or> dist_params (cfg_soa cfg) = Some [])
                \<longrightarrow> obj_get (meta t) ''soa'' = Num (dist_value (cfg_soa cfg))))
       \<and> (paradigm cfg \<noteq> ''dual-task'' \<longrightarrow>
            obj_get (meta t) ''task2'' = Null \<and> obj_get (seParams t) ''task_2'' = Null
          \<and> obj_get (meta t) ''soa'' = Null)"
proof -
  define t2 where "t2 = (if paradigm cfg = ''dual-task'' then switchTask (js_nth ts (int i)) else Null)"
  obtain si k1 ss k2 d where
    smp: "(if paradigm cfg = ''dual-task'' then sampleFromDistribution (cfg_soa cfg) rnd k1
           else Inr (Null, k1)) = Inr (ss, k2)"
    and bld: "buildTrialParams (trialSpec cfg (js_nth ts (int i)) t2 ss d) = Inr (seParams t)"
    and mt: "meta t = trialMeta cfg i (js_nth ts (int i)) t2
        (js_nth tr (int i)) (js_nth cs (int i))
        (if i > 0 then js_nth cs (int i - 1) else Null) si ss d"
    using assembleTrial_Inr [OF assms(1)] unfolding t2_def by metis
  have se: "obj_get (seParams t) ''task_1'' = js_nth ts (int i)"
           "obj_get (seParams t) ''task_2'' = t2"
    using buildTrialParams_tasks [OF bld] by (simp_all add: trialSpec_def)
  have me: "obj_get (meta t) ''task'' = js_nth ts (int i)"
           "obj_get (meta t) ''task2'' = t2"
           "obj_get (meta t) ''soa'' = ss"
    unfolding mt by (rule trialMeta_fields)+
  have single: "paradigm cfg \<noteq> ''dual-task'' \<Longrightarrow> t2 = Null \<and> ss = Null"
    using smp by (simp add: t2_def)
  have dual: "paradigm cfg = ''dual-task'' \<Longrightarrow> t2 = switchTask (js_nth ts (int i))"
    by (simp add: t2_def)
  have choice: "\<exists>x \<in> set ps. ss = Num x"
    if "paradigm cfg = ''dual-task''" "dist_type (cfg_soa cfg) = ''choice''"
       "dist_params (cfg_soa cfg) = Some ps" "ps \<noteq> []" for ps
  proof -
    have "ss = js_nth (map Num ps) \<lfloor>rnd k1 * real (length ps)\<rfloor>"
      using smp that by (simp add: sampleFromDistribution_def)
    moreover have "\<exists>x \<in> set ps. js_nth (map Num ps) \<lfloor>rnd k1 * real (length ps)\<rfloor> = Num x"
      using unit_rangeD [OF assms(2), of k1] that(4) by (intro choice_member) simp_all
    ultimately show ?thesis by simp
  qed
  have fallback: "ss = Num (dist_value (cfg_soa cfg))"
    if "paradigm cfg = ''dual-task''" "dist_type (cfg_soa cfg) = ''choice''"
       "dist_params (cfg_soa cfg) = None \<or> dist_params (cfg_soa cfg) = Some []"
    using smp that by (auto simp add: sampleFromDistribution_def)
  show ?thesis
    unfolding se me using single dual choice fallback by blast
qed

lemmas block_eval = generateBlockTrials_def generateTaskSequence_def classifyTransitions_def
  generateCongruencySequence_def count_step_def push_times_def shuffle_step_def
  assembleTrial_def nullish_or_def js_arith fl_small fl_08 fl_06
  trialSpec_def trialMeta_def sampleFromDistribution_def assignDirections_def
  buildTrialParams_def buildCoherenceParams_def buildDirectionParams_def
  buildTimingParams_def spread_def assign_all_def silence_def silence_pathway_def
  recompute_offsets_def strict_eq_def obj_get_def js_nth_def js_set_def math_round_def
  half_def prpConfig_def switchTask_def Let_def

text \<open>
  Claim C7, as the code has it. For every block that \<^verbatim>\<open>generateBlockTrials\<close>
  returns there is one trial per index. In a \<open>dual-task\<close> block, at every trial
  the second task, in the metadata and in the engine parameters alike, is the
  complement (\<^verbatim>\<open>switchTask\<close>, \<open>mov\<close> \<open>\<leftrightarrow>\<close> \<open>or\<close>) of that trial's first task; when
  the SOA distribution has type \<open>choice\<close> with non-empty \<open>params\<close> the SOA in the
  metadata is one of them, and when it has type \<open>choice\<close> with \<open>params\<close> empty or
  missing the SOA in the metadata is the fallback \<open>value\<close> of the distribution.
  In any other block the second task is \<open>null\<close> in both records and the SOA in
  the metadata is \<open>null\<close>.
\<close>

theorem generateBlockTrials_tasks_and_soa:
  assumes "generateBlockTrials cfg n rnd k = Inr (trials, k')" and "unit_range rnd"
  shows "length trials = n
       \<and> (paradigm cfg = ''dual-task'' \<longrightarrow> (\<forall>t \<in> set trials.
            obj_get (meta t) ''task2'' = switchTask (obj_get (meta t) ''task'')
          \<and> obj_get (seParams t) ''task_2'' = switchTask (obj_get (seParams t) ''task_1'')
          \<and> obj_get (seParams t) ''task_1'' = obj_get (meta t) ''task''
          \<and> (\<forall>ps. dist_type (cfg_soa cfg) = ''choice'' \<and> dist_params (cfg_soa cfg) = Some ps
                    \<and> ps \<noteq> []
                \<longrightarrow> (\<exists>x \<in> set ps. obj_get (meta t) ''soa'' = Num x))
          \<and> (dist_type (cfg_soa cfg) = ''choice''
                \<and> (dist_params (cfg_soa cfg) = None \<or> dist_params (cfg_soa cfg) = Some [])
                \<longrightarrow> obj_get (meta t) ''soa'' = Num (dist_value (cfg_soa cfg)))))
       \<and> (paradigm cfg \<noteq> ''dual-task'' \<longrightarrow> (\<forall>t \<in> set trials.
            obj_get (meta t) ''task2'' = Null \<and> obj_get (seParams t) ''task_2'' = Null
          \<and> obj_get (meta t) ''soa'' = Null))"
proof -
  define P where "P = (\<lambda>t::trial.
         obj_get (seParams t) ''task_1'' = obj_get (meta t) ''task''
       \<and> (paradigm cfg = ''dual-task'' \<longrightarrow>
            obj_get (meta t) ''task2'' = switchTask (obj_get (meta t) ''task'')
          \<and> obj_get (seParams t) ''task_2'' = switchTask (obj_get (seParams t) ''task_1'')
          \<and> (\<forall>ps. dist_type (cfg_soa cfg) = ''choice'' \<and> dist_params (cfg_soa cfg) = Some ps
                    \<and> ps \<noteq> []
                \<longrightarrow> (\<exists>x \<in> set ps. obj_get (meta t) ''soa'' = Num x))
          \<and> (dist_type (cfg_soa cfg) = ''choice''
                \<and> (dist_params (cfg_soa cfg) = None \<or> dist_params (cfg_soa cfg) = Some [])
                \<longrightarrow> obj_get (meta t) ''soa'' = Num (dist_value (cfg_soa cfg))))
       \<and> (paradigm cfg \<noteq> ''dual-task'' \<longrightarrow>
            obj_get (meta t) ''task2'' = Null \<and> obj_get (seParams t) ''task_2'' = Null
          \<and> obj_get (meta t) ''soa'' = Null))"
  from assms(1) obtain seq_k where
    g: "generateTaskSequence n (sequenceType cfg) (switchRate cfg)
          (if paradigm cfg = ''dual-task'' then cfg_task1 cfg else startTask cfg) rnd k = Inr seq_k"
    by (cases "generateTaskSequence n (sequenceType cfg) (switchRate cfg)
          (if paradigm cfg = ''dual-task'' then cfg_task1 cfg else startTask cfg) rnd k")
       (simp_all add: generateBlockTrials_def Let_def)
  from assms(1) g obtain cong_k where
    c: "generateCongruencySequence n (conditions cfg) (proportions cfg) rnd (snd seq_k)
          = Inr cong_k"
    by (cases "generateCongruencySequence n (conditions cfg) (proportions cfg) rnd (snd seq_k)")
       (simp_all add: generateBlockTrials_def Let_def)
  have a: "assembleTrials cfg (fst seq_k) (classifyTransitions (fst seq_k)) (fst cong_k) rnd
             [0..<n] [] (snd cong_k) = Inr (trials, k')"
    using assms(1) g c by (simp add: generateBlockTrials_def Let_def)
  have step: "P t" if "assembleTrial cfg (fst seq_k) (classifyTransitions (fst seq_k))
                         (fst cong_k) rnd i j = Inr (t, j')" for i j t j'
    unfolding P_def by (rule assembleTrial_props [OF that assms(2)])
  have "(\<forall>t \<in> set trials. P t) \<and> length trials = length ([]::trial list) + length [0..<n]"
    by (rule assembleTrials_invariant [where P = P, OF step a]) simp_all
  then have all: "\<forall>t \<in> set trials. P t" and len: "length trials = n" by simp_all
  show ?thesis
    using all len unfolding P_def by blast
qed

text \<open>
  Against claim C7 as stated: in the PRP block of the tests with the \<open>choice\<close>
  parameters of the SOA emptied, the block of one trial is returned and its SOA
  is the fallback \<open>value\<close> 100, a member of no choice set.
\<close>

theorem generateBlockTrials_soa_counterexample:
  "\<not> isl (generateBlockTrials
             (prpConfig\<lparr>cfg_soa := \<lparr>dist_type = ''choice'', dist_value = 100, dist_params = Some []\<rparr>\<rparr>)
             1 half 0)
   \<and> paradigm prpConfig = ''dual-task''
   \<and> length (fst (projr (generateBlockTrials
             (prpConfig\<lparr>cfg_soa := \<lparr>dist_type = ''choice'', dist_value = 100, dist_params = Some []\<rparr>\<rparr>)
             1 half 0))) = 1
   \<and> obj_get (meta (hd (fst (projr (generateBlockTrials
             (prpConfig\<lparr>cfg_soa := \<lparr>dist_type = ''choice'', dist_value = 100, dist_params = Some []\<rparr>\<rparr>)
             1 half 0))))) ''soa'' = Num 100
   \<and> 100 \<notin> set ([] :: real list)"
  by (simp add: block_eval)

lemma prpConfig_returns:
  "\<exists>trials k'. generateBlockTrials prpConfig 1 half 0 = Inr (trials, k')"
  by (simp add: block_eval)

lemma prpConfig_missing_returns:
  "\<exists>trials k'. generateBlockTrials
      (prpConfig\<lparr>cfg_soa := \<lparr>dist_type = ''choice'', dist_value = 100, dist_params = None\<rparr>\<rparr>)
      1 half 0 = Inr (trials, k')"
  by (simp add: block_eval)

theorem generateBlockTrials_tasks_and_soa_witness:
  "unit_range half
   \<and> paradigm prpConfig = ''dual-task''
   \<and> dist_type (cfg_soa prpConfig) = ''choice''
   \<and> dist_params (cfg_soa prpConfig) = Some [50, 100, 200, 400, 600, 1000]
   \<and> (\<exists>trials k'. generateBlockTrials prpConfig 1 half 0 = Inr (trials, k')
         \<and> length trials = 1
         \<and> (\<forall>t \<in> set trials.
               obj_get (meta t) ''task2'' = switchTask (obj_get (meta t) ''task'')
             \<and> obj_get (seParams t) ''task_2'' = switchTask (obj_get (seParams t) ''task_1'')
             \<and> (\<exists>x \<in> set [50, 100, 200, 400, 600, 1000].
                    obj_get (meta t) ''soa'' = Num x)))
   \<and> (\<exists>trials k'. generateBlockTrials
         (prpConfig\<lparr>cfg_soa := \<lparr>dist_type = ''choice'', dist_value = 100, dist_params = None\<rparr>\<rparr>)
         1 half 0 = Inr (trials, k')
         \<and> length trials = 1
         \<and> (\<forall>t \<in> set trials. obj_get (meta t) ''soa'' = Num 100))"
proof -
  have h: "unit_range half" by (simp add: unit_range_def half_def)
  have p: "paradigm prpConfig = ''dual-task''"
    and ty: "dist_type (cfg_soa prpConfig) = ''choice''"
    and ps: "dist_params (cfg_soa prpConfig) = Some [50, 100, 200, 400, 600, 1000]"
    by (simp_all add: prpConfig_def)
  obtain trials k' where g: "generateBlockTrials prpConfig 1 half 0 = Inr (trials, k')"
    using prpConfig_returns by blast
  have ne: "[50, 100, 200, 400, 600, 1000] \<noteq> ([] :: real list)" by simp
  note t = generateBlockTrials_tasks_and_soa [OF g h]
  have len: "length trials = 1" using t by blast
  have each: "\<forall>t \<in> set trials.
               obj_get (meta t) ''task2'' = switchTask (obj_get (meta t) ''task'')
             \<and> obj_get (seParams t) ''task_2'' = switchTask (obj_get (seParams t) ''task_1'')
             \<and> (\<exists>x \<in> set [50, 100, 200, 400, 600, 1000].
                    obj_get (meta t) ''soa'' = Num x)"
  proof
    fix tr assume m: "tr \<in> set trials"
    have d: "obj_get (meta tr) ''task2'' = switchTask (obj_get (meta tr) ''task'')
          \<and> obj_get (seParams tr) ''task_2'' = switchTask (obj_get (seParams tr) ''task_1'')
          \<and> obj_get (seParams tr) ''task_1'' = obj_get (meta tr) ''task''
          \<and> (\<forall>ps. dist_type (cfg_soa prpConfig) = ''choice''
                    \<and> dist_params (cfg_soa prpConfig) = Some ps \<and> ps \<noteq> []
                \<longrightarrow> (\<exists>x \<in> set ps. obj_get (meta tr) ''soa'' = Num x))"
      using t p m by blast
    then have "\<exists>x \<in> set [50, 100, 200, 400, 600, 1000]. obj_get (meta tr) ''soa'' = Num x"
      using ty ps ne by blast
    with d show "obj_get (meta tr) ''task2'' = switchTask (obj_get (meta tr) ''task'')
             \<and> obj_get (seParams tr) ''task_2'' = switchTask (obj_get (seParams tr) ''task_1'')
             \<and> (\<exists>x \<in> set [50, 100, 200, 400, 600, 1000].
                    obj_get (meta tr) ''soa'' = Num x)"
      by blast
  qed
  define cfg' where "cfg' = prpConfig\<lparr>cfg_soa :=
      \<lparr>dist_type = ''choice'', dist_value = 100, dist_params = None\<rparr>\<rparr>"
  have p': "paradigm cfg' = ''dual-task''" and ty': "dist_type (cfg_soa cfg') = ''choice''"
    and ps': "dist_params (cfg_soa cfg') = None" and v': "dist_value (cfg_soa cfg') = 100"
    by (simp_all add: cfg'_def prpConfig_def)
  obtain trials' k'' where g': "generateBlockTrials cfg' 1 half 0 = Inr (trials', k'')"
    using prpConfig_missing_returns unfolding cfg'_def by blast
  note t' = generateBlockTrials_tasks_and_soa [OF g' h]
  have len': "length trials' = 1" using t' by blast
  have each': "\<forall>t \<in> set trials'. obj_get (meta t) ''soa'' = Num 100"
  proof
    fix tr assume m: "tr \<in> set trials'"
    have "dist_type (cfg_soa cfg') = ''choice''
                \<and> (dist_params (cfg_soa cfg') = None \<or> dist_params (cfg_soa cfg') = Some [])
                \<longrightarrow> obj_get (meta tr) ''soa'' = Num (dist_value (cfg_soa cfg'))"
      using t' p' m by blast
    then show "obj_get (meta tr) ''soa'' = Num 100" using ty' ps' v' by simp
  qed
  have second: "\<exists>trials k'. generateBlockTrials cfg' 1 half 0 = Inr (trials, k')
         \<and> length trials = 1
         \<and> (\<forall>t \<in> set trials. obj_get (meta t) ''soa'' = Num 100)"
    using g' len' each' by blast
  have first: "\<exists>trials k'. generateBlockTrials prpConfig 1 half 0 = Inr (trials, k')
         \<and> length trials = 1
         \<and> (\<forall>t \<in> set trials.
               obj_get (meta t) ''task2'' = switchTask (obj_get (meta t) ''task'')
             \<and> obj_get (seParams t) ''task_2'' = switchTask (obj_get (seParams t) ''task_1'')
             \<and> (\<exists>x \<in> set [50, 100, 200, 400, 600, 1000].
                    obj_get (meta t) ''soa'' = Num x))"
    using g len each by blast
  show ?thesis using h p ty ps first second unfolding cfg'_def by (intro conjI)
qed



end
